(* ===== verification/Prelude.thy ===== *)
theory Prelude
  imports Main "HOL-Library.Word"
begin

unbundle bit_operations_syntax

text \<open>
  Shared vocabulary of the development: the machine types of the 32-bit x86 build of the
  driver (\<^verbatim>\<open>linux-drv/xil_types.h\<close>), the named collections of rewrite rules, and the
  generic facts about words, flag masks and cyclic lists that the components use.
\<close>

section \<open>Machine types\<close>

text \<open>
  \<^verbatim>\<open>u8\<close>, \<^verbatim>\<open>u16\<close> and \<^verbatim>\<open>u32\<close> wrap around, so they are words. A pointer is a 32-bit address
  (the driver casts pointers to \<^verbatim>\<open>u32\<close> and back and its README restricts it to 32-bit x86).
  A C \<^verbatim>\<open>int\<close> is \<^typ>\<open>int\<close>: the invariants bound every counter the driver keeps in one, and
  a conversion of an \<^verbatim>\<open>int\<close> to \<^verbatim>\<open>u32\<close> is written out as \<^verbatim>\<open>word_of_int\<close>.
\<close>

type_synonym u8 = "8 word"
type_synonym u16 = "16 word"
type_synonym u32 = "32 word"
type_synonym ptr = "32 word"
type_synonym status = int

abbreviation (input) NULL :: ptr where "NULL \<equiv> 0"

abbreviation (input) c_int_max :: int where "c_int_max \<equiv> 0x7FFFFFFF"

named_theorems word_facts \<open>moving between words and natural numbers\<close>
named_theorems mem_simps \<open>what a read sees after a write\<close>
named_theorems seek_simps \<open>pointer arithmetic on a well-formed ring, as index arithmetic\<close>
named_theorems ring_frame \<open>ring fields an operation leaves alone\<close>

section \<open>Words without wrap-around\<close>

lemma unat_u32_bound [word_facts]: "unat (x :: u32) < 4294967296"
  using unsigned_less [of x] by simp

lemma unat_add_nowrap [word_facts]:
  "unat a + unat b < 4294967296 \<Longrightarrow> unat ((a :: u32) + b) = unat a + unat b"
  by (simp add: unat_word_ariths)

lemma unat_mult_nowrap [word_facts]:
  "unat a * unat b < 4294967296 \<Longrightarrow> unat ((a :: u32) * b) = unat a * unat b"
  by (simp add: unat_word_ariths)

lemma unat_of_nat_u32 [word_facts]: "n < 4294967296 \<Longrightarrow> unat (of_nat n :: u32) = n"
  by (simp add: unat_of_nat take_bit_nat_eq_self_iff)

lemma word_of_int_of_nat: "(word_of_int (int n) :: u32) = of_nat n"
  by simp

lemma unat_sub_of_le [word_facts]:
  "b \<le> a \<Longrightarrow> unat ((a :: u32) - b) = unat a - unat b"
  by (simp add: unat_sub)

lemma unat_sub_wrap [word_facts]:
  assumes "unat a < unat (b :: u32)"
  shows "unat (a - b) = 4294967296 + unat a - unat b"
proof -
  have "unat b \<le> 4294967296 + unat a"
    using unat_u32_bound [of b] by simp
  then have "(of_nat (4294967296 + unat a - unat b) :: u32) = a - b"
    by (simp add: of_nat_diff)
  moreover have "unat (of_nat (4294967296 + unat a - unat b) :: u32) = 4294967296 + unat a - unat b"
    using assms by (intro unat_of_nat_u32) linarith
  ultimately show ?thesis
    by simp
qed

lemma unat_add_wrap [word_facts]:
  assumes "4294967296 \<le> unat a + unat (b :: u32)"
  shows "unat (a + b) = unat a + unat b - 4294967296"
proof -
  have "unat a + unat b - 4294967296 < 4294967296"
    using unat_u32_bound [of a] unat_u32_bound [of b] by linarith
  then have "(unat a + unat b) mod 4294967296 = unat a + unat b - 4294967296"
    using assms by (metis le_mod_geq mod_less)
  then show ?thesis
    by (simp add: unat_word_ariths)
qed

section \<open>Flag masks\<close>

text \<open>A flag test \<open>x AND m\<close> as the code writes it, after the bits of a mask were cleared,
  set or kept.\<close>

lemma and_not_self [simp]: "(x AND NOT m) AND m = (0 :: 'a :: len word)"
  by (rule bit_word_eqI) (simp add: bit_simps)

lemma or_and_self [simp]: "(x OR m) AND m = (m :: 'a :: len word)"
  by (rule bit_word_eqI) (auto simp add: bit_simps)

lemma and_not_disjoint:
  "m AND k = 0 \<Longrightarrow> (x AND NOT m) AND k = (x AND k :: 'a :: len word)"
proof (rule bit_word_eqI)
  fix n
  assume "m AND k = 0" and n: "n < LENGTH('a)"
  then have "\<not> (bit m n \<and> bit k n)"
    by (metis bit_0_eq bit_and_iff bot_apply bot_bool_def)
  then show "bit ((x AND NOT m) AND k) n = bit (x AND k) n"
    using n by (auto simp add: bit_simps)
qed

section \<open>Cyclic index arithmetic\<close>

lemma mod_add_shift: "((i + j) mod n + k) mod n = (i + (j + k)) mod (n :: nat)"
  by (simp add: mod_add_left_eq add.assoc)

lemma mod_add_left_Suc: "Suc (i mod n + j) mod n = Suc (i + j) mod (n :: nat)"
  by (metis mod_Suc_eq mod_add_left_eq)

lemma mod_add_sub_cancel:
  fixes i k n :: nat
  assumes "i < n" and "k \<le> n"
  shows "((i + k) mod n + (n - k)) mod n = i"
proof -
  have "((i + k) mod n + (n - k)) mod n = (i + k + (n - k)) mod n"
    by (rule mod_add_left_eq)
  with assms show ?thesis by simp
qed

lemma mod_add_inj:
  fixes i j k n :: nat
  assumes "(i + j) mod n = (i + k) mod n" and "j < n" and "k < n"
  shows "j = k"
proof -
  from assms(1) have "int n dvd int (i + j) - int (i + k)"
    by (metis mod_eq_dvd_iff of_nat_mod)
  then have "int n dvd int j - int k"
    by simp
  then obtain c where c: "int j - int k = int n * c" ..
  from assms(2,3) have "\<bar>int n * c\<bar> < int n"
    unfolding c [symmetric] by linarith
  then have "c = 0"
    by (cases "c = 0") (simp_all add: abs_mult mult_less_cancel_left2)
  with c show ?thesis by simp
qed

text \<open>The cells of a cyclic segment: \<open>len\<close> indices from \<open>start\<close>, modulo \<open>n\<close>.\<close>

definition cyc :: "nat \<Rightarrow> nat \<Rightarrow> nat \<Rightarrow> nat list" where
  "cyc n start len = map (\<lambda>k. (start + k) mod n) [0..<len]"

lemma length_cyc [simp]: "length (cyc n s l) = l"
  by (simp add: cyc_def)

lemma cyc_0 [simp]: "cyc n s 0 = []"
  by (simp add: cyc_def)

lemma nth_cyc [simp]: "k < l \<Longrightarrow> cyc n s l ! k = (s + k) mod n"
  by (simp add: cyc_def)

lemma cyc_eq_Nil [simp]: "cyc n s l = [] \<longleftrightarrow> l = 0"
  by (simp add: cyc_def)

lemma cyc_append: "cyc n s a @ cyc n ((s + a) mod n) b = cyc n s (a + b)"
proof (rule nth_equalityI)
  fix i
  assume i: "i < length (cyc n s a @ cyc n ((s + a) mod n) b)"
  show "(cyc n s a @ cyc n ((s + a) mod n) b) ! i = cyc n s (a + b) ! i"
  proof (cases "i < a")
    case False
    then obtain d where "i = a + d"
      by (metis le_iff_add not_less)
    with i show ?thesis by (simp add: nth_append mod_add_shift)
  qed (simp add: nth_append)
qed simp

lemma cyc_Suc: "cyc n s (Suc l) = s mod n # cyc n (Suc s) l"
  by (rule nth_equalityI) (auto simp: nth_Cons split: nat.splits)

lemma take_cyc: "k \<le> l \<Longrightarrow> take k (cyc n s l) = cyc n s k"
  by (simp add: cyc_def take_map)

lemma drop_cyc: "k \<le> l \<Longrightarrow> drop k (cyc n s l) = cyc n ((s + k) mod n) (l - k)"
  by (rule nth_equalityI) (auto simp: mod_add_left_eq add.assoc)

lemma cyc_mod_start [simp]: "cyc n (s mod n) l = cyc n s l"
  by (rule nth_equalityI) (auto simp: mod_add_left_eq)

lemma distinct_cyc: "l \<le> n \<Longrightarrow> distinct (cyc n s l)"
  by (auto simp: distinct_conv_nth dest: mod_add_inj)

lemma set_cyc_subset: "0 < n \<Longrightarrow> set (cyc n s l) \<subseteq> {..<n}"
  by (auto simp: cyc_def)

lemma set_cyc_full: "0 < n \<Longrightarrow> set (cyc n s n) = {..<n}"
  by (rule card_subset_eq [OF finite_lessThan set_cyc_subset])
    (simp_all add: distinct_card distinct_cyc)

lemma hd_cyc: "0 < l \<Longrightarrow> hd (cyc n s l) = s mod n"
  by (simp add: hd_conv_nth)

lemma last_cyc: "0 < l \<Longrightarrow> last (cyc n s l) = (s + (l - 1)) mod n"
  by (simp add: last_conv_nth)

end
