(* ===== verification/Memory.thy ===== *)
theory Memory
  imports Prelude
begin

unbundle bit_operations_syntax

text \<open>
  System memory as the driver sees it: bytes at 32-bit addresses, with the little-endian
  32-bit accesses that \<^verbatim>\<open>*(u32 *)p\<close> compiles to, \<^verbatim>\<open>memset\<close> and \<^verbatim>\<open>memcpy\<close>. The locale
  \<open>word_memory\<close> is what the descriptor code relies on; it is interpreted on
  \<open>load32\<close> and \<open>store32\<close> at the end.
\<close>

section \<open>Bytes and little-endian words\<close>

type_synonym memory = "ptr \<Rightarrow> u8"

definition load32 :: "memory \<Rightarrow> ptr \<Rightarrow> u32" where
  "load32 m p = ucast (m p) OR push_bit 8 (ucast (m (p + 1)))
     OR push_bit 16 (ucast (m (p + 2))) OR push_bit 24 (ucast (m (p + 3)))"

definition store32 :: "memory \<Rightarrow> ptr \<Rightarrow> u32 \<Rightarrow> memory" where
  "store32 m p v = m(p := ucast v, p + 1 := ucast (drop_bit 8 v),
     p + 2 := ucast (drop_bit 16 v), p + 3 := ucast (drop_bit 24 v))"

definition memset :: "memory \<Rightarrow> ptr \<Rightarrow> u8 \<Rightarrow> nat \<Rightarrow> memory" where
  "memset m p c n = (\<lambda>a. if unat (a - p) < n then c else m a)"

text \<open>\<^verbatim>\<open>memcpy\<close> from a local object \<open>src\<close>, which is a byte array of its own with base 0.\<close>

definition memcpy_from :: "memory \<Rightarrow> ptr \<Rightarrow> (ptr \<Rightarrow> u8) \<Rightarrow> nat \<Rightarrow> memory" where
  "memcpy_from m p src n = (\<lambda>a. if unat (a - p) < n then src (a - p) else m a)"

text \<open>Two words at \<open>a\<close> and \<open>b\<close> do not share a byte (also across the end of memory).\<close>

definition separate4 :: "ptr \<Rightarrow> ptr \<Rightarrow> bool" where
  "separate4 a b \<longleftrightarrow> 4 \<le> a - b \<and> 4 \<le> b - a"

section \<open>Reads after writes\<close>

lemma separate4_sym: "separate4 a b \<Longrightarrow> separate4 b a"
  by (simp add: separate4_def)

lemma separate4_neq: "separate4 a b \<Longrightarrow> a \<noteq> b"
  by (auto simp: separate4_def)

lemma separate4I:
  assumes "unat a + 4 \<le> unat b" and "unat b + 4 \<le> 4294967296"
  shows "separate4 a b"
proof -
  have "unat (b - a) = unat b - unat a"
    using assms by (simp add: unat_sub_of_le word_le_nat_alt)
  moreover have "unat (a - b) = 4294967296 + unat a - unat b"
    using assms by (simp add: unat_sub_wrap)
  ultimately show ?thesis
    using assms unfolding separate4_def word_le_nat_alt by simp linarith
qed

lemma separate4_unat:
  assumes "unat a + 4 \<le> unat b \<or> unat b + 4 \<le> unat a"
    and "unat a + 4 \<le> 4294967296" and "unat b + 4 \<le> 4294967296"
  shows "separate4 a b"
  using assms separate4I separate4_sym by blast

lemma word_bytes:
  fixes v :: u32
  shows "ucast (ucast v :: u8) OR push_bit 8 (ucast (ucast (drop_bit 8 v) :: u8))
     OR push_bit 16 (ucast (ucast (drop_bit 16 v) :: u8))
     OR push_bit 24 (ucast (ucast (drop_bit 24 v) :: u8)) = v" (is "?w = v")
proof (rule bit_word_eqI)
  fix n
  assume "n < LENGTH(32)"
  then consider "n < 8" | "8 \<le> n" "n < 16" | "16 \<le> n" "n < 24" | "24 \<le> n" "n < 32"
    by fastforce
  then show "bit ?w n = bit v n"
    by cases (simp_all add: bit_or_iff bit_push_bit_iff bit_ucast_iff bit_drop_bit_eq less_diff_conv2)
qed

lemma store32_bytes:
  "store32 m p v p = ucast v"
  "store32 m p v (p + 1) = ucast (drop_bit 8 v)"
  "store32 m p v (p + 2) = ucast (drop_bit 16 v)"
  "store32 m p v (p + 3) = ucast (drop_bit 24 v)"
  by (simp_all add: store32_def)

lemma load32_store32_same [simp, mem_simps]: "load32 (store32 m p v) p = v"
  unfolding load32_def store32_bytes by (rule word_bytes)

lemma offset_distinct:
  assumes "separate4 a b" and "i < 4" and "j < 4"
  shows "a + i \<noteq> b + j"
proof
  assume eq: "a + i = b + j"
  show False
  proof (cases "i \<le> j")
    case True
    from eq have "a = b + j - i"
      by (simp add: eq_diff_eq)
    then have "a - b = j - i"
      by simp
    moreover have "j - i \<le> j"
      using True by (simp add: word_le_nat_alt unat_sub_of_le)
    ultimately show False
      using assms by (auto simp: separate4_def)
  next
    case False
    from eq [symmetric] have "b = a + i - j"
      by (simp add: eq_diff_eq)
    then have "b - a = i - j"
      by simp
    moreover have "i - j \<le> i"
      using False by (simp add: word_le_nat_alt unat_sub_of_le)
    ultimately show False
      using assms by (auto simp: separate4_def)
  qed
qed

lemma load32_store32_other [simp, mem_simps]:
  assumes "separate4 a b"
  shows "load32 (store32 m a v) b = load32 m b"
proof -
  have eq: "store32 m a v (b + k) = m (b + k)" if "k < 4" for k
    using that offset_distinct [OF assms, of 0 k] offset_distinct [OF assms, of 1 k]
      offset_distinct [OF assms, of 2 k] offset_distinct [OF assms, of 3 k]
    by (simp add: store32_def)
  show ?thesis
    using eq [of 0] eq [of 1] eq [of 2] eq [of 3] by (simp add: load32_def)
qed

lemma unat_add_le: "unat ((x :: u32) + k) \<le> unat x + unat k"
  by (simp add: unat_word_ariths)

text \<open>A word inside a filled or copied block, and one outside it.\<close>

definition inside :: "ptr \<Rightarrow> ptr \<Rightarrow> nat \<Rightarrow> bool" where
  "inside a p n \<longleftrightarrow> unat (a - p) + 4 \<le> n"

definition outside :: "ptr \<Rightarrow> ptr \<Rightarrow> nat \<Rightarrow> bool" where
  "outside a p n \<longleftrightarrow> n \<le> unat (a - p) \<and> unat (a - p) + 4 \<le> 4294967296"

lemma inside_byte:
  assumes "inside a p n" and "unat k < 4"
  shows "unat (a + k - p) < n"
proof -
  have "unat (a - p + k) \<le> unat (a - p) + unat k"
    by (rule unat_add_le)
  then have "unat (a - p + k) < n"
    using assms unfolding inside_def by linarith
  then show ?thesis
    by (simp add: diff_add_eq)
qed

lemma outside_byte:
  assumes "outside a p n" and "unat k < 4"
  shows "\<not> unat (a + k - p) < n"
proof -
  have "unat (a - p + k) = unat (a - p) + unat k"
    using assms unfolding outside_def by (intro unat_add_nowrap) linarith
  then show ?thesis
    using assms(1) by (simp add: diff_add_eq outside_def)
qed

lemma outsideI:
  assumes "unat a + 4 \<le> unat p \<or> unat p + n \<le> unat a"
    and "unat a + 4 \<le> 4294967296" and "unat p + n \<le> 4294967296"
  shows "outside a p n"
proof (cases "p \<le> a")
  case True
  then have "unat (a - p) = unat a - unat p" and "unat p \<le> unat a"
    by (simp_all add: unat_sub_of_le word_le_nat_alt)
  then show ?thesis
    using assms unfolding outside_def by linarith
next
  case False
  then have "unat (a - p) = 4294967296 + unat a - unat p" and "unat a < unat p"
    by (simp_all add: unat_sub_wrap word_le_nat_alt)
  then show ?thesis
    using assms unfolding outside_def by linarith
qed

lemma insideI:
  assumes "unat p \<le> unat a" and "unat a + 4 \<le> unat p + n"
  shows "inside a p n"
proof -
  have "unat (a - p) = unat a - unat p"
    using assms(1) by (simp add: unat_sub_of_le word_le_nat_alt)
  then show ?thesis
    using assms unfolding inside_def by linarith
qed

lemma load32_cong:
  assumes "\<And>k. unat k < 4 \<Longrightarrow> m (a + k) = m' (b + k)"
  shows "load32 m a = load32 m' b"
  using assms [of 0] assms [of 1] assms [of 2] assms [of 3] by (simp add: load32_def)

lemma load32_memset_inside [mem_simps]:
  "inside a p n \<Longrightarrow> load32 (memset m p 0 n) a = 0"
  using inside_byte [of a p n 0] inside_byte [of a p n 1]
    inside_byte [of a p n 2] inside_byte [of a p n 3]
  by (simp add: load32_def memset_def)

lemma load32_memset_outside [mem_simps]:
  "outside a p n \<Longrightarrow> load32 (memset m p c n) a = load32 m a"
  by (rule load32_cong) (simp add: outside_byte memset_def)

lemma load32_memcpy_inside [mem_simps]:
  "inside a p n \<Longrightarrow> load32 (memcpy_from m p src n) a = load32 src (a - p)"
  by (rule load32_cong) (simp add: memcpy_from_def inside_byte diff_add_eq)

lemma load32_memcpy_outside [mem_simps]:
  "outside a p n \<Longrightarrow> load32 (memcpy_from m p src n) a = load32 m a"
  by (rule load32_cong) (simp add: outside_byte memcpy_from_def)

section \<open>The interface the descriptor code uses\<close>

text \<open>A sequence of word writes, in order.\<close>

fun writes :: "('m \<Rightarrow> ptr \<Rightarrow> u32 \<Rightarrow> 'm) \<Rightarrow> (ptr \<times> u32) list \<Rightarrow> 'm \<Rightarrow> 'm" where
  "writes wr [] m = m"
| "writes wr ((a, v) # ws) m = writes wr ws (wr m a v)"

fun separated :: "ptr list \<Rightarrow> bool" where
  "separated [] = True"
| "separated (a # as) = ((\<forall>b\<in>set as. separate4 a b) \<and> separated as)"

lemma writes_append: "writes wr (xs @ ys) m = writes wr ys (writes wr xs m)"
  by (induction wr xs m rule: writes.induct) auto

locale word_memory =
  fixes rd :: "'m \<Rightarrow> ptr \<Rightarrow> u32"
    and wr :: "'m \<Rightarrow> ptr \<Rightarrow> u32 \<Rightarrow> 'm"
  assumes rd_wr_same: "rd (wr m a v) a = v"
    and rd_wr_other: "separate4 a b \<Longrightarrow> rd (wr m a v) b = rd m b"
begin

lemma rd_writes_other:
  "\<forall>(a, v)\<in>set ws. separate4 a b \<Longrightarrow> rd (writes wr ws m) b = rd m b"
  by (induction ws arbitrary: m) (auto simp: rd_wr_other)

lemma rd_writes_in:
  "separated (map fst ws) \<Longrightarrow> (a, v) \<in> set ws \<Longrightarrow> rd (writes wr ws m) a = v"
proof (induction ws arbitrary: m)
  case (Cons w ws)
  show ?case
  proof (cases "w = (a, v)")
    case True
    with Cons.prems(1) have "\<forall>(b, u)\<in>set ws. separate4 b a"
      by (auto simp: separate4_sym)
    with True show ?thesis
      by (simp add: rd_writes_other rd_wr_same)
  next
    case False
    with Cons show ?thesis
      by (cases w) auto
  qed
qed simp

end

interpretation ram: word_memory load32 store32
  by unfold_locales simp_all

end
