(* ===== verification/Xio.thy ===== *)
theory Xio
  imports Memory
begin

unbundle bit_operations_syntax

text \<open>
  Register access, \<^verbatim>\<open>linux-drv/xio.c\<close>. The device behind the PCIe BAR is not part of the
  program: it is a parameter, a \<open>bus\<close> that says what each access returns and how
  the device state changes. A \<open>world\<close> is system memory together with the device state, and
  every operation that touches a register takes and returns one.
\<close>

section \<open>The device as a parameter\<close>

record 'd bus =
  bus_in8 :: "u32 \<Rightarrow> 'd \<Rightarrow> u8 \<times> 'd"
  bus_in16 :: "u32 \<Rightarrow> 'd \<Rightarrow> u16 \<times> 'd"
  bus_in32 :: "u32 \<Rightarrow> 'd \<Rightarrow> u32 \<times> 'd"
  bus_out8 :: "u32 \<Rightarrow> u8 \<Rightarrow> 'd \<Rightarrow> 'd"
  bus_out16 :: "u32 \<Rightarrow> u16 \<Rightarrow> 'd \<Rightarrow> 'd"
  bus_out32 :: "u32 \<Rightarrow> u32 \<Rightarrow> 'd \<Rightarrow> 'd"

record 'd world =
  ram :: memory
  dev :: 'd

text \<open>The simplest device: registers that hold what was written to them. It instantiates the bus
  where a concrete device is evaluated.\<close>

definition regfile :: "(u32 \<Rightarrow> u32) bus" where
  "regfile = \<lparr>bus_in8 = (\<lambda>a d. (ucast (d a), d)), bus_in16 = (\<lambda>a d. (ucast (d a), d)),
     bus_in32 = (\<lambda>a d. (d a, d)), bus_out8 = (\<lambda>a v d. d(a := ucast v)),
     bus_out16 = (\<lambda>a v d. d(a := ucast v)), bus_out32 = (\<lambda>a v d. d(a := v))\<rparr>"

section \<open>Plain accesses\<close>

definition XIo_In8 :: "'d bus \<Rightarrow> u32 \<Rightarrow> 'd world \<Rightarrow> u8 \<times> 'd world" where
  "XIo_In8 B a w = (let (v, d) = bus_in8 B a (dev w) in (v, w\<lparr>dev := d\<rparr>))"

definition XIo_In16 :: "'d bus \<Rightarrow> u32 \<Rightarrow> 'd world \<Rightarrow> u16 \<times> 'd world" where
  "XIo_In16 B a w = (let (v, d) = bus_in16 B a (dev w) in (v, w\<lparr>dev := d\<rparr>))"

definition XIo_In32 :: "'d bus \<Rightarrow> u32 \<Rightarrow> 'd world \<Rightarrow> u32 \<times> 'd world" where
  "XIo_In32 B a w = (let (v, d) = bus_in32 B a (dev w) in (v, w\<lparr>dev := d\<rparr>))"

definition XIo_Out8 :: "'d bus \<Rightarrow> u32 \<Rightarrow> u8 \<Rightarrow> 'd world \<Rightarrow> 'd world" where
  "XIo_Out8 B a v w = w\<lparr>dev := bus_out8 B a v (dev w)\<rparr>"

definition XIo_Out16 :: "'d bus \<Rightarrow> u32 \<Rightarrow> u16 \<Rightarrow> 'd world \<Rightarrow> 'd world" where
  "XIo_Out16 B a v w = w\<lparr>dev := bus_out16 B a v (dev w)\<rparr>"

definition XIo_Out32 :: "'d bus \<Rightarrow> u32 \<Rightarrow> u32 \<Rightarrow> 'd world \<Rightarrow> 'd world" where
  "XIo_Out32 B a v w = w\<lparr>dev := bus_out32 B a v (dev w)\<rparr>"

section \<open>Byte-swapping accesses\<close>

definition OutSwap16 :: "u16 \<Rightarrow> u16" where
  "OutSwap16 Source = drop_bit 8 (Source AND 0xFF00) OR push_bit 8 (Source AND 0x00FF)"

definition InSwap16 :: "u16 \<Rightarrow> u16" where
  "InSwap16 Source = drop_bit 8 (Source AND 0xFF00) OR push_bit 8 (Source AND 0x00FF)"

text \<open>The two half words are \<^verbatim>\<open>u16\<close> locals; \<^verbatim>\<open>LoWord << 16\<close> is computed after promotion.\<close>

definition OutSwap32 :: "u32 \<Rightarrow> u32" where
  "OutSwap32 Source =
    (let LoWord = (ucast (Source AND 0x0000FFFF) :: u16);
         HiWord = (ucast (drop_bit 16 (Source AND 0xFFFF0000)) :: u16);
         LoWord = drop_bit 8 (LoWord AND 0xFF00) OR push_bit 8 (LoWord AND 0x00FF);
         HiWord = drop_bit 8 (HiWord AND 0xFF00) OR push_bit 8 (HiWord AND 0x00FF)
     in push_bit 16 (ucast LoWord) OR ucast HiWord)"

definition InSwap32 :: "u32 \<Rightarrow> u32" where
  "InSwap32 Source =
    (let LoWord = (ucast (Source AND 0x0000FFFF) :: u16);
         HiWord = (ucast (drop_bit 16 (Source AND 0xFFFF0000)) :: u16);
         LoWord = drop_bit 8 (LoWord AND 0xFF00) OR push_bit 8 (LoWord AND 0x00FF);
         HiWord = drop_bit 8 (HiWord AND 0xFF00) OR push_bit 8 (HiWord AND 0x00FF)
     in push_bit 16 (ucast LoWord) OR ucast HiWord)"

definition XIo_InSwap16 :: "'d bus \<Rightarrow> u32 \<Rightarrow> 'd world \<Rightarrow> u16 \<times> 'd world" where
  "XIo_InSwap16 B a w = (let (v, d) = bus_in16 B a (dev w) in (InSwap16 v, w\<lparr>dev := d\<rparr>))"

definition XIo_InSwap32 :: "'d bus \<Rightarrow> u32 \<Rightarrow> 'd world \<Rightarrow> u32 \<times> 'd world" where
  "XIo_InSwap32 B a w = (let (v, d) = bus_in32 B a (dev w) in (InSwap32 v, w\<lparr>dev := d\<rparr>))"

text \<open>
  \<^verbatim>\<open>XIo_OutSwap32\<close> calls \<^verbatim>\<open>OutSwap32(OutAddress, (u32 *)Value)\<close>: the address is the value
  that is swapped and the value is the address that is written.
\<close>

definition XIo_OutSwap32 :: "'d bus \<Rightarrow> u32 \<Rightarrow> u32 \<Rightarrow> 'd world \<Rightarrow> 'd world" where
  "XIo_OutSwap32 B OutAddress Value w =
    w\<lparr>dev := bus_out32 B Value (OutSwap32 OutAddress) (dev w)\<rparr>"

section \<open>Facts\<close>

lemma ram_io [simp]:
  "ram (snd (XIo_In32 B a w)) = ram w"
  "ram (XIo_Out32 B a v w) = ram w"
  by (simp_all add: XIo_In32_def XIo_Out32_def split_beta Let_def)

lemma byte_masks:
  "(0xFF00 :: u16) = push_bit 8 (mask 8)" "(0x00FF :: u16) = mask 8"
  "(0xFFFF0000 :: u32) = push_bit 16 (mask 16)" "(0x0000FFFF :: u32) = mask 16"
  by (simp_all add: mask_eq_exp_minus_1 push_bit_eq_mult)

lemma OutSwap32_bit:
  assumes "n < 32"
  shows "bit (OutSwap32 v) n = bit v (if n < 8 then n + 24 else if n < 16 then n + 8
     else if n < 24 then n - 8 else n - 24)"
proof -
  from assms consider "n < 8" | "8 \<le> n" "n < 16" | "16 \<le> n" "n < 24" | "24 \<le> n" "n < 32"
    by fastforce
  then show ?thesis
    unfolding OutSwap32_def Let_def byte_masks
    by cases (simp_all add: bit_or_iff bit_and_iff bit_push_bit_iff bit_ucast_iff
        bit_drop_bit_eq bit_mask_iff less_diff_conv2 le_diff_conv2 add.commute)
qed

lemma InSwap32_eq: "InSwap32 = OutSwap32"
  by (simp add: fun_eq_iff InSwap32_def OutSwap32_def)

lemma OutSwap32_byte:
  "(ucast (drop_bit 0 (OutSwap32 v)) :: u8) = ucast (drop_bit 24 v)"
  "(ucast (drop_bit 8 (OutSwap32 v)) :: u8) = ucast (drop_bit 16 v)"
  "(ucast (drop_bit 16 (OutSwap32 v)) :: u8) = ucast (drop_bit 8 v)"
  "(ucast (drop_bit 24 (OutSwap32 v)) :: u8) = ucast (drop_bit 0 v)"
  by (rule bit_word_eqI; simp add: bit_ucast_iff bit_drop_bit_eq OutSwap32_bit add.commute)+

end
