(* ===== verification/Axidma_Hw.thy ===== *)
theory Axidma_Hw
  imports Xio
begin

unbundle bit_operations_syntax

text \<open>
  The register map of the AXI DMA engine and the layout of a buffer descriptor, from
  \<^verbatim>\<open>linux-drv/xaxidma_hw.h\<close>, the status codes of \<^verbatim>\<open>linux-drv/xstatus.h\<close>, and the register
  accessors \<open>XAxiDma_ReadReg\<close> and \<open>XAxiDma_WriteReg\<close>.
\<close>

section \<open>Registers, descriptor words and masks\<close>

abbreviation (input) XAXIDMA_DMA_TO_DEVICE :: int where "XAXIDMA_DMA_TO_DEVICE \<equiv> 0"
abbreviation (input) XAXIDMA_DEVICE_TO_DMA :: int where "XAXIDMA_DEVICE_TO_DMA \<equiv> 1"
abbreviation (input) XAXIDMA_BD_MINIMUM_ALIGNMENT :: u32 where "XAXIDMA_BD_MINIMUM_ALIGNMENT \<equiv> 0x40"
abbreviation (input) XAXIDMA_MAX_TRANSFER_LEN :: u32 where "XAXIDMA_MAX_TRANSFER_LEN \<equiv> 0x7FFFFF"
abbreviation (input) XAXIDMA_MCHAN_MAX_TRANSFER_LEN :: u32 where "XAXIDMA_MCHAN_MAX_TRANSFER_LEN \<equiv> 0x00FFFF"
abbreviation (input) XAXIDMA_TX_OFFSET :: u32 where "XAXIDMA_TX_OFFSET \<equiv> 0"
abbreviation (input) XAXIDMA_RX_OFFSET :: u32 where "XAXIDMA_RX_OFFSET \<equiv> 0x00000030"
abbreviation (input) XAXIDMA_CR_OFFSET :: u32 where "XAXIDMA_CR_OFFSET \<equiv> 0"
abbreviation (input) XAXIDMA_SR_OFFSET :: u32 where "XAXIDMA_SR_OFFSET \<equiv> 4"
abbreviation (input) XAXIDMA_CDESC_OFFSET :: u32 where "XAXIDMA_CDESC_OFFSET \<equiv> 8"
abbreviation (input) XAXIDMA_TDESC_OFFSET :: u32 where "XAXIDMA_TDESC_OFFSET \<equiv> 0x00000010"
abbreviation (input) XAXIDMA_SRCADDR_OFFSET :: u32 where "XAXIDMA_SRCADDR_OFFSET \<equiv> 0x00000018"
abbreviation (input) XAXIDMA_DESTADDR_OFFSET :: u32 where "XAXIDMA_DESTADDR_OFFSET \<equiv> 0x00000018"
abbreviation (input) XAXIDMA_BUFFLEN_OFFSET :: u32 where "XAXIDMA_BUFFLEN_OFFSET \<equiv> 0x00000028"
abbreviation (input) XAXIDMA_SGCTL_OFFSET :: u32 where "XAXIDMA_SGCTL_OFFSET \<equiv> 0x0000002c"
abbreviation (input) XAXIDMA_RX_CDESC0_OFFSET :: u32 where "XAXIDMA_RX_CDESC0_OFFSET \<equiv> 0x00000040"
abbreviation (input) XAXIDMA_RX_TDESC0_OFFSET :: u32 where "XAXIDMA_RX_TDESC0_OFFSET \<equiv> 0x00000048"
abbreviation (input) XAXIDMA_RX_NDESC_OFFSET :: u32 where "XAXIDMA_RX_NDESC_OFFSET \<equiv> 0x00000020"
abbreviation (input) XAXIDMA_CR_RUNSTOP_MASK :: u32 where "XAXIDMA_CR_RUNSTOP_MASK \<equiv> 1"
abbreviation (input) XAXIDMA_CR_RESET_MASK :: u32 where "XAXIDMA_CR_RESET_MASK \<equiv> 4"
abbreviation (input) XAXIDMA_CR_KEYHOLE_MASK :: u32 where "XAXIDMA_CR_KEYHOLE_MASK \<equiv> 8"
abbreviation (input) XAXIDMA_HALTED_MASK :: u32 where "XAXIDMA_HALTED_MASK \<equiv> 1"
abbreviation (input) XAXIDMA_IDLE_MASK :: u32 where "XAXIDMA_IDLE_MASK \<equiv> 2"
abbreviation (input) XAXIDMA_ERR_INTERNAL_MASK :: u32 where "XAXIDMA_ERR_INTERNAL_MASK \<equiv> 0x00000010"
abbreviation (input) XAXIDMA_ERR_SLAVE_MASK :: u32 where "XAXIDMA_ERR_SLAVE_MASK \<equiv> 0x00000020"
abbreviation (input) XAXIDMA_ERR_DECODE_MASK :: u32 where "XAXIDMA_ERR_DECODE_MASK \<equiv> 0x00000040"
abbreviation (input) XAXIDMA_ERR_SG_INT_MASK :: u32 where "XAXIDMA_ERR_SG_INT_MASK \<equiv> 0x00000100"
abbreviation (input) XAXIDMA_ERR_SG_SLV_MASK :: u32 where "XAXIDMA_ERR_SG_SLV_MASK \<equiv> 0x00000200"
abbreviation (input) XAXIDMA_ERR_SG_DEC_MASK :: u32 where "XAXIDMA_ERR_SG_DEC_MASK \<equiv> 0x00000400"
abbreviation (input) XAXIDMA_ERR_ALL_MASK :: u32 where "XAXIDMA_ERR_ALL_MASK \<equiv> 0x00000770"
abbreviation (input) XAXIDMA_IRQ_IOC_MASK :: u32 where "XAXIDMA_IRQ_IOC_MASK \<equiv> 0x00001000"
abbreviation (input) XAXIDMA_IRQ_DELAY_MASK :: u32 where "XAXIDMA_IRQ_DELAY_MASK \<equiv> 0x00002000"
abbreviation (input) XAXIDMA_IRQ_ERROR_MASK :: u32 where "XAXIDMA_IRQ_ERROR_MASK \<equiv> 0x00004000"
abbreviation (input) XAXIDMA_IRQ_ALL_MASK :: u32 where "XAXIDMA_IRQ_ALL_MASK \<equiv> 0x00007000"
abbreviation (input) XAXIDMA_DELAY_MASK :: u32 where "XAXIDMA_DELAY_MASK \<equiv> 0xFF000000"
abbreviation (input) XAXIDMA_COALESCE_MASK :: u32 where "XAXIDMA_COALESCE_MASK \<equiv> 0x00FF0000"
abbreviation (input) XAXIDMA_DELAY_SHIFT :: nat where "XAXIDMA_DELAY_SHIFT \<equiv> 24"
abbreviation (input) XAXIDMA_COALESCE_SHIFT :: nat where "XAXIDMA_COALESCE_SHIFT \<equiv> 16"
abbreviation (input) XAXIDMA_BD_NDESC_OFFSET :: u32 where "XAXIDMA_BD_NDESC_OFFSET \<equiv> 0"
abbreviation (input) XAXIDMA_BD_BUFA_OFFSET :: u32 where "XAXIDMA_BD_BUFA_OFFSET \<equiv> 8"
abbreviation (input) XAXIDMA_BD_MCCTL_OFFSET :: u32 where "XAXIDMA_BD_MCCTL_OFFSET \<equiv> 0x10"
abbreviation (input) XAXIDMA_BD_STRIDE_VSIZE_OFFSET :: u32 where "XAXIDMA_BD_STRIDE_VSIZE_OFFSET \<equiv> 0x14"
abbreviation (input) XAXIDMA_BD_CTRL_LEN_OFFSET :: u32 where "XAXIDMA_BD_CTRL_LEN_OFFSET \<equiv> 0x18"
abbreviation (input) XAXIDMA_BD_STS_OFFSET :: u32 where "XAXIDMA_BD_STS_OFFSET \<equiv> 0x1C"
abbreviation (input) XAXIDMA_BD_USR0_OFFSET :: u32 where "XAXIDMA_BD_USR0_OFFSET \<equiv> 0x20"
abbreviation (input) XAXIDMA_BD_USR1_OFFSET :: u32 where "XAXIDMA_BD_USR1_OFFSET \<equiv> 0x24"
abbreviation (input) XAXIDMA_BD_USR2_OFFSET :: u32 where "XAXIDMA_BD_USR2_OFFSET \<equiv> 0x28"
abbreviation (input) XAXIDMA_BD_USR3_OFFSET :: u32 where "XAXIDMA_BD_USR3_OFFSET \<equiv> 0x2C"
abbreviation (input) XAXIDMA_BD_USR4_OFFSET :: u32 where "XAXIDMA_BD_USR4_OFFSET \<equiv> 0x30"
abbreviation (input) XAXIDMA_BD_ID_OFFSET :: u32 where "XAXIDMA_BD_ID_OFFSET \<equiv> 0x34"
abbreviation (input) XAXIDMA_BD_HAS_STSCNTRL_OFFSET :: u32 where "XAXIDMA_BD_HAS_STSCNTRL_OFFSET \<equiv> 0x38"
abbreviation (input) XAXIDMA_BD_HAS_DRE_OFFSET :: u32 where "XAXIDMA_BD_HAS_DRE_OFFSET \<equiv> 0x3C"
abbreviation (input) XAXIDMA_BD_HAS_DRE_MASK :: u32 where "XAXIDMA_BD_HAS_DRE_MASK \<equiv> 0xF00"
abbreviation (input) XAXIDMA_BD_WORDLEN_MASK :: u32 where "XAXIDMA_BD_WORDLEN_MASK \<equiv> 0xFF"
abbreviation (input) XAXIDMA_BD_HAS_DRE_SHIFT :: nat where "XAXIDMA_BD_HAS_DRE_SHIFT \<equiv> 8"
abbreviation (input) XAXIDMA_BD_START_CLEAR :: u32 where "XAXIDMA_BD_START_CLEAR \<equiv> 8"
abbreviation (input) XAXIDMA_BD_BYTES_TO_CLEAR :: nat where "XAXIDMA_BD_BYTES_TO_CLEAR \<equiv> 48"
abbreviation (input) XAXIDMA_BD_NUM_WORDS :: nat where "XAXIDMA_BD_NUM_WORDS \<equiv> 16"
abbreviation (input) XAXIDMA_BD_HW_NUM_BYTES :: nat where "XAXIDMA_BD_HW_NUM_BYTES \<equiv> 52"
abbreviation (input) XAXIDMA_LAST_APPWORD :: int where "XAXIDMA_LAST_APPWORD \<equiv> 4"
abbreviation (input) XAXIDMA_BD_CTRL_TXSOF_MASK :: u32 where "XAXIDMA_BD_CTRL_TXSOF_MASK \<equiv> 0x08000000"
abbreviation (input) XAXIDMA_BD_CTRL_TXEOF_MASK :: u32 where "XAXIDMA_BD_CTRL_TXEOF_MASK \<equiv> 0x04000000"
abbreviation (input) XAXIDMA_BD_CTRL_ALL_MASK :: u32 where "XAXIDMA_BD_CTRL_ALL_MASK \<equiv> 0x0C000000"
abbreviation (input) XAXIDMA_BD_STS_COMPLETE_MASK :: u32 where "XAXIDMA_BD_STS_COMPLETE_MASK \<equiv> 0x80000000"
abbreviation (input) XAXIDMA_BD_STS_DEC_ERR_MASK :: u32 where "XAXIDMA_BD_STS_DEC_ERR_MASK \<equiv> 0x40000000"
abbreviation (input) XAXIDMA_BD_STS_SLV_ERR_MASK :: u32 where "XAXIDMA_BD_STS_SLV_ERR_MASK \<equiv> 0x20000000"
abbreviation (input) XAXIDMA_BD_STS_INT_ERR_MASK :: u32 where "XAXIDMA_BD_STS_INT_ERR_MASK \<equiv> 0x10000000"
abbreviation (input) XAXIDMA_BD_STS_ALL_ERR_MASK :: u32 where "XAXIDMA_BD_STS_ALL_ERR_MASK \<equiv> 0x70000000"
abbreviation (input) XAXIDMA_BD_STS_RXSOF_MASK :: u32 where "XAXIDMA_BD_STS_RXSOF_MASK \<equiv> 0x08000000"
abbreviation (input) XAXIDMA_BD_STS_RXEOF_MASK :: u32 where "XAXIDMA_BD_STS_RXEOF_MASK \<equiv> 0x04000000"
abbreviation (input) XAXIDMA_BD_STS_ALL_MASK :: u32 where "XAXIDMA_BD_STS_ALL_MASK \<equiv> 0xFC000000"
abbreviation (input) XAXIDMA_BD_TDEST_FIELD_MASK :: u32 where "XAXIDMA_BD_TDEST_FIELD_MASK \<equiv> 0x0000000F"
abbreviation (input) XAXIDMA_BD_TID_FIELD_MASK :: u32 where "XAXIDMA_BD_TID_FIELD_MASK \<equiv> 0x00000F00"
abbreviation (input) XAXIDMA_BD_TUSER_FIELD_MASK :: u32 where "XAXIDMA_BD_TUSER_FIELD_MASK \<equiv> 0x000F0000"
abbreviation (input) XAXIDMA_BD_ARCACHE_FIELD_MASK :: u32 where "XAXIDMA_BD_ARCACHE_FIELD_MASK \<equiv> 0x0F000000"
abbreviation (input) XAXIDMA_BD_ARUSER_FIELD_MASK :: u32 where "XAXIDMA_BD_ARUSER_FIELD_MASK \<equiv> 0xF0000000"
abbreviation (input) XAXIDMA_BD_TDEST_FIELD_SHIFT :: nat where "XAXIDMA_BD_TDEST_FIELD_SHIFT \<equiv> 0"
abbreviation (input) XAXIDMA_BD_TID_FIELD_SHIFT :: nat where "XAXIDMA_BD_TID_FIELD_SHIFT \<equiv> 8"
abbreviation (input) XAXIDMA_BD_TUSER_FIELD_SHIFT :: nat where "XAXIDMA_BD_TUSER_FIELD_SHIFT \<equiv> 16"
abbreviation (input) XAXIDMA_BD_ARCACHE_FIELD_SHIFT :: nat where "XAXIDMA_BD_ARCACHE_FIELD_SHIFT \<equiv> 24"
abbreviation (input) XAXIDMA_BD_ARUSER_FIELD_SHIFT :: nat where "XAXIDMA_BD_ARUSER_FIELD_SHIFT \<equiv> 28"
abbreviation (input) XAXIDMA_BD_STRIDE_FIELD_MASK :: u32 where "XAXIDMA_BD_STRIDE_FIELD_MASK \<equiv> 0x0000FFFF"
abbreviation (input) XAXIDMA_BD_VSIZE_FIELD_MASK :: u32 where "XAXIDMA_BD_VSIZE_FIELD_MASK \<equiv> 0xFFF80000"
abbreviation (input) XAXIDMA_BD_STRIDE_FIELD_SHIFT :: nat where "XAXIDMA_BD_STRIDE_FIELD_SHIFT \<equiv> 0"
abbreviation (input) XAXIDMA_BD_VSIZE_FIELD_SHIFT :: nat where "XAXIDMA_BD_VSIZE_FIELD_SHIFT \<equiv> 19"

section \<open>Status codes\<close>

abbreviation (input) XST_SUCCESS :: status where "XST_SUCCESS \<equiv> 0"
abbreviation (input) XST_FAILURE :: status where "XST_FAILURE \<equiv> 1"
abbreviation (input) XST_DEVICE_NOT_FOUND :: status where "XST_DEVICE_NOT_FOUND \<equiv> 2"
abbreviation (input) XST_DEVICE_IS_STARTED :: status where "XST_DEVICE_IS_STARTED \<equiv> 5"
abbreviation (input) XST_DMA_ERROR :: status where "XST_DMA_ERROR \<equiv> 9"
abbreviation (input) XST_INVALID_PARAM :: status where "XST_INVALID_PARAM \<equiv> 15"
abbreviation (input) XST_NOT_SGDMA :: status where "XST_NOT_SGDMA \<equiv> 16"
abbreviation (input) XST_NO_FEATURE :: status where "XST_NO_FEATURE \<equiv> 19"
abbreviation (input) XST_IS_STARTED :: status where "XST_IS_STARTED \<equiv> 23"
abbreviation (input) XST_DMA_SG_NO_LIST :: status where "XST_DMA_SG_NO_LIST \<equiv> 523"
abbreviation (input) XST_DMA_SG_LIST_ERROR :: status where "XST_DMA_SG_LIST_ERROR \<equiv> 526"

section \<open>Register accessors\<close>

definition XAxiDma_ReadReg :: "'d bus \<Rightarrow> u32 \<Rightarrow> u32 \<Rightarrow> 'd world \<Rightarrow> u32 \<times> 'd world" where
  "XAxiDma_ReadReg B BaseAddress RegOffset w = XIo_In32 B (BaseAddress + RegOffset) w"

definition XAxiDma_WriteReg :: "'d bus \<Rightarrow> u32 \<Rightarrow> u32 \<Rightarrow> u32 \<Rightarrow> 'd world \<Rightarrow> 'd world" where
  "XAxiDma_WriteReg B BaseAddress RegOffset Data w = XIo_Out32 B (BaseAddress + RegOffset) Data w"

lemma ram_reg [simp]:
  "ram (snd (XAxiDma_ReadReg B b r w)) = ram w"
  "ram (XAxiDma_WriteReg B b r v w) = ram w"
  by (simp_all add: XAxiDma_ReadReg_def XAxiDma_WriteReg_def)

end
