(* ===== verification/Bd.thy ===== *)
theory Bd
  imports Axidma_Hw
begin

unbundle bit_operations_syntax

text \<open>
  One buffer descriptor (BD): the accessors of \<^verbatim>\<open>linux-drv/xaxidma_bd.h\<close> and
  \<^verbatim>\<open>linux-drv/xaxidma_bd.c\<close>. A BD is 16 words of system memory; the accessors take the memory
  and the address of the BD. Cache maintenance is empty on this platform
  (\<^verbatim>\<open>xaxidma_bd.h\<close> defines it away), and the messages printed on errors are left out.
\<close>

section \<open>Word access\<close>

definition XAxiDma_BdRead :: "memory \<Rightarrow> ptr \<Rightarrow> u32 \<Rightarrow> u32" where
  "XAxiDma_BdRead m BaseAddress Offset = load32 m (BaseAddress + Offset)"

definition XAxiDma_BdWrite :: "memory \<Rightarrow> ptr \<Rightarrow> u32 \<Rightarrow> u32 \<Rightarrow> memory" where
  "XAxiDma_BdWrite m BaseAddress Offset Data = store32 m (BaseAddress + Offset) Data"

definition XAxiDma_BdClear :: "memory \<Rightarrow> ptr \<Rightarrow> memory" where
  "XAxiDma_BdClear m BdPtr =
    memset m (BdPtr + XAXIDMA_BD_START_CLEAR) 0 XAXIDMA_BD_BYTES_TO_CLEAR"

section \<open>Field access\<close>

definition XAxiDma_BdGetCtrl :: "memory \<Rightarrow> ptr \<Rightarrow> u32" where
  "XAxiDma_BdGetCtrl m BdPtr =
    XAxiDma_BdRead m BdPtr XAXIDMA_BD_CTRL_LEN_OFFSET AND XAXIDMA_BD_CTRL_ALL_MASK"

definition XAxiDma_BdGetSts :: "memory \<Rightarrow> ptr \<Rightarrow> u32" where
  "XAxiDma_BdGetSts m BdPtr =
    XAxiDma_BdRead m BdPtr XAXIDMA_BD_STS_OFFSET AND XAXIDMA_BD_STS_ALL_MASK"

definition XAxiDma_BdGetLength :: "memory \<Rightarrow> ptr \<Rightarrow> u32 \<Rightarrow> u32" where
  "XAxiDma_BdGetLength m BdPtr LengthMask =
    XAxiDma_BdRead m BdPtr XAXIDMA_BD_CTRL_LEN_OFFSET AND LengthMask"

definition XAxiDma_BdSetId :: "memory \<Rightarrow> ptr \<Rightarrow> u32 \<Rightarrow> memory" where
  "XAxiDma_BdSetId m BdPtr Id' = XAxiDma_BdWrite m BdPtr XAXIDMA_BD_ID_OFFSET Id'"

definition XAxiDma_BdGetId :: "memory \<Rightarrow> ptr \<Rightarrow> u32" where
  "XAxiDma_BdGetId m BdPtr = XAxiDma_BdRead m BdPtr XAXIDMA_BD_ID_OFFSET"

definition XAxiDma_BdGetBufAddr :: "memory \<Rightarrow> ptr \<Rightarrow> u32" where
  "XAxiDma_BdGetBufAddr m BdPtr = XAxiDma_BdRead m BdPtr XAXIDMA_BD_BUFA_OFFSET"

definition XAxiDma_BdHwCompleted :: "memory \<Rightarrow> ptr \<Rightarrow> u32" where
  "XAxiDma_BdHwCompleted m BdPtr =
    XAxiDma_BdRead m BdPtr XAXIDMA_BD_STS_OFFSET AND XAXIDMA_BD_STS_COMPLETE_MASK"

definition XAxiDma_BdGetActualLength :: "memory \<Rightarrow> ptr \<Rightarrow> u32 \<Rightarrow> u32" where
  "XAxiDma_BdGetActualLength m BdPtr LengthMask =
    XAxiDma_BdRead m BdPtr XAXIDMA_BD_STS_OFFSET AND LengthMask"

definition XAxiDma_BdSetTId :: "memory \<Rightarrow> ptr \<Rightarrow> u32 \<Rightarrow> memory" where
  "XAxiDma_BdSetTId m BdPtr TId = XAxiDma_BdWrite m BdPtr XAXIDMA_BD_MCCTL_OFFSET
    (XAxiDma_BdRead m BdPtr XAXIDMA_BD_MCCTL_OFFSET OR push_bit XAXIDMA_BD_TID_FIELD_SHIFT TId)"

definition XAxiDma_BdGetTId :: "memory \<Rightarrow> ptr \<Rightarrow> u32" where
  "XAxiDma_BdGetTId m BdPtr =
    XAxiDma_BdRead m BdPtr XAXIDMA_BD_STS_OFFSET AND XAXIDMA_BD_TID_FIELD_MASK"

definition XAxiDma_BdSetTDest :: "memory \<Rightarrow> ptr \<Rightarrow> u32 \<Rightarrow> memory" where
  "XAxiDma_BdSetTDest m BdPtr TDest = XAxiDma_BdWrite m BdPtr XAXIDMA_BD_MCCTL_OFFSET
    (XAxiDma_BdRead m BdPtr XAXIDMA_BD_MCCTL_OFFSET OR push_bit XAXIDMA_BD_TDEST_FIELD_SHIFT TDest)"

definition XAxiDma_BdGetTDest :: "memory \<Rightarrow> ptr \<Rightarrow> u32" where
  "XAxiDma_BdGetTDest m BdPtr =
    XAxiDma_BdRead m BdPtr XAXIDMA_BD_STS_OFFSET AND XAXIDMA_BD_TDEST_FIELD_MASK"

definition XAxiDma_BdSetTUser :: "memory \<Rightarrow> ptr \<Rightarrow> u32 \<Rightarrow> memory" where
  "XAxiDma_BdSetTUser m BdPtr TUser = XAxiDma_BdWrite m BdPtr XAXIDMA_BD_MCCTL_OFFSET
    (XAxiDma_BdRead m BdPtr XAXIDMA_BD_MCCTL_OFFSET OR push_bit XAXIDMA_BD_TUSER_FIELD_SHIFT TUser)"

definition XAxiDma_BdGetTUser :: "memory \<Rightarrow> ptr \<Rightarrow> u32" where
  "XAxiDma_BdGetTUser m BdPtr =
    XAxiDma_BdRead m BdPtr XAXIDMA_BD_STS_OFFSET AND XAXIDMA_BD_TUSER_FIELD_MASK"

definition XAxiDma_BdSetARCache :: "memory \<Rightarrow> ptr \<Rightarrow> u32 \<Rightarrow> memory" where
  "XAxiDma_BdSetARCache m BdPtr ARCache = XAxiDma_BdWrite m BdPtr XAXIDMA_BD_MCCTL_OFFSET
    (XAxiDma_BdRead m BdPtr XAXIDMA_BD_MCCTL_OFFSET
       OR push_bit XAXIDMA_BD_ARCACHE_FIELD_SHIFT ARCache)"

definition XAxiDma_BdGetARCache :: "memory \<Rightarrow> ptr \<Rightarrow> u32" where
  "XAxiDma_BdGetARCache m BdPtr =
    XAxiDma_BdRead m BdPtr XAXIDMA_BD_MCCTL_OFFSET AND XAXIDMA_BD_ARCACHE_FIELD_MASK"

definition XAxiDma_BdSetARUser :: "memory \<Rightarrow> ptr \<Rightarrow> u32 \<Rightarrow> memory" where
  "XAxiDma_BdSetARUser m BdPtr ARUser = XAxiDma_BdWrite m BdPtr XAXIDMA_BD_MCCTL_OFFSET
    (XAxiDma_BdRead m BdPtr XAXIDMA_BD_MCCTL_OFFSET
       OR push_bit XAXIDMA_BD_ARUSER_FIELD_SHIFT ARUser)"

definition XAxiDma_BdGetARUser :: "memory \<Rightarrow> ptr \<Rightarrow> u32" where
  "XAxiDma_BdGetARUser m BdPtr =
    XAxiDma_BdRead m BdPtr XAXIDMA_BD_MCCTL_OFFSET AND XAXIDMA_BD_ARUSER_FIELD_MASK"

definition XAxiDma_BdSetStride :: "memory \<Rightarrow> ptr \<Rightarrow> u32 \<Rightarrow> memory" where
  "XAxiDma_BdSetStride m BdPtr Stride = XAxiDma_BdWrite m BdPtr XAXIDMA_BD_STRIDE_VSIZE_OFFSET
    (XAxiDma_BdRead m BdPtr XAXIDMA_BD_STRIDE_VSIZE_OFFSET
       OR push_bit XAXIDMA_BD_STRIDE_FIELD_SHIFT Stride)"

definition XAxiDma_BdGetStride :: "memory \<Rightarrow> ptr \<Rightarrow> u32" where
  "XAxiDma_BdGetStride m BdPtr =
    XAxiDma_BdRead m BdPtr XAXIDMA_BD_STRIDE_VSIZE_OFFSET AND XAXIDMA_BD_STRIDE_FIELD_MASK"

definition XAxiDma_BdSetVSize :: "memory \<Rightarrow> ptr \<Rightarrow> u32 \<Rightarrow> memory" where
  "XAxiDma_BdSetVSize m BdPtr VSize = XAxiDma_BdWrite m BdPtr XAXIDMA_BD_STRIDE_VSIZE_OFFSET
    (XAxiDma_BdRead m BdPtr XAXIDMA_BD_STRIDE_VSIZE_OFFSET
       OR push_bit XAXIDMA_BD_VSIZE_FIELD_SHIFT VSize)"

definition XAxiDma_BdGetVSize :: "memory \<Rightarrow> ptr \<Rightarrow> u32" where
  "XAxiDma_BdGetVSize m BdPtr =
    XAxiDma_BdRead m BdPtr XAXIDMA_BD_STRIDE_VSIZE_OFFSET AND XAXIDMA_BD_VSIZE_FIELD_MASK"

section \<open>Functions of xaxidma\_bd.c\<close>

text \<open>\<^verbatim>\<open>LenBytes <= 0\<close> on an unsigned value is \<^verbatim>\<open>LenBytes == 0\<close>.\<close>

definition XAxiDma_BdSetLength :: "memory \<Rightarrow> ptr \<Rightarrow> u32 \<Rightarrow> u32 \<Rightarrow> status \<times> memory" where
  "XAxiDma_BdSetLength m BdPtr LenBytes LengthMask =
    (if LenBytes \<le> 0 \<or> LenBytes > LengthMask then (XST_INVALID_PARAM, m)
     else (XST_SUCCESS, XAxiDma_BdWrite m BdPtr XAXIDMA_BD_CTRL_LEN_OFFSET
       ((XAxiDma_BdRead m BdPtr XAXIDMA_BD_CTRL_LEN_OFFSET AND NOT LengthMask) OR LenBytes)))"

text \<open>\<^verbatim>\<open>WordLen\<close> is a \<^verbatim>\<open>u8\<close> that is promoted before the subtraction.\<close>

definition XAxiDma_BdSetBufAddr :: "memory \<Rightarrow> ptr \<Rightarrow> u32 \<Rightarrow> status \<times> memory" where
  "XAxiDma_BdSetBufAddr m BdPtr Addr =
    (let HasDRE' = XAxiDma_BdRead m BdPtr XAXIDMA_BD_HAS_DRE_OFFSET;
         WordLen = (ucast (HasDRE' AND XAXIDMA_BD_WORDLEN_MASK) :: u8)
     in if Addr AND (ucast WordLen - 1) \<noteq> 0 \<and> HasDRE' AND XAXIDMA_BD_HAS_DRE_MASK = 0
        then (XST_INVALID_PARAM, m)
        else (XST_SUCCESS, XAxiDma_BdWrite m BdPtr XAXIDMA_BD_BUFA_OFFSET Addr))"

definition XAxiDma_BdSetAppWord :: "memory \<Rightarrow> ptr \<Rightarrow> int \<Rightarrow> u32 \<Rightarrow> status \<times> memory" where
  "XAxiDma_BdSetAppWord m BdPtr Offset Word =
    (if XAxiDma_BdRead m BdPtr XAXIDMA_BD_HAS_STSCNTRL_OFFSET = 0 then (XST_INVALID_PARAM, m)
     else if Offset < 0 \<or> Offset > XAXIDMA_LAST_APPWORD then (XST_INVALID_PARAM, m)
     else (XST_SUCCESS,
       XAxiDma_BdWrite m BdPtr (XAXIDMA_BD_USR0_OFFSET + word_of_int (Offset * 4)) Word))"

text \<open>The second component is \<^verbatim>\<open>*Valid\<close>.\<close>

definition XAxiDma_BdGetAppWord :: "memory \<Rightarrow> ptr \<Rightarrow> int \<Rightarrow> u32 \<times> int" where
  "XAxiDma_BdGetAppWord m BdPtr Offset =
    (if XAxiDma_BdRead m BdPtr XAXIDMA_BD_HAS_STSCNTRL_OFFSET = 0 then (0, 0)
     else if Offset < 0 \<or> Offset > XAXIDMA_LAST_APPWORD then (0, 0)
     else (XAxiDma_BdRead m BdPtr (XAXIDMA_BD_USR0_OFFSET + word_of_int (Offset * 4)), 1))"

definition XAxiDma_BdSetCtrl :: "memory \<Rightarrow> ptr \<Rightarrow> u32 \<Rightarrow> memory" where
  "XAxiDma_BdSetCtrl m BdPtr Data =
    (let RegValue = XAxiDma_BdRead m BdPtr XAXIDMA_BD_CTRL_LEN_OFFSET;
         RegValue = RegValue AND NOT XAXIDMA_BD_CTRL_ALL_MASK;
         RegValue = RegValue OR (Data AND XAXIDMA_BD_CTRL_ALL_MASK)
     in XAxiDma_BdWrite m BdPtr XAXIDMA_BD_CTRL_LEN_OFFSET RegValue)"

section \<open>Reads after writes inside one descriptor\<close>

lemma separate4_offset [simp]: "separate4 (p + a) (p + b) = separate4 a b"
  by (simp add: separate4_def)

lemma BdRead_BdWrite_same [simp, mem_simps]:
  "XAxiDma_BdRead (XAxiDma_BdWrite m p off v) p off = v"
  by (simp add: XAxiDma_BdRead_def XAxiDma_BdWrite_def)

lemma BdRead_BdWrite_other [mem_simps]:
  "separate4 off off' \<Longrightarrow> XAxiDma_BdRead (XAxiDma_BdWrite m p off v) p off' = XAxiDma_BdRead m p off'"
  by (simp add: XAxiDma_BdRead_def XAxiDma_BdWrite_def)

lemma BdRead_BdWrite_far [mem_simps]:
  "separate4 (p + off) (q + off') \<Longrightarrow>
    XAxiDma_BdRead (XAxiDma_BdWrite m p off v) q off' = XAxiDma_BdRead m q off'"
  by (simp add: XAxiDma_BdRead_def XAxiDma_BdWrite_def)

lemma bit_low_mask:
  fixes v :: u32
  assumes "v \<le> mask k" and "k \<le> n"
  shows "\<not> bit v n"
proof
  assume "bit v n"
  have "uint v \<le> mask (min 32 k)"
    using assms(1) by (simp add: word_le_def uint_mask_eq)
  then have "uint v < 2 ^ k"
    using power_increasing [of "min 32 k" k "2 :: int"]
    unfolding mask_eq_exp_minus_1 by linarith
  then have "take_bit k (uint v) = uint v"
    by (simp add: take_bit_int_eq_self)
  with \<open>bit v n\<close> have "bit (take_bit k (uint v)) n"
    using bit_imp_le_length [OF \<open>bit v n\<close>] by (simp add: bit_uint_iff)
  with assms(2) show False
    by (simp add: bit_take_bit_iff)
qed

text \<open>Replacing the length field under a mask of at most 26 bits.\<close>

lemma length_field:
  fixes old v :: u32
  assumes "v \<le> mask k" and "k \<le> 26"
  shows "((old AND NOT (mask k)) OR v) AND mask k = v"
    and "((old AND NOT (mask k)) OR v) AND 0x0C000000 = old AND 0x0C000000"
proof -
  show "((old AND NOT (mask k)) OR v) AND mask k = v"
    using bit_low_mask [OF assms(1)] by (intro bit_word_eqI) (auto simp: bit_simps not_le [symmetric])
  have eq: "(0x0C000000 :: u32) = push_bit 26 3"
    by simp
  have "26 \<le> n" if "bit (0x0C000000 :: u32) n" for n
    using that unfolding eq by (simp only: bit_push_bit_iff)
  then have hi: "\<not> n < k \<and> \<not> bit v n" if "bit (0x0C000000 :: u32) n" for n
    using that assms(2) bit_low_mask [OF assms(1), of n] by fastforce
  show "((old AND NOT (mask k)) OR v) AND 0x0C000000 = old AND 0x0C000000"
  proof (rule bit_word_eqI)
    fix n
    assume "n < LENGTH(32)"
    then show "bit (((old AND NOT (mask k)) OR v) AND 0x0C000000) n = bit (old AND 0x0C000000) n"
      using hi [of n] by (auto simp add: bit_and_iff bit_or_iff bit_not_iff bit_mask_iff)
  qed
qed

end
