(* ===== verification/Bdring.thy ===== *)
theory Bdring
  imports Bd
begin

unbundle bit_operations_syntax

text \<open>
  The descriptor ring, \<^verbatim>\<open>linux-drv/xaxidma_bdring.h\<close> and \<^verbatim>\<open>linux-drv/xaxidma_bdring.c\<close>: the
  operations that move descriptors between the free, pre-work, work and post-work groups.
  The operations that start the channel are in \<open>Bdring_Hw\<close>.
\<close>

section \<open>State\<close>

abbreviation (input) AXIDMA_CHANNEL_NOT_HALTED :: int where "AXIDMA_CHANNEL_NOT_HALTED \<equiv> 1"
abbreviation (input) AXIDMA_CHANNEL_HALTED :: int where "AXIDMA_CHANNEL_HALTED \<equiv> 2"
abbreviation (input) XAXIDMA_NO_CHANGE :: u32 where "XAXIDMA_NO_CHANGE \<equiv> 0xFFFFFFFF"
abbreviation (input) XAXIDMA_ALL_BDS :: int where "XAXIDMA_ALL_BDS \<equiv> 0x0FFFFFFF"

record XAxiDma_BdRing =
  ChanBase :: u32
  IsRxChannel :: int
  RunState :: int
  HasStsCntrlStrm :: int
  HasDRE :: int
  DataWidth :: int
  MaxTransferLen :: u32
  FirstBdPhysAddr :: u32
  FirstBdAddr :: u32
  LastBdAddr :: u32
  Length :: u32
  Separation :: u32
  FreeHead :: ptr
  PreHead :: ptr
  HwHead :: ptr
  HwTail :: ptr
  PostHead :: ptr
  BdaRestart :: ptr
  FreeCnt :: int
  PreCnt :: int
  HwCnt :: int
  PostCnt :: int
  AllCnt :: int

section \<open>Size and pointer arithmetic\<close>

abbreviation (input) sizeof_Bd :: u32 where "sizeof_Bd \<equiv> 64"

definition XAxiDma_mBdRingCntCalc :: "u32 \<Rightarrow> u32 \<Rightarrow> int" where
  "XAxiDma_mBdRingCntCalc Alignment Bytes =
    sint (Bytes div ((sizeof_Bd + (Alignment - 1)) AND NOT (Alignment - 1)))"

definition XAxiDma_mBdRingMemCalc :: "u32 \<Rightarrow> int \<Rightarrow> int" where
  "XAxiDma_mBdRingMemCalc Alignment NumBd =
    sint ((sizeof_Bd + (Alignment - 1)) AND NOT (Alignment - 1)) * NumBd"

definition XAxiDma_mBdRingGetCnt :: "XAxiDma_BdRing \<Rightarrow> int" where
  "XAxiDma_mBdRingGetCnt r = AllCnt r"

definition XAxiDma_mBdRingGetFreeCnt :: "XAxiDma_BdRing \<Rightarrow> int" where
  "XAxiDma_mBdRingGetFreeCnt r = FreeCnt r"

definition XAxiDma_mBdRingNext :: "XAxiDma_BdRing \<Rightarrow> ptr \<Rightarrow> ptr" where
  "XAxiDma_mBdRingNext r BdPtr =
    (if BdPtr \<ge> LastBdAddr r then FirstBdAddr r else BdPtr + Separation r)"

definition XAxiDma_mBdRingPrev :: "XAxiDma_BdRing \<Rightarrow> ptr \<Rightarrow> ptr" where
  "XAxiDma_mBdRingPrev r BdPtr =
    (if BdPtr \<le> FirstBdAddr r then LastBdAddr r else BdPtr - Separation r)"

definition XAXIDMA_VIRT_TO_PHYS :: "XAxiDma_BdRing \<Rightarrow> ptr \<Rightarrow> u32" where
  "XAXIDMA_VIRT_TO_PHYS r BdPtr = BdPtr + (FirstBdPhysAddr r - FirstBdAddr r)"

definition XAXIDMA_PHYS_TO_VIRT :: "XAxiDma_BdRing \<Rightarrow> u32 \<Rightarrow> ptr" where
  "XAXIDMA_PHYS_TO_VIRT r BdPtr = BdPtr + FirstBdAddr r - FirstBdPhysAddr r"

definition XAXIDMA_RING_SEEKAHEAD :: "XAxiDma_BdRing \<Rightarrow> ptr \<Rightarrow> int \<Rightarrow> ptr" where
  "XAXIDMA_RING_SEEKAHEAD r BdPtr NumBd =
    (let Addr = BdPtr + Separation r * word_of_int NumBd
     in if Addr > LastBdAddr r \<or> BdPtr > Addr then Addr - Length r else Addr)"

definition XAXIDMA_RING_SEEKBACK :: "XAxiDma_BdRing \<Rightarrow> ptr \<Rightarrow> int \<Rightarrow> ptr" where
  "XAXIDMA_RING_SEEKBACK r BdPtr NumBd =
    (let Addr = BdPtr - Separation r * word_of_int NumBd
     in if Addr < FirstBdAddr r \<or> BdPtr < Addr then Addr + Length r else Addr)"

section \<open>Creating a ring\<close>

text \<open>The hardware information word put into each descriptor.\<close>

definition BdRing_dre_word :: "XAxiDma_BdRing \<Rightarrow> u32" where
  "BdRing_dre_word r =
    push_bit XAXIDMA_BD_HAS_DRE_SHIFT (word_of_int (HasDRE r)) OR word_of_int (DataWidth r)"

text \<open>One pass of the loop body: next pointer, status/control flag, DRE word.\<close>

definition BdRingCreate_link :: "XAxiDma_BdRing \<Rightarrow> memory \<Rightarrow> ptr \<Rightarrow> u32 \<Rightarrow> memory" where
  "BdRingCreate_link r m BdVirtAddr BdPhysAddr =
    (let m = XAxiDma_BdWrite m BdVirtAddr XAXIDMA_BD_NDESC_OFFSET BdPhysAddr;
         m = XAxiDma_BdWrite m BdVirtAddr XAXIDMA_BD_HAS_STSCNTRL_OFFSET
               (word_of_int (HasStsCntrlStrm r))
     in XAxiDma_BdWrite m BdVirtAddr XAXIDMA_BD_HAS_DRE_OFFSET (BdRing_dre_word r))"

text \<open>\<^verbatim>\<open>for (i = 1; i < BdCount; i++)\<close>; the first argument counts the passes left.\<close>

fun BdRingCreate_loop ::
  "nat \<Rightarrow> XAxiDma_BdRing \<Rightarrow> memory \<Rightarrow> ptr \<Rightarrow> u32 \<Rightarrow> memory \<times> ptr" where
  "BdRingCreate_loop 0 r m BdVirtAddr BdPhysAddr = (m, BdVirtAddr)"
| "BdRingCreate_loop (Suc k) r m BdVirtAddr BdPhysAddr =
    BdRingCreate_loop k r (BdRingCreate_link r m BdVirtAddr BdPhysAddr)
      (BdVirtAddr + Separation r) (BdPhysAddr + Separation r)"

definition XAxiDma_BdRingCreate ::
  "XAxiDma_BdRing \<Rightarrow> u32 \<Rightarrow> u32 \<Rightarrow> u32 \<Rightarrow> int \<Rightarrow> memory \<Rightarrow> status \<times> XAxiDma_BdRing \<times> memory" where
  "XAxiDma_BdRingCreate r PhysAddr VirtAddr Alignment BdCount m =
    (if BdCount \<le> 0 then (XST_INVALID_PARAM, r, m)
     else let r = r\<lparr>AllCnt := 0, FreeCnt := 0, HwCnt := 0, PreCnt := 0, PostCnt := 0\<rparr> in
     if Alignment < XAXIDMA_BD_MINIMUM_ALIGNMENT then (XST_INVALID_PARAM, r, m)
     else if (Alignment - 1) AND Alignment \<noteq> 0 then (XST_INVALID_PARAM, r, m)
     else if PhysAddr mod Alignment \<noteq> 0 \<or> VirtAddr mod Alignment \<noteq> 0 then (XST_INVALID_PARAM, r, m)
     else let r = r\<lparr>Separation := (sizeof_Bd + (Alignment - 1)) AND NOT (Alignment - 1)\<rparr> in
     if VirtAddr > VirtAddr + Separation r * word_of_int BdCount - 1
     then (XST_DMA_SG_LIST_ERROR, r, m)
     else let
       m = memset m VirtAddr 0 (unat (Separation r * word_of_int BdCount));
       (m, BdVirtAddr) =
         BdRingCreate_loop (nat (BdCount - 1)) r m VirtAddr (PhysAddr + Separation r);
       m = BdRingCreate_link r m BdVirtAddr PhysAddr
     in (XST_SUCCESS,
         r\<lparr>RunState := AXIDMA_CHANNEL_HALTED,
           FirstBdAddr := VirtAddr,
           FirstBdPhysAddr := PhysAddr,
           LastBdAddr := BdVirtAddr,
           Length := BdVirtAddr - VirtAddr + Separation r,
           AllCnt := BdCount,
           FreeCnt := BdCount,
           FreeHead := VirtAddr,
           PreHead := VirtAddr,
           HwHead := VirtAddr,
           HwTail := VirtAddr,
           PostHead := VirtAddr,
           BdaRestart := PhysAddr\<rparr>, m))"

section \<open>Cloning a template into every descriptor\<close>

fun BdRingClone_loop :: "nat \<Rightarrow> XAxiDma_BdRing \<Rightarrow> (ptr \<Rightarrow> u8) \<Rightarrow> memory \<Rightarrow> ptr \<Rightarrow> memory" where
  "BdRingClone_loop 0 r TmpBd m CurBd = m"
| "BdRingClone_loop (Suc k) r TmpBd m CurBd =
    BdRingClone_loop k r TmpBd
      (memcpy_from m (CurBd + XAXIDMA_BD_START_CLEAR)
        (\<lambda>a. TmpBd (XAXIDMA_BD_START_CLEAR + a)) XAXIDMA_BD_BYTES_TO_CLEAR)
      (CurBd + Separation r)"

text \<open>
  The template is a local descriptor of the caller (\<^verbatim>\<open>&BdTemplate\<close>), a byte array of its own
  with base 0; \<^verbatim>\<open>TmpBd\<close> starts as its copy.
\<close>

definition XAxiDma_BdRingClone ::
  "XAxiDma_BdRing \<Rightarrow> (ptr \<Rightarrow> u8) \<Rightarrow> memory \<Rightarrow> status \<times> memory" where
  "XAxiDma_BdRingClone r SrcBd m =
    (if AllCnt r = 0 then (XST_DMA_SG_NO_LIST, m)
     else if RunState r = AXIDMA_CHANNEL_NOT_HALTED then (XST_DEVICE_IS_STARTED, m)
     else if FreeCnt r \<noteq> AllCnt r then (XST_DMA_SG_LIST_ERROR, m)
     else let
       TmpBd = SrcBd;
       Save = XAxiDma_BdRead TmpBd 0 XAXIDMA_BD_STS_OFFSET;
       Save = Save AND NOT XAXIDMA_BD_STS_COMPLETE_MASK;
       TmpBd = XAxiDma_BdWrite TmpBd 0 XAXIDMA_BD_STS_OFFSET Save
     in (XST_SUCCESS, BdRingClone_loop (nat (AllCnt r)) r TmpBd m (FirstBdAddr r)))"

section \<open>Moving descriptors between the groups\<close>

text \<open>The last component is \<^verbatim>\<open>*BdSetPtr\<close>, \<open>None\<close> where the function does not assign it.\<close>

definition XAxiDma_BdRingAlloc ::
  "XAxiDma_BdRing \<Rightarrow> int \<Rightarrow> status \<times> XAxiDma_BdRing \<times> ptr option" where
  "XAxiDma_BdRingAlloc r NumBd =
    (if NumBd \<le> 0 then (XST_INVALID_PARAM, r, None)
     else if FreeCnt r < NumBd then (XST_FAILURE, r, None)
     else (XST_SUCCESS,
       r\<lparr>FreeHead := XAXIDMA_RING_SEEKAHEAD r (FreeHead r) NumBd,
         FreeCnt := FreeCnt r - NumBd,
         PreCnt := PreCnt r + NumBd\<rparr>, Some (FreeHead r)))"

definition XAxiDma_BdRingUnAlloc ::
  "XAxiDma_BdRing \<Rightarrow> int \<Rightarrow> ptr \<Rightarrow> status \<times> XAxiDma_BdRing" where
  "XAxiDma_BdRingUnAlloc r NumBd BdSetPtr =
    (if NumBd \<le> 0 then (XST_INVALID_PARAM, r)
     else if PreCnt r < NumBd then (XST_FAILURE, r)
     else let TmpBd = XAXIDMA_RING_SEEKAHEAD r BdSetPtr NumBd in
     if TmpBd \<noteq> FreeHead r then (XST_FAILURE, r)
     else (XST_SUCCESS,
       r\<lparr>FreeHead := XAXIDMA_RING_SEEKBACK r (FreeHead r) NumBd,
         FreeCnt := FreeCnt r + NumBd,
         PreCnt := PreCnt r - NumBd\<rparr>))"

text \<open>
  The loop of \<^verbatim>\<open>XAxiDma_BdRingToHw\<close> over all but the last descriptor. \<open>None\<close> is the early
  \<^verbatim>\<open>return XST_FAILURE\<close> on a zero length; the memory keeps what was written before it.
\<close>

fun BdRingToHw_loop ::
  "nat \<Rightarrow> XAxiDma_BdRing \<Rightarrow> ptr \<Rightarrow> u32 \<Rightarrow> u32 \<Rightarrow> memory \<Rightarrow> (ptr \<times> u32 \<times> u32) option \<times> memory" where
  "BdRingToHw_loop 0 r CurBdPtr BdCr BdSts m = (Some (CurBdPtr, BdCr, BdSts), m)"
| "BdRingToHw_loop (Suc k) r CurBdPtr BdCr BdSts m =
    (if XAxiDma_BdGetLength m CurBdPtr (MaxTransferLen r) = 0 then (None, m)
     else let
       BdSts = BdSts AND NOT XAXIDMA_BD_STS_COMPLETE_MASK;
       m = XAxiDma_BdWrite m CurBdPtr XAXIDMA_BD_STS_OFFSET BdSts;
       CurBdPtr = XAxiDma_mBdRingNext r CurBdPtr;
       BdCr = XAxiDma_BdRead m CurBdPtr XAXIDMA_BD_CTRL_LEN_OFFSET;
       BdSts = XAxiDma_BdRead m CurBdPtr XAXIDMA_BD_STS_OFFSET
     in BdRingToHw_loop k r CurBdPtr BdCr BdSts m)"

text \<open>The offset of the tail pointer register of a channel.\<close>

definition BdRing_tdesc_offset :: "XAxiDma_BdRing \<Rightarrow> int \<Rightarrow> u32" where
  "BdRing_tdesc_offset r RingIndex =
    (if IsRxChannel r \<noteq> 0
     then if RingIndex = 0 then XAXIDMA_TDESC_OFFSET
          else XAXIDMA_RX_TDESC0_OFFSET + word_of_int (RingIndex - 1) * XAXIDMA_RX_NDESC_OFFSET
     else XAXIDMA_TDESC_OFFSET)"

definition XAxiDma_BdRingToHw ::
  "'d bus \<Rightarrow> XAxiDma_BdRing \<Rightarrow> int \<Rightarrow> ptr \<Rightarrow> int \<Rightarrow> 'd world
    \<Rightarrow> status \<times> XAxiDma_BdRing \<times> 'd world" where
  "XAxiDma_BdRingToHw B r NumBd BdSetPtr RingIndex w =
    (if NumBd < 0 then (XST_INVALID_PARAM, r, w)
     else if NumBd = 0 then (XST_SUCCESS, r, w)
     else if PreCnt r < NumBd \<or> PreHead r \<noteq> BdSetPtr then (XST_DMA_SG_LIST_ERROR, r, w)
     else let
       CurBdPtr = BdSetPtr;
       BdCr = XAxiDma_BdGetCtrl (ram w) CurBdPtr;
       BdSts = XAxiDma_BdGetSts (ram w) CurBdPtr
     in if IsRxChannel r = 0 \<and> BdCr AND XAXIDMA_BD_CTRL_TXSOF_MASK = 0 then (XST_FAILURE, r, w)
     else case BdRingToHw_loop (nat (NumBd - 1)) r CurBdPtr BdCr BdSts (ram w) of
       (None, m) \<Rightarrow> (XST_FAILURE, r, w\<lparr>ram := m\<rparr>)
     | (Some (CurBdPtr, BdCr, BdSts), m) \<Rightarrow>
       if IsRxChannel r = 0 \<and> BdCr AND XAXIDMA_BD_CTRL_TXEOF_MASK = 0
       then (XST_FAILURE, r, w\<lparr>ram := m\<rparr>)
       else if XAxiDma_BdGetLength m CurBdPtr (MaxTransferLen r) = 0
       then (XST_FAILURE, r, w\<lparr>ram := m\<rparr>)
       else let
         BdSts = BdSts AND NOT XAXIDMA_BD_STS_COMPLETE_MASK;
         m = XAxiDma_BdWrite m CurBdPtr XAXIDMA_BD_STS_OFFSET BdSts;
         w = w\<lparr>ram := m\<rparr>;
         r = r\<lparr>PreHead := XAXIDMA_RING_SEEKAHEAD r (PreHead r) NumBd,
               PreCnt := PreCnt r - NumBd,
               HwTail := CurBdPtr,
               HwCnt := HwCnt r + NumBd\<rparr>
       in if RunState r = AXIDMA_CHANNEL_NOT_HALTED
          then (XST_SUCCESS, r,
            XAxiDma_WriteReg B (ChanBase r) (BdRing_tdesc_offset r RingIndex)
              (XAXIDMA_VIRT_TO_PHYS r (HwTail r)) w)
          else (XST_SUCCESS, r, w))"

text \<open>
  The search loop of \<^verbatim>\<open>XAxiDma_BdRingFromHw\<close>. For a transmit channel the end-of-frame flag is
  in the control word, for a receive channel in the status word.
\<close>

definition BdRing_is_eof :: "XAxiDma_BdRing \<Rightarrow> u32 \<Rightarrow> u32 \<Rightarrow> bool" where
  "BdRing_is_eof r BdCr BdSts \<longleftrightarrow>
    IsRxChannel r = 0 \<and> BdCr AND XAXIDMA_BD_CTRL_TXEOF_MASK \<noteq> 0 \<or>
    IsRxChannel r \<noteq> 0 \<and> BdSts AND XAXIDMA_BD_STS_RXEOF_MASK \<noteq> 0"

function BdRingFromHw_loop ::
  "XAxiDma_BdRing \<Rightarrow> memory \<Rightarrow> int \<Rightarrow> ptr \<Rightarrow> int \<Rightarrow> int \<Rightarrow> int \<times> int" where
  "BdRingFromHw_loop r m BdLimit CurBdPtr BdCount BdPartialCount =
    (if BdCount < BdLimit then
       let BdSts = XAxiDma_BdRead m CurBdPtr XAXIDMA_BD_STS_OFFSET;
           BdCr = XAxiDma_BdRead m CurBdPtr XAXIDMA_BD_CTRL_LEN_OFFSET
       in if BdSts AND XAXIDMA_BD_STS_COMPLETE_MASK = 0 then (BdCount, BdPartialCount)
       else let
         BdCount = BdCount + 1;
         BdPartialCount = (if BdRing_is_eof r BdCr BdSts then 0 else BdPartialCount + 1)
       in if CurBdPtr = HwTail r then (BdCount, BdPartialCount)
          else BdRingFromHw_loop r m BdLimit (XAxiDma_mBdRingNext r CurBdPtr) BdCount BdPartialCount
     else (BdCount, BdPartialCount))"
  by pat_completeness auto
termination
  by (relation "measure (\<lambda>(r, m, BdLimit, CurBdPtr, BdCount, BdPartialCount). nat (BdLimit - BdCount))")
    auto

declare BdRingFromHw_loop.simps [simp del]

text \<open>The result is the return value, the ring and \<^verbatim>\<open>*BdSetPtr\<close>.\<close>

definition XAxiDma_BdRingFromHw ::
  "XAxiDma_BdRing \<Rightarrow> int \<Rightarrow> memory \<Rightarrow> int \<times> XAxiDma_BdRing \<times> ptr" where
  "XAxiDma_BdRingFromHw r BdLimit m =
    (if HwCnt r = 0 then (0, r, NULL)
     else let
       BdLimit = (if BdLimit > HwCnt r then HwCnt r else BdLimit);
       (BdCount, BdPartialCount) = BdRingFromHw_loop r m BdLimit (HwHead r) 0 0;
       BdCount = BdCount - BdPartialCount
     in if BdCount \<noteq> 0 then
          (BdCount,
           r\<lparr>HwCnt := HwCnt r - BdCount,
             PostCnt := PostCnt r + BdCount,
             HwHead := XAXIDMA_RING_SEEKAHEAD r (HwHead r) BdCount\<rparr>, HwHead r)
        else (0, r, NULL))"

definition XAxiDma_BdRingFree ::
  "XAxiDma_BdRing \<Rightarrow> int \<Rightarrow> ptr \<Rightarrow> status \<times> XAxiDma_BdRing" where
  "XAxiDma_BdRingFree r NumBd BdSetPtr =
    (if NumBd < 0 then (XST_INVALID_PARAM, r)
     else if NumBd = 0 then (XST_SUCCESS, r)
     else if PostCnt r < NumBd \<or> PostHead r \<noteq> BdSetPtr then (XST_DMA_SG_LIST_ERROR, r)
     else (XST_SUCCESS,
       r\<lparr>FreeCnt := FreeCnt r + NumBd,
         PostCnt := PostCnt r - NumBd,
         PostHead := XAXIDMA_RING_SEEKAHEAD r (PostHead r) NumBd\<rparr>))"

section \<open>The consistency check\<close>

text \<open>\<open>None\<close> is a wrong next pointer, otherwise the address of the last descriptor.\<close>

fun BdRingCheck_loop :: "nat \<Rightarrow> XAxiDma_BdRing \<Rightarrow> memory \<Rightarrow> ptr \<Rightarrow> u32 \<Rightarrow> ptr option" where
  "BdRingCheck_loop 0 r m AddrV AddrP = Some AddrV"
| "BdRingCheck_loop (Suc k) r m AddrV AddrP =
    (if XAxiDma_BdRead m AddrV XAXIDMA_BD_NDESC_OFFSET \<noteq> AddrP then None
     else BdRingCheck_loop k r m (AddrV + Separation r) (AddrP + Separation r))"

definition BdRing_out_of_range :: "XAxiDma_BdRing \<Rightarrow> ptr \<Rightarrow> bool" where
  "BdRing_out_of_range r AddrV \<longleftrightarrow> AddrV < FirstBdAddr r \<or> AddrV > LastBdAddr r"

definition XAxiDma_BdRingCheck :: "XAxiDma_BdRing \<Rightarrow> memory \<Rightarrow> status" where
  "XAxiDma_BdRingCheck r m =
    (if AllCnt r = 0 then XST_DMA_SG_NO_LIST
     else if RunState r = AXIDMA_CHANNEL_NOT_HALTED then XST_IS_STARTED
     else if RunState r \<noteq> AXIDMA_CHANNEL_HALTED then XST_DMA_SG_LIST_ERROR
     else if BdRing_out_of_range r (FreeHead r) then XST_DMA_SG_LIST_ERROR
     else if BdRing_out_of_range r (PreHead r) then XST_DMA_SG_LIST_ERROR
     else if BdRing_out_of_range r (HwHead r) then XST_DMA_SG_LIST_ERROR
     else if BdRing_out_of_range r (HwTail r) then XST_DMA_SG_LIST_ERROR
     else if BdRing_out_of_range r (PostHead r) then XST_DMA_SG_LIST_ERROR
     else if HwCnt r + PreCnt r + FreeCnt r + PostCnt r \<noteq> AllCnt r then XST_DMA_SG_LIST_ERROR
     else case BdRingCheck_loop (nat (AllCnt r - 1)) r m (FirstBdAddr r)
                 (FirstBdPhysAddr r + Separation r) of
       None \<Rightarrow> XST_DMA_SG_LIST_ERROR
     | Some AddrV \<Rightarrow>
         if XAxiDma_BdRead m AddrV XAXIDMA_BD_NDESC_OFFSET \<noteq> FirstBdPhysAddr r
         then XST_DMA_SG_LIST_ERROR
         else XST_SUCCESS)"

text \<open>For the loops that take descriptors back until there are none.\<close>

lemma fromhw_hwcnt:
  "XAxiDma_BdRingFromHw r L m = (n, r', b) \<Longrightarrow> 0 < n \<Longrightarrow> 0 < HwCnt r \<and> HwCnt r' = HwCnt r - n"
  by (subst (asm) XAxiDma_BdRingFromHw_def)
    (auto simp: Let_def BdRingFromHw_loop.simps [of r m _ _ 0 0] split: if_splits prod.splits)

lemma free_hwcnt: "HwCnt (snd (XAxiDma_BdRingFree r n b)) = HwCnt r"
  by (simp add: XAxiDma_BdRingFree_def)

end
