(* ===== verification/Ring_Geometry.thy ===== *)
theory Ring_Geometry
  imports Bdring
begin

unbundle bit_operations_syntax

text \<open>
  The address arithmetic of a ring. \<open>ring_geom\<close> says that the ring's address fields describe
  \<open>AllCnt\<close> descriptors of \<open>Separation\<close> bytes that do not run over the end of the address
  space; \<open>ring_at r i\<close> is the \<open>i\<close>-th descriptor. Under \<open>ring_geom\<close> the seek macros, which work
  modulo \<open>2^32\<close>, are index arithmetic modulo \<open>AllCnt\<close>. The locale \<open>cyclic_pointers\<close> is the
  interface through which the ring operations use these facts.
\<close>

section \<open>Well-formed addresses\<close>

definition ring_size :: "XAxiDma_BdRing \<Rightarrow> nat" where
  "ring_size r = nat (AllCnt r)"

definition ring_geom :: "XAxiDma_BdRing \<Rightarrow> bool" where
  "ring_geom r \<longleftrightarrow> 0 < AllCnt r \<and> 64 \<le> Separation r
    \<and> unat (Separation r) * ring_size r < 4294967296
    \<and> unat (FirstBdAddr r) + unat (Separation r) * ring_size r \<le> 4294967296
    \<and> LastBdAddr r = FirstBdAddr r + Separation r * of_nat (ring_size r - 1)
    \<and> Length r = Separation r * of_nat (ring_size r)"

definition ring_at :: "XAxiDma_BdRing \<Rightarrow> nat \<Rightarrow> ptr" where
  "ring_at r i = FirstBdAddr r + Separation r * of_nat i"

definition ring_idx :: "XAxiDma_BdRing \<Rightarrow> ptr \<Rightarrow> nat" where
  "ring_idx r p = unat (p - FirstBdAddr r) div unat (Separation r)"

section \<open>Addresses of descriptors\<close>

lemma ring_geomD:
  assumes "ring_geom r"
  shows "0 < ring_size r" and "64 \<le> unat (Separation r)"
    and "unat (Separation r) * ring_size r < 4294967296"
    and "unat (FirstBdAddr r) + unat (Separation r) * ring_size r \<le> 4294967296"
    and "LastBdAddr r = ring_at r (ring_size r - 1)"
    and "Length r = Separation r * of_nat (ring_size r)"
    and "int (ring_size r) = AllCnt r"
  using assms by (simp_all add: ring_geom_def ring_size_def ring_at_def word_le_nat_alt)

lemma mult_below:
  "(s :: nat) * n \<le> b \<Longrightarrow> i < n \<Longrightarrow> s * i + s \<le> b"
  by (metis Suc_leI add.commute le_trans mult_Suc_right mult_le_mono2)

lemma unat_step:
  assumes "ring_geom r" and "i \<le> ring_size r"
  shows "unat (Separation r * of_nat i) = unat (Separation r) * i"
proof -
  have small: "unat (Separation r) * i < 4294967296"
    using ring_geomD(3) [OF assms(1)] assms(2) by (meson le_less_trans mult_le_mono2)
  moreover have "1 * i \<le> unat (Separation r) * i"
    using ring_geomD(2) [OF assms(1)] by (intro mult_le_mono1) linarith
  then have "i < 4294967296"
    using small by linarith
  ultimately show ?thesis
    by (simp add: unat_mult_nowrap unat_of_nat_u32)
qed

lemma unat_ring_at:
  assumes "ring_geom r" and "i < ring_size r"
  shows "unat (ring_at r i) = unat (FirstBdAddr r) + unat (Separation r) * i"
proof -
  have "unat (Separation r) * i + unat (Separation r) \<le> 4294967296 - unat (FirstBdAddr r)"
    using ring_geomD(4) [OF assms(1)] assms(2) by (intro mult_below) auto
  then have "unat (FirstBdAddr r) + unat (Separation r * of_nat i) < 4294967296"
    using ring_geomD(2,4) [OF assms(1)] unat_step [OF assms(1), of i] assms(2) by simp
  then show ?thesis
    using unat_step [OF assms(1), of i] assms(2) by (simp add: ring_at_def unat_add_nowrap)
qed

lemma ring_idx_at [simp]:
  assumes "ring_geom r" and "i < ring_size r"
  shows "ring_idx r (ring_at r i) = i"
  using unat_step [OF assms(1), of i] ring_geomD(2) [OF assms(1)] assms(2)
  by (simp add: ring_idx_def ring_at_def)

lemma ring_at_inj:
  "ring_geom r \<Longrightarrow> i < ring_size r \<Longrightarrow> j < ring_size r \<Longrightarrow> ring_at r i = ring_at r j \<longleftrightarrow> i = j"
  by (metis ring_idx_at)

lemma ring_at_le:
  "ring_geom r \<Longrightarrow> i < ring_size r \<Longrightarrow> j < ring_size r \<Longrightarrow> ring_at r i \<le> ring_at r j \<longleftrightarrow> i \<le> j"
  using ring_geomD(2) [of r] by (auto simp: word_le_nat_alt unat_ring_at)

lemma ring_at_less:
  "ring_geom r \<Longrightarrow> i < ring_size r \<Longrightarrow> j < ring_size r \<Longrightarrow> ring_at r i < ring_at r j \<longleftrightarrow> i < j"
  using ring_geomD(2) [of r] by (auto simp: word_less_nat_alt unat_ring_at)

lemma ring_at_0: "ring_at r 0 = FirstBdAddr r"
  by (simp add: ring_at_def)

lemma ring_at_Suc: "ring_at r (Suc i) = ring_at r i + Separation r"
  by (simp add: ring_at_def algebra_simps)

section \<open>The seek macros\<close>

lemma ring_at_shift: "ring_at r i + Separation r * of_nat k = ring_at r (i + k)"
  by (simp add: ring_at_def algebra_simps)

lemma ring_at_wrap:
  "ring_geom r \<Longrightarrow> ring_at r (ring_size r + j) - Length r = ring_at r j"
  by (simp add: ring_geomD(6)) (simp add: ring_at_def algebra_simps)

text \<open>Stepping past the end either goes above the last descriptor or wraps below the start.\<close>

lemma seek_overflow:
  assumes g: "ring_geom r" and i: "i < ring_size r" and k: "k \<le> ring_size r"
    and over: "ring_size r \<le> i + k"
  shows "LastBdAddr r < ring_at r (i + k) \<or> ring_at r (i + k) < ring_at r i"
proof -
  let ?s = "unat (Separation r)" and ?a = "ring_at r i" and ?d = "Separation r * of_nat k"
  have d: "unat ?d = ?s * k" and a: "unat ?a = unat (FirstBdAddr r) + ?s * i"
    using g i k by (simp_all add: unat_step unat_ring_at)
  have last: "unat (LastBdAddr r) + ?s = unat (FirstBdAddr r) + ?s * ring_size r"
  proof -
    have "?s * (ring_size r - 1) + ?s = ?s * ring_size r"
      using ring_geomD(1) [OF g] by (metis One_nat_def Suc_pred add.commute mult_Suc_right)
    then show ?thesis
      using g ring_geomD(1,5) [OF g] by (simp add: unat_ring_at)
  qed
  show ?thesis
  proof (cases "unat ?a + unat ?d < 4294967296")
    case True
    have "?s * ring_size r \<le> ?s * i + ?s * k"
      using over by (simp add: add_mult_distrib2 [symmetric])
    then have "unat (LastBdAddr r) < unat (?a + ?d)"
      using True a d last ring_geomD(2) [OF g] by (simp add: unat_add_nowrap)
    then show ?thesis
      by (simp add: ring_at_shift word_less_nat_alt)
  next
    case False
    then have "unat (?a + ?d) < unat ?a"
      using unat_add_wrap [of ?a ?d] unat_u32_bound [of ?d] by linarith
    then show ?thesis
      by (simp add: ring_at_shift word_less_nat_alt)
  qed
qed

lemma seekahead_at [seek_simps]:
  assumes g: "ring_geom r" and i: "i < ring_size r" and k: "k \<le> ring_size r"
  shows "XAXIDMA_RING_SEEKAHEAD r (ring_at r i) (int k) = ring_at r ((i + k) mod ring_size r)"
proof (cases "i + k < ring_size r")
  case True
  then have "\<not> LastBdAddr r < ring_at r (i + k)" and "\<not> ring_at r (i + k) < ring_at r i"
    using g ring_geomD(1,5) [OF g] by (auto simp: ring_at_less)
  with True show ?thesis
    by (simp add: XAXIDMA_RING_SEEKAHEAD_def ring_at_shift)
next
  case False
  then obtain j where j: "i + k = ring_size r + j"
    by (metis le_iff_add not_less)
  with i k have "j < ring_size r" by linarith
  have "LastBdAddr r < ring_at r (i + k) \<or> ring_at r (i + k) < ring_at r i"
    using False by (intro seek_overflow [OF g i k]) simp
  then show ?thesis
    using \<open>j < ring_size r\<close> g
    by (simp add: XAXIDMA_RING_SEEKAHEAD_def ring_at_shift j ring_at_wrap)
qed

lemma seekback_at [seek_simps]:
  assumes g: "ring_geom r" and i: "i < ring_size r" and k: "k \<le> ring_size r"
  shows "XAXIDMA_RING_SEEKBACK r (ring_at r i) (int k)
    = ring_at r ((i + (ring_size r - k)) mod ring_size r)"
proof (cases "k \<le> i")
  case True
  then obtain j where j: "i = j + k"
    by (metis add.commute le_iff_add)
  then have Addr: "ring_at r i - Separation r * of_nat k = ring_at r j"
    by (simp add: ring_at_shift [symmetric])
  have "ring_at r 0 \<le> ring_at r j" and "ring_at r j \<le> ring_at r i"
    using g i j by (simp_all add: ring_at_le)
  moreover have "(i + (ring_size r - k)) mod ring_size r = j"
    using i j k by simp
  ultimately show ?thesis
    by (auto simp: XAXIDMA_RING_SEEKBACK_def Addr ring_at_0 Let_def)
next
  case False
  let ?a = "ring_at r i" and ?d = "Separation r * of_nat k"
  have d: "unat ?d = unat (Separation r) * k"
    and a: "unat ?a = unat (FirstBdAddr r) + unat (Separation r) * i"
    using g i k by (simp_all add: unat_step unat_ring_at)
  have less: "unat (Separation r) * i < unat (Separation r) * k"
    using False ring_geomD(2) [OF g] by simp
  have cond: "?a - ?d < FirstBdAddr r \<or> ?a < ?a - ?d"
  proof (cases "?d \<le> ?a")
    case True
    then have "unat (?a - ?d) = unat ?a - unat ?d" and "unat ?d \<le> unat ?a"
      by (simp_all add: unat_sub_of_le word_le_nat_alt)
    then show ?thesis
      using less d a unfolding word_less_nat_alt by linarith
  next
    case False
    then have "unat (?a - ?d) = 4294967296 + unat ?a - unat ?d"
      by (intro unat_sub_wrap) (simp add: word_le_nat_alt)
    then show ?thesis
      using unat_u32_bound [of ?d] by (simp add: word_less_nat_alt) linarith
  qed
  have "ring_size r - k + i < ring_size r"
    using False k i by linarith
  moreover have "?a - ?d + Length r = ring_at r (i + (ring_size r - k))"
    using k by (simp add: ring_geomD(6) [OF g] ring_at_def of_nat_diff algebra_simps)
  ultimately show ?thesis
    using cond by (simp add: XAXIDMA_RING_SEEKBACK_def add.commute)
qed

lemma next_at [seek_simps]:
  assumes g: "ring_geom r" and i: "i < ring_size r"
  shows "XAxiDma_mBdRingNext r (ring_at r i) = ring_at r (Suc i mod ring_size r)"
proof (cases "Suc i < ring_size r")
  case True
  then show ?thesis
    using g ring_geomD(5) [OF g] by (auto simp: XAxiDma_mBdRingNext_def ring_at_le ring_at_Suc)
next
  case False
  then have wrap: "ring_size r = Suc i"
    using i by linarith
  then have "LastBdAddr r = ring_at r i"
    using ring_geomD(5) [OF g] by simp
  with wrap show ?thesis
    by (simp add: XAxiDma_mBdRingNext_def ring_at_0)
qed

lemma prev_at [seek_simps]:
  assumes g: "ring_geom r" and i: "i < ring_size r"
  shows "XAxiDma_mBdRingPrev r (ring_at r i) = ring_at r ((i + (ring_size r - 1)) mod ring_size r)"
proof (cases i)
  case 0
  then show ?thesis
    using ring_geomD(1,5) [OF g] by (simp add: XAxiDma_mBdRingPrev_def ring_at_0)
next
  case (Suc j)
  have "\<not> ring_at r i \<le> ring_at r 0"
    using g i Suc by (simp add: ring_at_le)
  then show ?thesis
    using i Suc by (simp add: XAxiDma_mBdRingPrev_def ring_at_0 [symmetric] ring_at_Suc)
qed

lemma virt_to_phys_at: "XAXIDMA_VIRT_TO_PHYS r (ring_at r i) = FirstBdPhysAddr r + Separation r * of_nat i"
  by (simp add: XAXIDMA_VIRT_TO_PHYS_def ring_at_def)

lemma phys_virt_inverse [simp]:
  "XAXIDMA_PHYS_TO_VIRT r (XAXIDMA_VIRT_TO_PHYS r p) = p"
  "XAXIDMA_VIRT_TO_PHYS r (XAXIDMA_PHYS_TO_VIRT r q) = q"
  by (simp_all add: XAXIDMA_PHYS_TO_VIRT_def XAXIDMA_VIRT_TO_PHYS_def)

section \<open>The interface of the pointer macros\<close>

locale cyclic_pointers =
  fixes ok :: "'r \<Rightarrow> bool"
    and sz :: "'r \<Rightarrow> nat"
    and cell :: "'r \<Rightarrow> nat \<Rightarrow> ptr"
    and ahead :: "'r \<Rightarrow> ptr \<Rightarrow> int \<Rightarrow> ptr"
    and behind :: "'r \<Rightarrow> ptr \<Rightarrow> int \<Rightarrow> ptr"
    and nxt :: "'r \<Rightarrow> ptr \<Rightarrow> ptr"
    and prv :: "'r \<Rightarrow> ptr \<Rightarrow> ptr"
  assumes size_pos: "ok r \<Longrightarrow> 0 < sz r"
    and cell_eq: "ok r \<Longrightarrow> i < sz r \<Longrightarrow> j < sz r \<Longrightarrow> cell r i = cell r j \<longleftrightarrow> i = j"
    and ahead_cell: "ok r \<Longrightarrow> i < sz r \<Longrightarrow> k \<le> sz r \<Longrightarrow>
      ahead r (cell r i) (int k) = cell r ((i + k) mod sz r)"
    and behind_cell: "ok r \<Longrightarrow> i < sz r \<Longrightarrow> k \<le> sz r \<Longrightarrow>
      behind r (cell r i) (int k) = cell r ((i + (sz r - k)) mod sz r)"
    and nxt_cell: "ok r \<Longrightarrow> i < sz r \<Longrightarrow> nxt r (cell r i) = cell r (Suc i mod sz r)"
    and prv_cell: "ok r \<Longrightarrow> i < sz r \<Longrightarrow> prv r (cell r i) = cell r ((i + (sz r - 1)) mod sz r)"
begin

lemma idx_less: "ok r \<Longrightarrow> k mod sz r < sz r"
  by (simp add: size_pos)

lemma behind_ahead:
  assumes "ok r" and "i < sz r" and "k \<le> sz r"
  shows "behind r (ahead r (cell r i) (int k)) (int k) = cell r i"
  using assms idx_less [OF assms(1)] mod_add_sub_cancel [of i "sz r" k]
  by (simp add: ahead_cell behind_cell)

lemma ahead_behind:
  assumes "ok r" and "i < sz r" and "k \<le> sz r"
  shows "ahead r (behind r (cell r i) (int k)) (int k) = cell r i"
  using assms idx_less [OF assms(1)] mod_add_sub_cancel [of i "sz r" "sz r - k"]
  by (simp add: ahead_cell behind_cell)

lemma ahead_ahead:
  assumes "ok r" and "i < sz r" and "j + k \<le> sz r"
  shows "ahead r (ahead r (cell r i) (int j)) (int k) = ahead r (cell r i) (int (j + k))"
  using assms idx_less [OF assms(1)] ahead_cell [of r i "j + k"]
  by (simp add: ahead_cell mod_add_shift)

lemma ahead_full: "ok r \<Longrightarrow> i < sz r \<Longrightarrow> ahead r (cell r i) (int (sz r)) = cell r i"
  by (simp add: ahead_cell)

lemma prv_nxt: "ok r \<Longrightarrow> i < sz r \<Longrightarrow> prv r (nxt r (cell r i)) = cell r i"
  using mod_add_sub_cancel [of i "sz r" 1] idx_less [of r "Suc i"] size_pos [of r]
  by (simp add: nxt_cell prv_cell)

lemma nxt_funpow:
  assumes "ok r" and "i < sz r"
  shows "(nxt r ^^ k) (cell r i) = cell r ((i + k) mod sz r)"
proof (induction k)
  case (Suc k)
  then show ?case
    using nxt_cell [OF assms(1) idx_less [OF assms(1), of "i + k"]] by (simp add: mod_Suc_eq)
qed (use assms in simp)

lemma nxt_funpow_ahead:
  "ok r \<Longrightarrow> i < sz r \<Longrightarrow> k \<le> sz r \<Longrightarrow> (nxt r ^^ k) (cell r i) = ahead r (cell r i) (int k)"
  by (simp add: nxt_funpow ahead_cell)

end

interpretation bdptr: cyclic_pointers ring_geom ring_size ring_at
  XAXIDMA_RING_SEEKAHEAD XAXIDMA_RING_SEEKBACK XAxiDma_mBdRingNext XAxiDma_mBdRingPrev
  by unfold_locales (simp_all add: ring_geomD(1) ring_at_inj seek_simps)

end
