(* ===== verification/Ring_Inv.thy ===== *)
theory Ring_Inv
  imports Ring_Geometry
begin

unbundle bit_operations_syntax

text \<open>
  The invariant of a descriptor ring and its abstract view. Going round the ring from
  \<open>PostHead\<close> one meets the post-work, work, pre-work and free groups in this order, with the
  lengths the counters say; abstractly the ring is four queues of descriptors that partition
  it, and each operation moves a prefix of one queue to the end of the next one
  (\<open>UnAlloc\<close> moves a suffix back).
\<close>

section \<open>Invariant and abstraction\<close>

text \<open>\<open>ring_view r i q h p f\<close>: the groups start at index \<open>i\<close> and have lengths \<open>q\<close> (post),
  \<open>h\<close> (work), \<open>p\<close> (pre) and \<open>f\<close> (free).\<close>

definition ring_view :: "XAxiDma_BdRing \<Rightarrow> nat \<Rightarrow> nat \<Rightarrow> nat \<Rightarrow> nat \<Rightarrow> nat \<Rightarrow> bool" where
  "ring_view r i q h p f \<longleftrightarrow> ring_geom r
    \<and> i < ring_size r \<and> q + h + p + f = ring_size r
    \<and> PostCnt r = int q \<and> HwCnt r = int h \<and> PreCnt r = int p \<and> FreeCnt r = int f
    \<and> PostHead r = ring_at r i
    \<and> HwHead r = ring_at r ((i + q) mod ring_size r)
    \<and> PreHead r = ring_at r ((i + q + h) mod ring_size r)
    \<and> FreeHead r = ring_at r ((i + q + h + p) mod ring_size r)
    \<and> ring_idx r (HwTail r) < ring_size r \<and> HwTail r = ring_at r (ring_idx r (HwTail r))
    \<and> (0 < h \<longrightarrow> HwTail r = ring_at r ((i + q + (h - 1)) mod ring_size r))"

definition ring_inv :: "XAxiDma_BdRing \<Rightarrow> bool" where
  "ring_inv r \<longleftrightarrow> 0 \<le> PostCnt r \<and> 0 \<le> HwCnt r \<and> 0 \<le> PreCnt r \<and> 0 \<le> FreeCnt r
    \<and> ring_view r (ring_idx r (PostHead r)) (nat (PostCnt r)) (nat (HwCnt r)) (nat (PreCnt r))
        (nat (FreeCnt r))"

record bd_groups =
  g_post :: "ptr list"
  g_hw :: "ptr list"
  g_pre :: "ptr list"
  g_free :: "ptr list"

definition ring_seg :: "XAxiDma_BdRing \<Rightarrow> nat \<Rightarrow> nat \<Rightarrow> ptr list" where
  "ring_seg r start len = map (ring_at r) (cyc (ring_size r) start len)"

definition groups :: "XAxiDma_BdRing \<Rightarrow> bd_groups" where
  "groups r =
    (let i = ring_idx r (PostHead r); q = nat (PostCnt r); h = nat (HwCnt r); p = nat (PreCnt r)
     in \<lparr>g_post = ring_seg r i q, g_hw = ring_seg r (i + q) h, g_pre = ring_seg r (i + q + h) p,
         g_free = ring_seg r (i + q + h + p) (nat (FreeCnt r))\<rparr>)"

section \<open>The four queues as a specification\<close>

definition spec_alloc :: "nat \<Rightarrow> bd_groups \<Rightarrow> bd_groups" where
  "spec_alloc k s = s\<lparr>g_pre := g_pre s @ take k (g_free s), g_free := drop k (g_free s)\<rparr>"

definition spec_unalloc :: "nat \<Rightarrow> bd_groups \<Rightarrow> bd_groups" where
  "spec_unalloc k s =
    (let j = length (g_pre s) - k
     in s\<lparr>g_pre := take j (g_pre s), g_free := drop j (g_pre s) @ g_free s\<rparr>)"

definition spec_tohw :: "nat \<Rightarrow> bd_groups \<Rightarrow> bd_groups" where
  "spec_tohw k s = s\<lparr>g_hw := g_hw s @ take k (g_pre s), g_pre := drop k (g_pre s)\<rparr>"

definition spec_fromhw :: "nat \<Rightarrow> bd_groups \<Rightarrow> bd_groups" where
  "spec_fromhw k s = s\<lparr>g_post := g_post s @ take k (g_hw s), g_hw := drop k (g_hw s)\<rparr>"

definition spec_free :: "nat \<Rightarrow> bd_groups \<Rightarrow> bd_groups" where
  "spec_free k s = s\<lparr>g_free := g_free s @ take k (g_post s), g_post := drop k (g_post s)\<rparr>"

text \<open>
  What \<^verbatim>\<open>XAxiDma_BdRingFromHw\<close> should return: of the descriptors at the head of the work group
  that the hardware has completed, as many as form whole packets.
\<close>

definition bd_done :: "memory \<Rightarrow> ptr \<Rightarrow> bool" where
  "bd_done m b \<longleftrightarrow> XAxiDma_BdHwCompleted m b \<noteq> 0"

definition bd_eof :: "XAxiDma_BdRing \<Rightarrow> memory \<Rightarrow> ptr \<Rightarrow> bool" where
  "bd_eof r m b \<longleftrightarrow> BdRing_is_eof r (XAxiDma_BdRead m b XAXIDMA_BD_CTRL_LEN_OFFSET)
     (XAxiDma_BdRead m b XAXIDMA_BD_STS_OFFSET)"

definition whole_packets :: "('a \<Rightarrow> bool) \<Rightarrow> ('a \<Rightarrow> bool) \<Rightarrow> 'a list \<Rightarrow> nat" where
  "whole_packets fin eof bds =
    (let c = takeWhile fin bds in length c - length (takeWhile (\<lambda>b. \<not> eof b) (rev c)))"

text \<open>All descriptors, in the order in which they go round.\<close>

definition all_bds :: "bd_groups \<Rightarrow> ptr list" where
  "all_bds s = g_post s @ g_hw s @ g_pre s @ g_free s"

section \<open>Updates that leave the geometry alone\<close>

lemma geom_frame [simp]:
  "ring_size (r\<lparr>FreeHead := a\<rparr>) = ring_size r" "ring_size (r\<lparr>PreHead := a\<rparr>) = ring_size r"
  "ring_size (r\<lparr>HwHead := a\<rparr>) = ring_size r" "ring_size (r\<lparr>HwTail := a\<rparr>) = ring_size r"
  "ring_size (r\<lparr>PostHead := a\<rparr>) = ring_size r" "ring_size (r\<lparr>BdaRestart := a\<rparr>) = ring_size r"
  "ring_size (r\<lparr>FreeCnt := c\<rparr>) = ring_size r" "ring_size (r\<lparr>PreCnt := c\<rparr>) = ring_size r"
  "ring_size (r\<lparr>HwCnt := c\<rparr>) = ring_size r" "ring_size (r\<lparr>PostCnt := c\<rparr>) = ring_size r"
  "ring_size (r\<lparr>RunState := c\<rparr>) = ring_size r"
  "ring_at (r\<lparr>FreeHead := a\<rparr>) = ring_at r" "ring_at (r\<lparr>PreHead := a\<rparr>) = ring_at r"
  "ring_at (r\<lparr>HwHead := a\<rparr>) = ring_at r" "ring_at (r\<lparr>HwTail := a\<rparr>) = ring_at r"
  "ring_at (r\<lparr>PostHead := a\<rparr>) = ring_at r" "ring_at (r\<lparr>BdaRestart := a\<rparr>) = ring_at r"
  "ring_at (r\<lparr>FreeCnt := c\<rparr>) = ring_at r" "ring_at (r\<lparr>PreCnt := c\<rparr>) = ring_at r"
  "ring_at (r\<lparr>HwCnt := c\<rparr>) = ring_at r" "ring_at (r\<lparr>PostCnt := c\<rparr>) = ring_at r"
  "ring_at (r\<lparr>RunState := c\<rparr>) = ring_at r"
  "ring_idx (r\<lparr>FreeHead := a\<rparr>) = ring_idx r" "ring_idx (r\<lparr>PreHead := a\<rparr>) = ring_idx r"
  "ring_idx (r\<lparr>HwHead := a\<rparr>) = ring_idx r" "ring_idx (r\<lparr>HwTail := a\<rparr>) = ring_idx r"
  "ring_idx (r\<lparr>PostHead := a\<rparr>) = ring_idx r" "ring_idx (r\<lparr>BdaRestart := a\<rparr>) = ring_idx r"
  "ring_idx (r\<lparr>FreeCnt := c\<rparr>) = ring_idx r" "ring_idx (r\<lparr>PreCnt := c\<rparr>) = ring_idx r"
  "ring_idx (r\<lparr>HwCnt := c\<rparr>) = ring_idx r" "ring_idx (r\<lparr>PostCnt := c\<rparr>) = ring_idx r"
  "ring_idx (r\<lparr>RunState := c\<rparr>) = ring_idx r"
  by (simp_all add: ring_size_def ring_at_def ring_idx_def fun_eq_iff)

lemma ring_geom_frame [simp]:
  "ring_geom (r\<lparr>FreeHead := a\<rparr>) = ring_geom r" "ring_geom (r\<lparr>PreHead := a\<rparr>) = ring_geom r"
  "ring_geom (r\<lparr>HwHead := a\<rparr>) = ring_geom r" "ring_geom (r\<lparr>HwTail := a\<rparr>) = ring_geom r"
  "ring_geom (r\<lparr>PostHead := a\<rparr>) = ring_geom r" "ring_geom (r\<lparr>BdaRestart := a\<rparr>) = ring_geom r"
  "ring_geom (r\<lparr>FreeCnt := c\<rparr>) = ring_geom r" "ring_geom (r\<lparr>PreCnt := c\<rparr>) = ring_geom r"
  "ring_geom (r\<lparr>HwCnt := c\<rparr>) = ring_geom r" "ring_geom (r\<lparr>PostCnt := c\<rparr>) = ring_geom r"
  "ring_geom (r\<lparr>RunState := c\<rparr>) = ring_geom r"
  by (simp_all add: ring_geom_def)

section \<open>Reading the invariant\<close>

lemma ring_inv_view:
  assumes "ring_inv r"
  obtains i q h p f where "ring_view r i q h p f"
  using assms unfolding ring_inv_def by blast

lemma view_idx: "ring_view r i q h p f \<Longrightarrow> ring_idx r (PostHead r) = i"
  by (simp add: ring_view_def)

lemma view_inv: "ring_view r i q h p f \<Longrightarrow> ring_inv r"
  by (auto simp: ring_inv_def view_idx) (simp_all add: ring_view_def)

lemma ring_seg_mod [simp]: "ring_seg r (s mod ring_size r) l = ring_seg r s l"
  by (simp add: ring_seg_def)

lemma view_groups:
  "ring_view r i q h p f \<Longrightarrow> groups r = \<lparr>g_post = ring_seg r i q, g_hw = ring_seg r (i + q) h,
     g_pre = ring_seg r (i + q + h) p, g_free = ring_seg r (i + q + h + p) f\<rparr>"
  by (simp add: groups_def view_idx) (simp add: ring_view_def)

lemma inv_frame [simp]: "ring_inv (r\<lparr>RunState := c\<rparr>) = ring_inv r" "ring_inv (r\<lparr>BdaRestart := a\<rparr>) = ring_inv r"
  by (simp_all add: ring_inv_def ring_view_def)

lemma groups_frame [simp]: "groups (r\<lparr>RunState := c\<rparr>) = groups r" "groups (r\<lparr>BdaRestart := a\<rparr>) = groups r"
  by (simp_all add: groups_def Let_def ring_seg_def)

lemma length_ring_seg [simp]: "length (ring_seg r s l) = l"
  by (simp add: ring_seg_def)

lemma ring_seg_append: "ring_seg r s a @ ring_seg r (s + a) b = ring_seg r s (a + b)"
  by (metis cyc_append cyc_mod_start map_append ring_seg_def)

lemma take_ring_seg: "k \<le> l \<Longrightarrow> take k (ring_seg r s l) = ring_seg r s k"
  by (simp add: ring_seg_def take_map take_cyc)

lemma drop_ring_seg: "k \<le> l \<Longrightarrow> drop k (ring_seg r s l) = ring_seg r (s + k) (l - k)"
  by (simp add: ring_seg_def drop_map drop_cyc)

lemma view_partition:
  assumes "ring_view r i q h p f"
  shows "distinct (all_bds (groups r))"
    and "set (all_bds (groups r)) = ring_at r ` {..<ring_size r}"
proof -
  have g: "ring_geom r" and n: "q + h + p + f = ring_size r"
    using assms by (simp_all add: ring_view_def)
  have all: "all_bds (groups r) = ring_seg r i (ring_size r)"
    by (simp add: all_bds_def view_groups [OF assms] n [symmetric] add.assoc ring_seg_append [symmetric])
  have "inj_on (ring_at r) {..<ring_size r}"
    by (rule inj_onI) (simp add: ring_at_inj g)
  then show "distinct (all_bds (groups r))"
    using ring_geomD(1) [OF g] distinct_cyc [of "ring_size r" "ring_size r" i]
    unfolding all ring_seg_def by (simp add: distinct_map set_cyc_full)
  show "set (all_bds (groups r)) = ring_at r ` {..<ring_size r}"
    using ring_geomD(1) [OF g] unfolding all ring_seg_def by (simp add: set_cyc_full)
qed

section \<open>What each operation does to the view\<close>

lemma alloc_view:
  assumes v: "ring_view r i q h p (k + f)" and k: "0 < k"
  obtains r' where "XAxiDma_BdRingAlloc r (int k)
      = (XST_SUCCESS, r', Some (ring_at r ((i + q + h + p) mod ring_size r)))"
    and "ring_view r' i q h (p + k) f"
    and "ring_at r' = ring_at r" and "ring_size r' = ring_size r"
proof -
  let ?r = "r\<lparr>FreeHead := XAXIDMA_RING_SEEKAHEAD r (FreeHead r) (int k),
    FreeCnt := FreeCnt r - int k, PreCnt := PreCnt r + int k\<rparr>"
  have "ring_view ?r i q h (p + k) f"
    using v k bdptr.idx_less [of r]
    by (auto simp: ring_view_def seek_simps mod_add_shift add.assoc)
  moreover have "XAxiDma_BdRingAlloc r (int k)
      = (XST_SUCCESS, ?r, Some (ring_at r ((i + q + h + p) mod ring_size r)))"
    using v k by (simp add: XAxiDma_BdRingAlloc_def ring_view_def)
  ultimately show thesis
    by (intro that [of ?r]) simp_all
qed

lemma mod_sub_add:
  assumes "k \<le> (n :: nat)"
  shows "((j + k) mod n + (n - k)) mod n = j mod n"
proof -
  have "((j + k) mod n + (n - k)) mod n = (j + k + (n - k)) mod n"
    by (rule mod_add_left_eq)
  with assms show ?thesis by simp
qed

lemma unalloc_view:
  assumes v: "ring_view r i q h (p + k) f" and k: "0 < k"
    and b: "XAXIDMA_RING_SEEKAHEAD r b (int k) = FreeHead r"
  obtains r' where "XAxiDma_BdRingUnAlloc r (int k) b = (XST_SUCCESS, r')"
    and "ring_view r' i q h p (k + f)"
    and "ring_at r' = ring_at r" and "ring_size r' = ring_size r"
proof -
  let ?r = "r\<lparr>FreeHead := XAXIDMA_RING_SEEKBACK r (FreeHead r) (int k),
    FreeCnt := FreeCnt r + int k, PreCnt := PreCnt r - int k\<rparr>"
  have g: "ring_geom r" and n: "k \<le> ring_size r"
    and F: "FreeHead r = ring_at r ((i + q + h + p + k) mod ring_size r)"
    using v by (simp_all add: ring_view_def add.assoc)
  have "XAXIDMA_RING_SEEKBACK r (FreeHead r) (int k) = ring_at r ((i + q + h + p) mod ring_size r)"
    by (simp add: F seekback_at [OF g bdptr.idx_less [OF g] n] mod_sub_add [OF n])
  then have "ring_view ?r i q h p (k + f)"
    using v k by (auto simp: ring_view_def)
  moreover have "XAxiDma_BdRingUnAlloc r (int k) b = (XST_SUCCESS, ?r)"
    using v k b by (simp add: XAxiDma_BdRingUnAlloc_def ring_view_def)
  ultimately show thesis
    by (intro that [of ?r]) simp_all
qed

lemma free_view:
  assumes v: "ring_view r i (k + q) h p f" and k: "0 < k"
  obtains r' where "XAxiDma_BdRingFree r (int k) (ring_at r i) = (XST_SUCCESS, r')"
    and "ring_view r' ((i + k) mod ring_size r) q h p (f + k)"
    and "ring_at r' = ring_at r" and "ring_size r' = ring_size r"
proof -
  let ?r = "r\<lparr>FreeCnt := FreeCnt r + int k, PostCnt := PostCnt r - int k,
    PostHead := XAXIDMA_RING_SEEKAHEAD r (PostHead r) (int k)\<rparr>"
  have n: "k \<le> ring_size r" and g: "ring_geom r"
    using v by (simp_all add: ring_view_def)
  have "ring_view ?r ((i + k) mod ring_size r) q h p (f + k)"
    using v k n bdptr.idx_less [OF g]
    by (cases h) (auto simp: ring_view_def seek_simps mod_add_left_eq mod_add_left_Suc add.assoc)
  moreover have "XAxiDma_BdRingFree r (int k) (ring_at r i) = (XST_SUCCESS, ?r)"
    using v k by (simp add: XAxiDma_BdRingFree_def ring_view_def)
  ultimately show thesis
    by (intro that [of ?r]) simp_all
qed

section \<open>Taking descriptors back from the hardware\<close>

definition partial_count :: "('a \<Rightarrow> bool) \<Rightarrow> nat \<Rightarrow> 'a list \<Rightarrow> nat" where
  "partial_count eof = foldl (\<lambda>x b. if eof b then 0 else Suc x)"

lemma partial_count_rev:
  "partial_count eof 0 bds = length (takeWhile (\<lambda>b. \<not> eof b) (rev bds))"
  by (induction bds rule: rev_induct) (auto simp: partial_count_def)

lemma partial_count_Cons [simp]:
  "partial_count eof x [] = x"
  "partial_count eof x (b # bs) = partial_count eof (if eof b then 0 else Suc x) bs"
  by (simp_all add: partial_count_def)

lemma ring_seg_Suc: "ring_seg r s (Suc k) = ring_at r (s mod ring_size r) # ring_seg r (Suc s) k"
  by (simp add: ring_seg_def cyc_Suc)

lemma ring_seg_0 [simp]: "ring_seg r s 0 = []"
  by (simp add: ring_seg_def)

lemma fromhw_loop_result:
  assumes g: "ring_geom r" and h: "0 < h" "h \<le> ring_size r"
    and tail: "HwTail r = ring_at r ((s + (h - 1)) mod ring_size r)"
    and L: "c + k \<le> h"
  shows "BdRingFromHw_loop r m (int (c + k)) (ring_at r ((s + c) mod ring_size r)) (int c) (int x)
    = (let d = takeWhile (bd_done m) (ring_seg r (s + c) k)
       in (int (c + length d), int (partial_count (bd_eof r m) x d)))"
  using L
proof (induction k arbitrary: c x)
  case 0
  then show ?case
    by (simp add: BdRingFromHw_loop.simps)
next
  case (Suc k)
  let ?b = "ring_at r ((s + c) mod ring_size r)"
  let ?x = "if bd_eof r m ?b then 0 else Suc x"
  have IH: "BdRingFromHw_loop r m (int (c + Suc k)) (ring_at r ((s + Suc c) mod ring_size r))
      (int (Suc c)) (int ?x)
    = (let d = takeWhile (bd_done m) (ring_seg r (s + Suc c) k)
       in (int (Suc c + length d), int (partial_count (bd_eof r m) ?x d)))"
    using Suc.IH [of "Suc c" ?x] Suc.prems by simp
  have nxt: "XAxiDma_mBdRingNext r ?b = ring_at r ((s + Suc c) mod ring_size r)"
    using next_at [OF g bdptr.idx_less [OF g]] by (simp add: mod_Suc_eq)
  have end_iff: "?b = HwTail r \<longleftrightarrow> c = h - 1"
    using mod_add_inj [of s c "ring_size r" "h - 1"] h Suc.prems ring_geomD(1) [OF g]
    by (auto simp: tail ring_at_inj [OF g bdptr.idx_less [OF g] bdptr.idx_less [OF g]])
  show ?case
  proof (cases "bd_done m ?b")
    case False
    then show ?thesis
      by (subst BdRingFromHw_loop.simps)
        (simp add: ring_seg_Suc bd_done_def XAxiDma_BdHwCompleted_def)
  next
    case True
    show ?thesis
    proof (cases "?b = HwTail r")
      case at_end: True
      then have "k = 0" using end_iff Suc.prems by simp
      with True at_end show ?thesis
        by (subst BdRingFromHw_loop.simps)
          (simp add: ring_seg_Suc bd_done_def XAxiDma_BdHwCompleted_def bd_eof_def Let_def)
    next
      case False
      have "BdRingFromHw_loop r m (int (c + Suc k)) ?b (int c) (int x) =
        BdRingFromHw_loop r m (int (c + Suc k)) (ring_at r ((s + Suc c) mod ring_size r))
          (int (Suc c)) (int ?x)"
        using True False nxt
        by (subst BdRingFromHw_loop.simps)
          (simp add: bd_done_def XAxiDma_BdHwCompleted_def bd_eof_def Let_def add.commute)
      with True IH show ?thesis
        by (simp add: ring_seg_Suc Let_def)
    qed
  qed
qed

lemma whole_packets_le: "whole_packets fin eof bds \<le> length bds"
  using length_takeWhile_le [of fin bds] by (simp add: whole_packets_def Let_def)

lemma fromhw_count:
  assumes v: "ring_view r i q h p f" and h: "0 < h"
  shows "(case BdRingFromHw_loop r m (if BdLimit > HwCnt r then HwCnt r else BdLimit) (HwHead r) 0 0 of
      (c, x) \<Rightarrow> c - x)
    = int (whole_packets (bd_done m) (bd_eof r m) (take (nat BdLimit) (ring_seg r (i + q) h)))"
proof (cases "BdLimit < 0")
  case True
  then show ?thesis
    using v by (subst BdRingFromHw_loop.simps) (simp add: ring_view_def whole_packets_def)
next
  case False
  define L where "L = min (nat BdLimit) h"
  let ?d = "takeWhile (bd_done m) (ring_seg r (i + q) L)"
  have lim: "(if BdLimit > HwCnt r then HwCnt r else BdLimit) = int L"
    using v False by (auto simp: ring_view_def L_def)
  have g: "ring_geom r" and n: "h \<le> ring_size r"
    and tail: "HwTail r = ring_at r ((i + q + (h - 1)) mod ring_size r)"
    and head: "HwHead r = ring_at r ((i + q) mod ring_size r)"
    using v h by (simp_all add: ring_view_def)
  have "BdRingFromHw_loop r m (int L) (HwHead r) 0 0
      = (int (length ?d), int (partial_count (bd_eof r m) 0 ?d))"
    using fromhw_loop_result [OF g h n tail, of 0 L m 0] by (simp add: head L_def Let_def)
  moreover have "take (nat BdLimit) (ring_seg r (i + q) h) = ring_seg r (i + q) L"
    by (cases "nat BdLimit \<le> h") (simp_all add: L_def take_ring_seg)
  moreover have "length (takeWhile (\<lambda>b. \<not> bd_eof r m b) (rev ?d)) \<le> length ?d"
    using length_takeWhile_le [of _ "rev ?d"] by simp
  ultimately show ?thesis
    unfolding lim by (simp add: whole_packets_def partial_count_rev of_nat_diff Let_def)
qed

lemma fromhw_unfold:
  assumes v: "ring_view r i q h p f" and h: "0 < h"
    and k: "k = whole_packets (bd_done m) (bd_eof r m) (take (nat BdLimit) (ring_seg r (i + q) h))"
  shows "XAxiDma_BdRingFromHw r BdLimit m = (if k = 0 then (0, r, NULL)
    else (int k, r\<lparr>HwCnt := HwCnt r - int k, PostCnt := PostCnt r + int k,
      HwHead := XAXIDMA_RING_SEEKAHEAD r (HwHead r) (int k)\<rparr>, HwHead r))"
proof -
  let ?lim = "if BdLimit > HwCnt r then HwCnt r else BdLimit"
  obtain c x where lp: "BdRingFromHw_loop r m ?lim (HwHead r) 0 0 = (c, x)"
    by (metis surj_pair)
  have "c - x = int k"
    using fromhw_count [OF v h, of m BdLimit] lp k by simp
  moreover have "HwCnt r \<noteq> 0"
    using v h by (simp add: ring_view_def)
  ultimately show ?thesis
    by (simp add: XAxiDma_BdRingFromHw_def lp Let_def)
qed

lemma fromhw_view:
  assumes v: "ring_view r i q h p f"
    and k: "k = whole_packets (bd_done m) (bd_eof r m) (take (nat BdLimit) (ring_seg r (i + q) h))"
  obtains r' where
    "XAxiDma_BdRingFromHw r BdLimit m = (int k, r', if k = 0 then NULL else HwHead r)"
    and "ring_view r' i (q + k) (h - k) p f" and "k \<le> h"
    and "ring_at r' = ring_at r" and "ring_size r' = ring_size r"
proof (cases "k = 0")
  case True
  have "h = 0 \<Longrightarrow> HwCnt r = 0"
    using v by (simp add: ring_view_def)
  then have "XAxiDma_BdRingFromHw r BdLimit m = (int k, r, NULL)"
    using fromhw_unfold [OF v _ k] True by (cases "h = 0") (simp_all add: XAxiDma_BdRingFromHw_def)
  with True v show thesis
    by (intro that [of r]) simp_all
next
  case False
  let ?r = "r\<lparr>HwCnt := HwCnt r - int k, PostCnt := PostCnt r + int k,
    HwHead := XAXIDMA_RING_SEEKAHEAD r (HwHead r) (int k)\<rparr>"
  have kh: "k \<le> h"
    using whole_packets_le [of "bd_done m" "bd_eof r m" "take (nat BdLimit) (ring_seg r (i + q) h)"] k
    by simp
  then obtain h' where h': "h = k + h'"
    by (metis le_iff_add)
  have "XAxiDma_BdRingFromHw r BdLimit m = (int k, ?r, HwHead r)"
    using fromhw_unfold [OF v _ k] False kh by simp
  moreover have "ring_view ?r i (q + k) h' p f"
    using v False bdptr.idx_less [of r] unfolding h'
    by (auto simp: ring_view_def seek_simps mod_add_shift add.assoc)
  ultimately show thesis
    using False kh h' by (intro that [of ?r]) simp_all
qed

end
