(* ===== verification/Ring_ToHw.thy ===== *)
theory Ring_ToHw
  imports Ring_Inv
begin

unbundle bit_operations_syntax

text \<open>
  Handing descriptors to the hardware: the effect of \<^verbatim>\<open>XAxiDma_BdRingToHw\<close> on memory and on
  the ring, in closed form. \<open>clear_complete m bds\<close> is the memory after the completed bit of each
  listed descriptor is cleared; \<open>tohw_ok\<close> are the checks the function makes.
\<close>

section \<open>The checks and the memory effect\<close>

fun clear_complete :: "memory \<Rightarrow> ptr list \<Rightarrow> memory" where
  "clear_complete m [] = m"
| "clear_complete m (b # bs) = clear_complete
    (XAxiDma_BdWrite m b XAXIDMA_BD_STS_OFFSET
      (XAxiDma_BdRead m b XAXIDMA_BD_STS_OFFSET AND NOT XAXIDMA_BD_STS_COMPLETE_MASK)) bs"

text \<open>The status of the first descriptor is read through \<^verbatim>\<open>XAxiDma_BdGetSts\<close>, so the write also
  drops its low 26 bits, the length of the previous transfer.\<close>

fun tohw_mem :: "memory \<Rightarrow> ptr list \<Rightarrow> memory" where
  "tohw_mem m [] = m"
| "tohw_mem m (b # bs) = clear_complete
    (XAxiDma_BdWrite m b XAXIDMA_BD_STS_OFFSET
      (XAxiDma_BdGetSts m b AND NOT XAXIDMA_BD_STS_COMPLETE_MASK)) bs"

definition bd_len_ok :: "XAxiDma_BdRing \<Rightarrow> memory \<Rightarrow> ptr \<Rightarrow> bool" where
  "bd_len_ok r m b \<longleftrightarrow> XAxiDma_BdGetLength m b (MaxTransferLen r) \<noteq> 0"

definition tohw_ok :: "XAxiDma_BdRing \<Rightarrow> memory \<Rightarrow> ptr list \<Rightarrow> bool" where
  "tohw_ok r m bds \<longleftrightarrow>
    (IsRxChannel r = 0 \<longrightarrow>
      XAxiDma_BdGetCtrl m (hd bds) AND XAXIDMA_BD_CTRL_TXSOF_MASK \<noteq> 0 \<and>
      XAxiDma_BdGetCtrl m (last bds) AND XAXIDMA_BD_CTRL_TXEOF_MASK \<noteq> 0)
    \<and> list_all (bd_len_ok r m) bds"

section \<open>Words of different descriptors\<close>

lemma bd_room:
  assumes g: "ring_geom r" and k: "k < ring_size r"
  shows "unat (FirstBdAddr r) + unat (Separation r) * k + unat (Separation r) \<le> 4294967296"
  using mult_below [of "unat (Separation r)" "ring_size r" "4294967296 - unat (FirstBdAddr r)" k]
    k ring_geomD(4) [OF g] by linarith

lemma unat_bd_word:
  assumes g: "ring_geom r" and k: "k < ring_size r" and off: "unat off + 4 \<le> 64"
  shows "unat (ring_at r k + off) = unat (FirstBdAddr r) + unat (Separation r) * k + unat off"
proof -
  have "unat (ring_at r k) + unat off < 4294967296"
    using off bd_room [OF g k] ring_geomD(2) [OF g] by (simp add: unat_ring_at g k)
  then show ?thesis
    by (simp add: unat_add_nowrap unat_ring_at g k)
qed

lemma bd_gap:
  assumes "i \<noteq> j"
  shows "unat (Separation r) * i + unat (Separation r) \<le> unat (Separation r) * j
    \<or> unat (Separation r) * j + unat (Separation r) \<le> unat (Separation r) * i"
proof -
  have "s * a + s \<le> s * b" if "a < b" for s a b :: nat
    using mult_below [of s b "s * b" a] that by simp
  with assms show ?thesis
    by (metis nat_neq_iff)
qed

lemma bd_words_separate:
  assumes g: "ring_geom r" and ij: "i < ring_size r" "j < ring_size r" "i \<noteq> j"
    and off: "unat off + 4 \<le> 64" "unat off' + 4 \<le> 64"
  shows "separate4 (ring_at r i + off) (ring_at r j + off')"
  using bd_gap [OF ij(3), of r] bd_room [OF g ij(1)] bd_room [OF g ij(2)]
    unat_bd_word [OF g ij(1) off(1)] unat_bd_word [OF g ij(2) off(2)] off ring_geomD(2) [OF g]
  by (intro separate4_unat) linarith+

lemma bd_sep_other_word:
  assumes "ring_geom r" and "i < ring_size r" and "j < ring_size r"
    and "unat off + 4 \<le> 64" "unat off' + 4 \<le> 64" and "separate4 off off'"
  shows "separate4 (ring_at r i + off) (ring_at r j + off')"
  using assms bd_words_separate [of r i j off off'] by (cases "i = j") simp_all

lemma ctrl_after_sts_write [simp]:
  assumes "ring_geom r" and "i < ring_size r" and "j < ring_size r"
  shows "XAxiDma_BdRead (XAxiDma_BdWrite m (ring_at r i) 0x1C v) (ring_at r j) 0x18
    = XAxiDma_BdRead m (ring_at r j) 0x18"
  using assms by (intro BdRead_BdWrite_far bd_sep_other_word) (simp_all add: separate4_def)

lemma sts_after_sts_write [simp]:
  assumes "ring_geom r" and "i < ring_size r" and "j < ring_size r" and "i \<noteq> j"
  shows "XAxiDma_BdRead (XAxiDma_BdWrite m (ring_at r i) 0x1C v) (ring_at r j) 0x1C
    = XAxiDma_BdRead m (ring_at r j) 0x1C"
  using assms by (intro BdRead_BdWrite_far bd_words_separate) simp_all

lemma set_ring_seg: "ring_geom r \<Longrightarrow> set (ring_seg r s k) \<subseteq> ring_at r ` {..<ring_size r}"
  using set_cyc_subset [of "ring_size r" s k] ring_geomD(1) [of r] by (auto simp: ring_seg_def)

lemma len_ok_after_sts_write:
  assumes g: "ring_geom r" and i: "i < ring_size r"
  shows "takeWhile (bd_len_ok r (XAxiDma_BdWrite m (ring_at r i) 0x1C v)) (ring_seg r s k)
    = takeWhile (bd_len_ok r m) (ring_seg r s k)"
proof (rule takeWhile_cong [OF refl])
  fix b
  assume "b \<in> set (ring_seg r s k)"
  then obtain j where "b = ring_at r j" and "j < ring_size r"
    using set_ring_seg [OF g] by blast
  with g i show "bd_len_ok r (XAxiDma_BdWrite m (ring_at r i) 0x1C v) b = bd_len_ok r m b"
    by (simp add: bd_len_ok_def XAxiDma_BdGetLength_def)
qed

section \<open>The loop\<close>

lemma tohw_step:
  assumes g: "ring_geom r"
  shows "BdRingToHw_loop (Suc k) r (ring_at r (s mod ring_size r)) cr sts m
    = (let b0 = ring_at r (s mod ring_size r); b1 = ring_at r (Suc s mod ring_size r);
           m1 = XAxiDma_BdWrite m b0 XAXIDMA_BD_STS_OFFSET (sts AND NOT XAXIDMA_BD_STS_COMPLETE_MASK)
       in if \<not> bd_len_ok r m b0 then (None, m)
          else BdRingToHw_loop k r b1 (XAxiDma_BdRead m1 b1 XAXIDMA_BD_CTRL_LEN_OFFSET)
                 (XAxiDma_BdRead m1 b1 XAXIDMA_BD_STS_OFFSET) m1)"
proof -
  have "XAxiDma_mBdRingNext r (ring_at r (s mod ring_size r)) = ring_at r (Suc s mod ring_size r)"
    using next_at [OF g bdptr.idx_less [OF g]] by (simp add: mod_Suc_eq)
  then show ?thesis
    by (simp only: BdRingToHw_loop.simps bd_len_ok_def Let_def not_not)
qed

lemma seg_ends_differ:
  assumes g: "ring_geom r" and k: "Suc k < ring_size r"
  shows "s mod ring_size r < ring_size r" and "(Suc s + k) mod ring_size r < ring_size r"
    and "s mod ring_size r \<noteq> (Suc s + k) mod ring_size r"
  using ring_geomD(1) [OF g] mod_add_inj [of s 0 "ring_size r" "Suc k"] k by auto

lemma tohw_loop_result:
  assumes g: "ring_geom r" and k: "k < ring_size r"
  shows "BdRingToHw_loop k r (ring_at r (s mod ring_size r))
      (XAxiDma_BdRead m (ring_at r (s mod ring_size r)) XAXIDMA_BD_CTRL_LEN_OFFSET)
      (XAxiDma_BdRead m (ring_at r (s mod ring_size r)) XAXIDMA_BD_STS_OFFSET) m
    = (let ok = takeWhile (bd_len_ok r m) (ring_seg r s k);
           b = ring_at r ((s + k) mod ring_size r)
       in (if length ok = k
           then Some (b, XAxiDma_BdRead m b XAXIDMA_BD_CTRL_LEN_OFFSET,
                         XAxiDma_BdRead m b XAXIDMA_BD_STS_OFFSET)
           else None, clear_complete m ok))"
  using k
proof (induction k arbitrary: s m)
  case 0
  then show ?case by (simp add: Let_def)
next
  case (Suc k)
  let ?i = "s mod ring_size r" and ?e = "(Suc s + k) mod ring_size r"
  let ?m = "XAxiDma_BdWrite m (ring_at r ?i) XAXIDMA_BD_STS_OFFSET
    (XAxiDma_BdRead m (ring_at r ?i) XAXIDMA_BD_STS_OFFSET AND NOT XAXIDMA_BD_STS_COMPLETE_MASK)"
  note ends = seg_ends_differ [OF g Suc.prems, of s]
  have k: "k < ring_size r" using Suc.prems by simp
  have e: "(s + Suc k) mod ring_size r = ?e"
    by simp
  show ?case
  proof (cases "bd_len_ok r m (ring_at r ?i)")
    case False
    then show ?thesis
      by (simp add: ring_seg_Suc bd_len_ok_def)
  next
    case True
    then have tw: "takeWhile (bd_len_ok r m) (ring_seg r s (Suc k))
        = ring_at r ?i # takeWhile (bd_len_ok r m) (ring_seg r (Suc s) k)"
      by (simp add: ring_seg_Suc)
    have "length (ring_at r ?i # xs) = Suc k \<longleftrightarrow> length xs = k" for xs
      by simp
    with True e ctrl_after_sts_write [OF g ends(1,2), of m] sts_after_sts_write [OF g ends, of m]
    show ?thesis
      unfolding tohw_step [OF g] Let_def tw
      by (simp only: Suc.IH [OF k, of "Suc s" ?m] len_ok_after_sts_write [OF g ends(1)] Let_def
          not_True_eq_False if_False clear_complete.simps)
  qed
qed

lemma clear_complete_append: "clear_complete m (xs @ ys) = clear_complete (clear_complete m xs) ys"
  by (induction m xs rule: clear_complete.induct) simp_all

lemma clear_complete_writes:
  assumes g: "ring_geom r" and xs: "set xs \<subseteq> ring_at r ` {..<ring_size r}" and j: "j < ring_size r"
  shows "ring_at r j \<notin> set xs \<Longrightarrow> XAxiDma_BdRead (clear_complete m xs) (ring_at r j) 0x1C
      = XAxiDma_BdRead m (ring_at r j) 0x1C"
    and "XAxiDma_BdRead (clear_complete m xs) (ring_at r j) 0x18 = XAxiDma_BdRead m (ring_at r j) 0x18"
  using xs by (induction m xs rule: clear_complete.induct) (auto simp: g j ring_at_inj [OF g])

lemma last_ring_seg: "last (ring_seg r s (Suc k)) = ring_at r ((s + k) mod ring_size r)"
  by (simp add: ring_seg_def last_map last_cyc)

lemma ring_seg_snoc: "ring_seg r s (Suc k) = ring_seg r s k @ [ring_at r ((s + k) mod ring_size r)]"
  by (simp add: ring_seg_def cyc_def)

text \<open>The loop as the function calls it, with the values read from the first descriptor.\<close>

lemma tohw_loop_first:
  assumes g: "ring_geom r" and k: "Suc k < ring_size r"
  shows "BdRingToHw_loop (Suc k) r (ring_at r (s mod ring_size r)) cr sts m
    = (let b0 = ring_at r (s mod ring_size r); b = ring_at r ((s + Suc k) mod ring_size r);
           m1 = XAxiDma_BdWrite m b0 XAXIDMA_BD_STS_OFFSET (sts AND NOT XAXIDMA_BD_STS_COMPLETE_MASK);
           ok = takeWhile (bd_len_ok r m) (ring_seg r (Suc s) k)
       in if \<not> bd_len_ok r m b0 then (None, m)
          else (if length ok = k
                then Some (b, XAxiDma_BdRead m b XAXIDMA_BD_CTRL_LEN_OFFSET,
                              XAxiDma_BdRead m b XAXIDMA_BD_STS_OFFSET)
                else None, clear_complete m1 ok))"
proof -
  let ?i = "s mod ring_size r" and ?e = "(Suc s + k) mod ring_size r"
  let ?m = "XAxiDma_BdWrite m (ring_at r ?i) XAXIDMA_BD_STS_OFFSET
    (sts AND NOT XAXIDMA_BD_STS_COMPLETE_MASK)"
  note ends = seg_ends_differ [OF g k, of s]
  have k': "k < ring_size r" using k by simp
  have "(s + Suc k) mod ring_size r = ?e"
    by simp
  moreover note ctrl_after_sts_write [OF g ends(1,2), of m] sts_after_sts_write [OF g ends, of m]
  ultimately show ?thesis
    unfolding tohw_step [OF g] Let_def
    by (simp only: tohw_loop_result [OF g k', of "Suc s" ?m] len_ok_after_sts_write [OF g ends(1)] Let_def)
qed

section \<open>The whole function\<close>

lemma ctrl_masks [simp]:
  "XAxiDma_BdGetCtrl m b AND 0x08000000 = XAxiDma_BdRead m b 0x18 AND 0x08000000"
  "XAxiDma_BdGetCtrl m b AND 0x04000000 = XAxiDma_BdRead m b 0x18 AND 0x04000000"
  by (simp_all add: XAxiDma_BdGetCtrl_def and.assoc)

lemma takeWhile_full: "list_all P xs \<Longrightarrow> takeWhile P xs = xs"
  by (induction xs) auto

lemma takeWhile_length_iff: "length (takeWhile P xs) = length xs \<longleftrightarrow> list_all P xs"
  by (induction xs) auto

text \<open>The loop followed by the write to the last descriptor: every descriptor of the set is
  cleared exactly once.\<close>

lemma tohw_loop_all:
  assumes g: "ring_geom r" and k: "k < ring_size r"
    and ok: "list_all (bd_len_ok r m) (ring_seg r s (Suc k))"
  defines "b \<equiv> ring_at r ((s + k) mod ring_size r)"
  obtains cr sts m' where
    "BdRingToHw_loop k r (ring_at r (s mod ring_size r))
        (XAxiDma_BdGetCtrl m (ring_at r (s mod ring_size r)))
        (XAxiDma_BdGetSts m (ring_at r (s mod ring_size r))) m = (Some (b, cr, sts), m')"
    and "cr AND 0x04000000 = XAxiDma_BdRead m b 0x18 AND 0x04000000"
    and "XAxiDma_BdRead m' b 0x18 = XAxiDma_BdRead m b 0x18"
    and "XAxiDma_BdWrite m' b 0x1C (sts AND NOT 0x80000000) = tohw_mem m (ring_seg r s (Suc k))"
proof (cases k)
  case 0
  then show thesis
    by (intro that [of "XAxiDma_BdGetCtrl m b" "XAxiDma_BdGetSts m b" m])
      (simp_all add: b_def ring_seg_Suc)
next
  case (Suc j)
  let ?b0 = "ring_at r (s mod ring_size r)" and ?mid = "ring_seg r (Suc s) j"
  let ?m1 = "XAxiDma_BdWrite m ?b0 0x1C (XAxiDma_BdGetSts m ?b0 AND NOT 0x80000000)"
  have seg: "ring_seg r s (Suc k) = ?b0 # ?mid @ [b]"
    by (simp add: Suc b_def ring_seg_Suc [of r s] ring_seg_snoc [of r "Suc s"])
  have j: "Suc j < ring_size r" using k Suc by simp
  note ends = seg_ends_differ [OF g j, of s]
  have b: "b = ring_at r ((Suc s + j) mod ring_size r)"
    by (simp add: b_def Suc)
  have tw: "takeWhile (bd_len_ok r m) ?mid = ?mid"
    using ok seg by (simp add: takeWhile_full)
  have loop: "BdRingToHw_loop k r ?b0 (XAxiDma_BdGetCtrl m ?b0) (XAxiDma_BdGetSts m ?b0) m
      = (Some (b, XAxiDma_BdRead m b 0x18, XAxiDma_BdRead m b 0x1C), clear_complete ?m1 ?mid)"
    using ok seg tohw_loop_first [OF g j, of s "XAxiDma_BdGetCtrl m ?b0" "XAxiDma_BdGetSts m ?b0" m] tw
    by (simp add: Suc b Let_def del: BdRingToHw_loop.simps)
  have "b \<notin> set ?mid"
  proof -
    have "distinct (ring_seg r s (Suc k))"
      using bdptr.cell_eq [OF g] k set_cyc_subset [of "ring_size r" s "Suc k"] ring_geomD(1) [OF g]
      by (auto simp: ring_seg_def distinct_map distinct_cyc inj_on_def lessThan_def subset_eq)
    then show ?thesis unfolding seg by simp
  qed
  then have "XAxiDma_BdRead (clear_complete ?m1 ?mid) b 0x1C = XAxiDma_BdRead m b 0x1C"
    and "XAxiDma_BdRead (clear_complete ?m1 ?mid) b 0x18 = XAxiDma_BdRead m b 0x18"
    unfolding b
    by (simp_all only: clear_complete_writes [OF g set_ring_seg [OF g] ends(2)]
        ctrl_after_sts_write [OF g ends(1,2)] sts_after_sts_write [OF g ends] not_False_eq_True)
  then show thesis
    by (intro that [OF loop]) (simp_all only: seg tohw_mem.simps clear_complete_append clear_complete.simps)
qed

text \<open>The value of the tail pointer register after the set is queued.\<close>

definition tohw_dev :: "'d bus \<Rightarrow> XAxiDma_BdRing \<Rightarrow> int \<Rightarrow> ptr \<Rightarrow> 'd \<Rightarrow> 'd" where
  "tohw_dev B r RingIndex b d =
    (if RunState r = AXIDMA_CHANNEL_NOT_HALTED
     then bus_out32 B (ChanBase r + BdRing_tdesc_offset r RingIndex) (XAXIDMA_VIRT_TO_PHYS r b) d
     else d)"

lemma tohw_success:
  assumes v: "ring_view r i q h (k + p) f" and k: "0 < k"
    and ok: "tohw_ok r (ram w) (ring_seg r (i + q + h) k)"
  obtains r' w' where "XAxiDma_BdRingToHw B r (int k) (PreHead r) RingIndex w = (XST_SUCCESS, r', w')"
    and "ring_view r' i q (h + k) p f"
    and "ram w' = tohw_mem (ram w) (ring_seg r (i + q + h) k)"
    and "dev w' = tohw_dev B r RingIndex (last (ring_seg r (i + q + h) k)) (dev w)"
    and "ring_at r' = ring_at r" and "ring_size r' = ring_size r"
proof -
  let ?s = "i + q + h" and ?m = "ram w"
  obtain j where j: "k = Suc j" using k by (cases k) auto
  let ?b = "ring_at r ((?s + j) mod ring_size r)"
  have g: "ring_geom r" and n: "j < ring_size r"
    and pre: "PreHead r = ring_at r (?s mod ring_size r)"
    using v j by (simp_all add: ring_view_def)
  have lens: "list_all (bd_len_ok r ?m) (ring_seg r ?s (Suc j))"
    using ok by (simp add: tohw_ok_def j)
  obtain cr sts m' where loop: "BdRingToHw_loop j r (PreHead r) (XAxiDma_BdGetCtrl ?m (PreHead r))
        (XAxiDma_BdGetSts ?m (PreHead r)) ?m = (Some (?b, cr, sts), m')"
    and cr: "cr AND 0x04000000 = XAxiDma_BdRead ?m ?b 0x18 AND 0x04000000"
    and ctl: "XAxiDma_BdRead m' ?b 0x18 = XAxiDma_BdRead ?m ?b 0x18"
    and mem: "XAxiDma_BdWrite m' ?b 0x1C (sts AND NOT 0x80000000) = tohw_mem ?m (ring_seg r ?s (Suc j))"
    using tohw_loop_all [OF g n lens] unfolding pre by metis
  let ?r = "r\<lparr>PreHead := XAXIDMA_RING_SEEKAHEAD r (PreHead r) (int k), PreCnt := PreCnt r - int k,
    HwTail := ?b, HwCnt := HwCnt r + int k\<rparr>"
  let ?w = "w\<lparr>ram := tohw_mem ?m (ring_seg r ?s k), dev := tohw_dev B r RingIndex ?b (dev w)\<rparr>"
  have len: "XAxiDma_BdGetLength m' ?b (MaxTransferLen r) \<noteq> 0"
    using lens by (simp add: ring_seg_snoc bd_len_ok_def XAxiDma_BdGetLength_def ctl)
  have flags: "IsRxChannel r = 0 \<Longrightarrow> XAxiDma_BdGetCtrl ?m (PreHead r) AND 0x08000000 \<noteq> 0"
    "IsRxChannel r = 0 \<Longrightarrow> cr AND 0x04000000 \<noteq> 0"
    using ok unfolding tohw_ok_def j last_ring_seg by (simp_all add: ring_seg_Suc pre cr)
  have sk: "XAXIDMA_RING_SEEKAHEAD r (PreHead r) (int k) = ring_at r ((?s + k) mod ring_size r)"
    using seekahead_at [OF g bdptr.idx_less [OF g], of k ?s] n j
    unfolding pre by (simp add: mod_add_left_Suc del: of_nat_Suc)
  have "h + k - 1 = h + j"
    by (simp add: j)
  then have "ring_view ?r i q (h + k) p f"
    unfolding ring_view_def using v k bdptr.idx_less [OF g] by (simp add: sk) (simp add: ring_view_def add.assoc)
  moreover have "XAxiDma_BdRingToHw B r (int k) (PreHead r) RingIndex w = (XST_SUCCESS, ?r, ?w)"
  proof -
    have "\<not> int k < 0" and "int k \<noteq> 0" and "\<not> PreCnt r < int k" and "nat (int k - 1) = j"
      using v k j by (simp_all add: ring_view_def)
    with loop len flags mem [folded j] show ?thesis
      by (simp add: XAxiDma_BdRingToHw_def Let_def tohw_dev_def XAxiDma_WriteReg_def XIo_Out32_def
          BdRing_tdesc_offset_def XAXIDMA_VIRT_TO_PHYS_def)
  qed
  ultimately show thesis
    by (intro that [of ?r ?w]) (simp_all add: j last_ring_seg)
qed

text \<open>When a check fails, the descriptors before the offending one may already have lost their
  completed bit; nothing else has changed.\<close>

lemma tohw_loop_partial:
  fixes s :: nat
  assumes g: "ring_geom r" and j: "j < ring_size r"
  defines "b \<equiv> ring_at r ((s + j) mod ring_size r)"
  obtains n res where "n \<le> j" and
    "BdRingToHw_loop j r (ring_at r (s mod ring_size r))
        (XAxiDma_BdGetCtrl m (ring_at r (s mod ring_size r)))
        (XAxiDma_BdGetSts m (ring_at r (s mod ring_size r))) m
      = (res, tohw_mem m (take n (ring_seg r s (Suc j))))"
    and "\<And>c cr sts. res = Some (c, cr, sts) \<Longrightarrow> c = b \<and> list_all (bd_len_ok r m) (ring_seg r s j)
          \<and> cr AND 0x04000000 = XAxiDma_BdRead m b 0x18 AND 0x04000000"
proof (cases j)
  case 0
  then show thesis
    by (intro that [of 0 "Some (b, XAxiDma_BdGetCtrl m b, XAxiDma_BdGetSts m b)"]) (auto simp: b_def)
next
  case (Suc l)
  let ?b0 = "ring_at r (s mod ring_size r)" and ?mid = "ring_seg r (Suc s) l"
  let ?ok = "takeWhile (bd_len_ok r m) ?mid"
  have l: "Suc l < ring_size r" using j Suc by simp
  note first = tohw_loop_first [OF g l, of s "XAxiDma_BdGetCtrl m ?b0" "XAxiDma_BdGetSts m ?b0" m]
  have seg: "ring_seg r s (Suc j) = ?b0 # ?mid @ [b]" "ring_seg r s j = ?b0 # ?mid"
    by (simp_all add: Suc b_def ring_seg_Suc [of r s] ring_seg_snoc [of r "Suc s"])
  show thesis
  proof (cases "bd_len_ok r m ?b0")
    case False
    then show thesis
      using first Suc by (intro that [of 0 None]) (simp_all add: Let_def del: BdRingToHw_loop.simps)
  next
    case True
    have "?ok = take (length ?ok) ?mid"
      by (rule takeWhile_eq_take)
    then have "take (Suc (length ?ok)) (ring_seg r s (Suc j)) = ?b0 # ?ok"
      using length_takeWhile_le [of "bd_len_ok r m" ?mid] by (simp add: seg)
    moreover have "length ?ok = l \<Longrightarrow> list_all (bd_len_ok r m) (ring_seg r s j)"
      using takeWhile_length_iff [of "bd_len_ok r m" ?mid] True seg(2) by simp
    moreover have "length ?ok \<le> l"
      using length_takeWhile_le [of "bd_len_ok r m" ?mid] by simp
    ultimately show thesis
      using first True Suc
      by (intro that [of "Suc (length ?ok)" "if length ?ok = l then Some (b, XAxiDma_BdRead m b 0x18, XAxiDma_BdRead m b 0x1C) else None"])
        (auto simp: Let_def b_def simp del: BdRingToHw_loop.simps split: if_splits)
  qed
qed

lemma tohw_mem_frame:
  assumes "set xs \<subseteq> ring_at r ` {..<ring_size r}" and "ring_geom r" and "j < ring_size r"
  shows "XAxiDma_BdRead (tohw_mem m xs) (ring_at r j) 0x18 = XAxiDma_BdRead m (ring_at r j) 0x18"
  using assms by (cases xs) (auto simp: clear_complete_writes(2))

lemma tohw_failure:
  assumes v: "ring_view r i q h (k + p) f" and k: "0 < k"
    and bad: "\<not> tohw_ok r (ram w) (ring_seg r (i + q + h) k)"
  obtains n where "n < k" and "XAxiDma_BdRingToHw B r (int k) (PreHead r) RingIndex w
    = (XST_FAILURE, r, w\<lparr>ram := tohw_mem (ram w) (take n (ring_seg r (i + q + h) k))\<rparr>)"
proof -
  let ?s = "i + q + h" and ?m = "ram w"
  obtain j where j: "k = Suc j" using k by (cases k) auto
  let ?b = "ring_at r ((?s + j) mod ring_size r)"
  have g: "ring_geom r" and n: "j < ring_size r"
    and pre: "PreHead r = ring_at r (?s mod ring_size r)"
    and cnt: "\<not> int k < 0" "int k \<noteq> 0" "\<not> PreCnt r < int k" "nat (int k - 1) = j"
    using v k j by (simp_all add: ring_view_def)
  obtain nn res where nn: "nn \<le> j" and loop: "BdRingToHw_loop j r (PreHead r)
        (XAxiDma_BdGetCtrl ?m (PreHead r)) (XAxiDma_BdGetSts ?m (PreHead r)) ?m
      = (res, tohw_mem ?m (take nn (ring_seg r ?s k)))"
    and res: "\<And>c cr sts. res = Some (c, cr, sts) \<Longrightarrow> c = ?b \<and> list_all (bd_len_ok r ?m) (ring_seg r ?s j)
          \<and> cr AND 0x04000000 = XAxiDma_BdRead ?m ?b 0x18 AND 0x04000000"
    using tohw_loop_partial [OF g n, of ?s ?m] unfolding pre j by metis
  let ?m' = "tohw_mem ?m (take nn (ring_seg r ?s k))"
  show thesis
  proof (cases "IsRxChannel r = 0 \<and> XAxiDma_BdGetCtrl ?m (PreHead r) AND 0x08000000 = 0")
    case True
    with cnt k show thesis
      by (intro that [of 0]) (simp_all add: XAxiDma_BdRingToHw_def Let_def)
  next
    case sof: False
    have "XAxiDma_BdRingToHw B r (int k) (PreHead r) RingIndex w = (XST_FAILURE, r, w\<lparr>ram := ?m'\<rparr>)"
    proof (cases res)
      case None
      with cnt sof loop show ?thesis
        by (auto simp add: XAxiDma_BdRingToHw_def Let_def)
    next
      case (Some x)
      then obtain c cr sts where x: "x = (c, cr, sts)" by (cases x)
      then have c: "c = ?b" "list_all (bd_len_ok r ?m) (ring_seg r ?s j)"
        "cr AND 0x04000000 = XAxiDma_BdRead ?m ?b 0x18 AND 0x04000000"
        using res Some by auto
      have "XAxiDma_BdRead ?m' ?b 0x18 = XAxiDma_BdRead ?m ?b 0x18"
        by (rule tohw_mem_frame [OF _ g bdptr.idx_less [OF g]])
          (meson g order.trans set_ring_seg set_take_subset)
      moreover have "IsRxChannel r = 0 \<and> cr AND 0x04000000 = 0 \<or> \<not> bd_len_ok r ?m ?b"
        using bad sof c unfolding tohw_ok_def j last_ring_seg
        by (auto simp: ring_seg_snoc [of _ _ j] pre) (auto simp: ring_seg_Suc ring_seg_snoc [symmetric])
      ultimately show ?thesis
        using cnt sof loop Some x c
        by (auto simp add: XAxiDma_BdRingToHw_def Let_def bd_len_ok_def XAxiDma_BdGetLength_def)
    qed
    with nn j show thesis
      by (intro that [of nn]) simp_all
  qed
qed

end
