(* ===== verification/Ring_Create.thy ===== *)
theory Ring_Create
  imports Ring_ToHw
begin

unbundle bit_operations_syntax

text \<open>
  \<^verbatim>\<open>XAxiDma_BdRingCreate\<close> builds a ring that satisfies the invariant, with the next pointers
  closing a cycle; \<^verbatim>\<open>XAxiDma_BdRingClone\<close> fills the descriptors from a template and
  \<^verbatim>\<open>XAxiDma_BdRingCheck\<close> recognises exactly the well-linked halted rings.
\<close>

section \<open>Predicates on the descriptors of a ring\<close>

definition ring_linked :: "XAxiDma_BdRing \<Rightarrow> memory \<Rightarrow> bool" where
  "ring_linked r m \<longleftrightarrow> list_all (\<lambda>i. XAxiDma_BdRead m (ring_at r i) XAXIDMA_BD_NDESC_OFFSET
     = FirstBdPhysAddr r + Separation r * of_nat (Suc i mod ring_size r)) [0..<ring_size r]"

definition ring_hwinfo :: "XAxiDma_BdRing \<Rightarrow> memory \<Rightarrow> bool" where
  "ring_hwinfo r m \<longleftrightarrow> list_all (\<lambda>i.
     XAxiDma_BdRead m (ring_at r i) XAXIDMA_BD_HAS_STSCNTRL_OFFSET = word_of_int (HasStsCntrlStrm r)
     \<and> XAxiDma_BdRead m (ring_at r i) XAXIDMA_BD_HAS_DRE_OFFSET = BdRing_dre_word r) [0..<ring_size r]"

section \<open>Powers of two\<close>

lemma and_pred_nat: "0 < x \<Longrightarrow> (x :: nat) AND (x - 1) = 0 \<Longrightarrow> \<exists>a. x = 2 ^ a"
proof (induction x rule: less_induct)
  case (less x)
  show ?case
  proof (cases "even x")
    case True
    then obtain y where y: "x = 2 * y" ..
    with less.prems(1) have "0 < y" and "(x - 1) div 2 = y - 1" and "x div 2 = y" by auto
    moreover have "x AND (x - 1)
        = of_bool (odd x \<and> odd (x - 1)) + 2 * ((x div 2) AND ((x - 1) div 2))"
      by (rule and_nat_rec)
    ultimately have "y AND (y - 1) = 0"
      using less.prems(2) by (metis add_is_0 mult_is_0 zero_neq_numeral)
    with less.IH [of y] \<open>0 < y\<close> y obtain a where "y = 2 ^ a" by auto
    then have "x = 2 ^ Suc a" using y by simp
    then show ?thesis ..
  next
    case False
    then obtain y where y: "x = 2 * y + 1" by (rule oddE)
    moreover have "x AND (x - 1)
        = of_bool (odd x \<and> odd (x - 1)) + 2 * ((x div 2) AND ((x - 1) div 2))"
      by (rule and_nat_rec)
    ultimately have "y = 0"
      using less.prems(2) by simp
    with y have "x = 2 ^ 0" by simp
    then show ?thesis ..
  qed
qed

lemma and_pred_word:
  fixes x :: u32
  assumes "x \<noteq> 0" and "(x - 1) AND x = 0"
  obtains a where "a < 32" and "x = 2 ^ a"
proof -
  have pos: "0 < unat x" using assms(1) by (simp add: unat_gt_0)
  then have "1 \<le> x" by (simp add: word_le_nat_alt)
  then have "unat (x - 1) = unat x - 1"
    by (simp add: unat_sub_of_le)
  moreover have "unat ((x - 1) AND x) = 0" using assms(2) by simp
  ultimately have "unat x AND (unat x - 1) = 0"
    by (simp add: unsigned_and_eq and.commute)
  with and_pred_nat [OF pos] obtain a where a: "unat x = 2 ^ a" by auto
  have "a < 32"
  proof (rule ccontr)
    assume "\<not> a < 32"
    then have "(2 :: nat) ^ 32 \<le> 2 ^ a" by (intro power_increasing) auto
    with a unat_u32_bound [of x] show False by simp
  qed
  moreover have "x = 2 ^ a"
  proof -
    have "x = of_nat (unat x)" by simp
    then show ?thesis by (simp add: a)
  qed
  ultimately show thesis by (rule that)
qed

lemma separation_eq:
  fixes A :: u32
  assumes "64 \<le> A" and "(A - 1) AND A = 0"
  shows "(64 + (A - 1)) AND NOT (A - 1) = A"
proof -
  obtain a where a: "a < 32" "A = 2 ^ a"
    by (rule and_pred_word [of A]) (use assms in auto)
  have "\<not> a < 6"
  proof
    assume "a < 6"
    then have "a = 0 \<or> a = 1 \<or> a = 2 \<or> a = 3 \<or> a = 4 \<or> a = 5" by auto
    with a assms(1) show False by (auto simp: word_le_nat_alt)
  qed
  then have "a \<in> set [6..<32]"
    using a by (simp only: set_upt atLeastLessThan_iff not_less)
  then show ?thesis
    unfolding a(2) by (simp add: upt_rec) (elim disjE; simp)
qed

section \<open>Linking the descriptors\<close>

lemma link_cong:
  "HasStsCntrlStrm r = HasStsCntrlStrm r' \<Longrightarrow> BdRing_dre_word r = BdRing_dre_word r'
    \<Longrightarrow> BdRingCreate_link r = BdRingCreate_link r'"
  by (simp add: fun_eq_iff BdRingCreate_link_def)

lemma read_link_same:
  "XAxiDma_BdRead (BdRingCreate_link r m b v) b 0 = v"
  "XAxiDma_BdRead (BdRingCreate_link r m b v) b 0x38 = word_of_int (HasStsCntrlStrm r)"
  "XAxiDma_BdRead (BdRingCreate_link r m b v) b 0x3C = BdRing_dre_word r"
  by (simp_all add: BdRingCreate_link_def BdRead_BdWrite_other separate4_def)

lemma read_link_word:
  assumes "separate4 0 off" and "separate4 0x38 off" and "separate4 0x3C off"
  shows "XAxiDma_BdRead (BdRingCreate_link r m b v) b off = XAxiDma_BdRead m b off"
  using assms by (simp add: BdRingCreate_link_def BdRead_BdWrite_other)

lemma read_link_other:
  assumes "ring_geom r" and "i < ring_size r" and "j < ring_size r" and "i \<noteq> j"
    and "unat off + 4 \<le> 64"
  shows "XAxiDma_BdRead (BdRingCreate_link r' m (ring_at r i) v) (ring_at r j) off
    = XAxiDma_BdRead m (ring_at r j) off"
proof -
  have "separate4 (ring_at r i + o') (ring_at r j + off)" if "unat o' + 4 \<le> 64" for o'
    using assms that by (intro bd_words_separate) auto
  from this [of 0] this [of "0x38"] this [of "0x3C"] show ?thesis
    by (simp add: BdRingCreate_link_def BdRead_BdWrite_far)
qed

text \<open>The loop and the final write, as one pass over all indices.\<close>

definition link_all :: "XAxiDma_BdRing \<Rightarrow> (nat \<Rightarrow> u32) \<Rightarrow> nat list \<Rightarrow> memory \<Rightarrow> memory" where
  "link_all r nxt = fold (\<lambda>j m. BdRingCreate_link r m (ring_at r j) (nxt j))"

lemma create_loop_fold:
  "BdRingCreate_loop k r m (V + Separation r * of_nat a) (P + Separation r * of_nat (Suc a))
    = (fold (\<lambda>j m. BdRingCreate_link r m (V + Separation r * of_nat j)
          (P + Separation r * of_nat (Suc j))) [a..<a + k] m,
       V + Separation r * of_nat (a + k))"
proof (induction k arbitrary: a m)
  case (Suc k)
  have "[a..<a + Suc k] = a # [Suc a..<Suc a + k]"
    by (simp add: upt_rec)
  then show ?case
    using Suc.IH [of "BdRingCreate_link r m (V + Separation r * of_nat a)
      (P + Separation r * of_nat (Suc a))" "Suc a"] by (simp add: algebra_simps del: upt_Suc)
qed simp

lemma link_all_snoc [simp]:
  "link_all r nxt (js @ [j]) m = BdRingCreate_link r (link_all r nxt js m) (ring_at r j) (nxt j)"
  "link_all r nxt [] m = m"
  by (simp_all add: link_all_def)

lemma link_all_touched:
  assumes g: "ring_geom r" and i: "i < ring_size r"
  shows "set js \<subseteq> {..<ring_size r} \<Longrightarrow> i \<in> set js \<Longrightarrow>
    \<exists>m'. \<forall>off. unat off + 4 \<le> 64 \<longrightarrow> XAxiDma_BdRead (link_all r nxt js m) (ring_at r i) off
      = XAxiDma_BdRead (BdRingCreate_link r m' (ring_at r i) (nxt i)) (ring_at r i) off"
proof (induction js rule: rev_induct)
  case (snoc j js)
  show ?case
  proof (cases "j = i")
    case True
    then show ?thesis by auto
  next
    case False
    with snoc show ?thesis
      by (auto simp: read_link_other [OF g _ i])
  qed
qed simp

lemma read_link_all:
  assumes "ring_geom r" and "i < ring_size r" and "set js \<subseteq> {..<ring_size r}" and "i \<in> set js"
  shows "XAxiDma_BdRead (link_all r nxt js m) (ring_at r i) 0 = nxt i"
    and "XAxiDma_BdRead (link_all r nxt js m) (ring_at r i) 0x38 = word_of_int (HasStsCntrlStrm r)"
    and "XAxiDma_BdRead (link_all r nxt js m) (ring_at r i) 0x3C = BdRing_dre_word r"
  using link_all_touched [OF assms, of nxt m] by (auto simp: read_link_same)

lemma read_link_all_word:
  assumes g: "ring_geom r" and i: "i < ring_size r"
    and off: "separate4 0 off" "separate4 0x38 off" "separate4 0x3C off" "unat off + 4 \<le> 64"
  shows "set js \<subseteq> {..<ring_size r} \<Longrightarrow>
    XAxiDma_BdRead (link_all r nxt js m) (ring_at r i) off = XAxiDma_BdRead m (ring_at r i) off"
proof (induction js arbitrary: m rule: rev_induct)
  case (snoc j js)
  then show ?case
    by (cases "j = i") (auto simp: read_link_word [OF off(1-3)] read_link_other [OF g _ i _ off(4)])
qed simp

section \<open>A new ring\<close>

definition create_ring :: "XAxiDma_BdRing \<Rightarrow> u32 \<Rightarrow> u32 \<Rightarrow> u32 \<Rightarrow> nat \<Rightarrow> XAxiDma_BdRing" where
  "create_ring r P V A n = r\<lparr>AllCnt := int n, FreeCnt := int n, HwCnt := 0, PreCnt := 0, PostCnt := 0,
     Separation := A, RunState := AXIDMA_CHANNEL_HALTED, FirstBdAddr := V, FirstBdPhysAddr := P,
     LastBdAddr := V + A * of_nat (n - 1), Length := A * of_nat n, FreeHead := V, PreHead := V,
     HwHead := V, HwTail := V, PostHead := V, BdaRestart := P\<rparr>"

text \<open>When the arguments are valid and the ring fits below the end of the address space.\<close>

definition create_args :: "u32 \<Rightarrow> u32 \<Rightarrow> u32 \<Rightarrow> nat \<Rightarrow> bool" where
  "create_args P V A n \<longleftrightarrow> 0 < n \<and> 64 \<le> A \<and> (A - 1) AND A = 0 \<and> P mod A = 0 \<and> V mod A = 0
     \<and> unat A * n < 4294967296 \<and> unat V + unat A * n \<le> 4294967296"

lemma create_geom:
  assumes "create_args P V A n"
  shows "ring_geom (create_ring r P V A n)" and "ring_size (create_ring r P V A n) = n"
    and "ring_at (create_ring r P V A n) i = V + A * of_nat i"
  using assms
  by (simp_all add: create_args_def create_ring_def ring_geom_def ring_size_def ring_at_def)

lemma create_view: "create_args P V A n \<Longrightarrow> ring_view (create_ring r P V A n) 0 0 0 0 n"
  using ring_idx_at [OF create_geom(1), of P V A n 0 r]
  by (simp add: ring_view_def create_geom) (simp add: create_ring_def create_args_def)

lemma link_all_fold:
  fixes r :: XAxiDma_BdRing
  assumes "n = Suc k" and "create_args P V A n"
  defines "r' \<equiv> create_ring r P V A n"
  shows "link_all r' (\<lambda>j. P + A * of_nat (Suc j mod n)) [0..<n] m
    = BdRingCreate_link r (fold (\<lambda>j m. BdRingCreate_link r m (V + A * of_nat j)
          (P + A * of_nat (Suc j))) [0..<k] m) (V + A * of_nat k) P"
proof -
  have link: "BdRingCreate_link r' = BdRingCreate_link r"
    by (rule link_cong) (simp_all add: r'_def create_ring_def BdRing_dre_word_def)
  have "fold (\<lambda>j m. BdRingCreate_link r m (V + A * of_nat j) (P + A * of_nat (Suc j mod n))) [0..<k] m
      = fold (\<lambda>j m. BdRingCreate_link r m (V + A * of_nat j) (P + A * of_nat (Suc j))) [0..<k] m"
    using assms(1) by (intro fold_cong) auto
  then show ?thesis
    unfolding link_all_def link
    unfolding r'_def create_geom(3) [OF assms(2)]
    using assms(1) by (simp del: of_nat_Suc)
qed

lemma no_span:
  assumes "create_args P V A n"
  shows "\<not> V > V + A * of_nat n - 1" and "unat (A * of_nat n) = unat A * n"
proof -
  have "1 * n \<le> unat A * n"
    using assms by (intro mult_le_mono1) (auto simp: create_args_def word_le_nat_alt)
  then have "n < 4294967296"
    using assms unfolding create_args_def by linarith
  then have "unat (of_nat n :: u32) = n"
    by (rule unat_of_nat_u32)
  then show len: "unat (A * of_nat n) = unat A * n"
    using assms by (simp add: unat_mult_nowrap create_args_def)
  have pos: "0 < unat A * n"
    using assms by (auto simp: create_args_def word_le_nat_alt)
  then have "1 \<le> A * of_nat n"
    using len by (simp add: word_le_nat_alt)
  then have "unat (A * of_nat n - 1) = unat A * n - 1"
    using len by (simp add: unat_sub_of_le)
  moreover have "unat V + (unat A * n - 1) < 4294967296"
    using assms pos unfolding create_args_def by linarith
  ultimately have "unat (V + (A * of_nat n - 1)) = unat V + (unat A * n - 1)"
    using unat_add_nowrap [of V "A * of_nat n - 1"] by simp
  then show "\<not> V > V + A * of_nat n - 1"
    by (simp add: word_less_nat_alt add_diff_eq [symmetric])
qed

lemma create_result:
  assumes "create_args P V A n"
  shows "XAxiDma_BdRingCreate r P V A (int n) m
    = (XST_SUCCESS, create_ring r P V A n,
       link_all (create_ring r P V A n) (\<lambda>j. P + A * of_nat (Suc j mod n)) [0..<n]
         (memset m V 0 (unat A * n)))"
proof -
  obtain k where k: "n = Suc k"
    using assms by (cases n) (auto simp: create_args_def)
  let ?r = "r\<lparr>AllCnt := 0, FreeCnt := 0, HwCnt := 0, PreCnt := 0, PostCnt := 0, Separation := A\<rparr>"
  let ?m = "memset m V 0 (unat A * n)"
  have args: "\<not> int n \<le> 0" "\<not> A < 64" "(A - 1) AND A = 0" "P mod A = 0" "V mod A = 0"
    using assms by (auto simp: create_args_def)
  have sep: "(64 + (A - 1)) AND NOT (A - 1) = A"
    using assms by (intro separation_eq) (auto simp: create_args_def)
  have loop: "BdRingCreate_loop (nat (int n - 1)) ?r ?m V (P + A)
    = (fold (\<lambda>j m. BdRingCreate_link ?r m (V + A * of_nat j) (P + A * of_nat (Suc j))) [0..<k] ?m,
       V + A * of_nat k)"
    using create_loop_fold [of k ?r ?m V 0 P] by (simp add: k)
  have ring: "create_ring r P V A n = create_ring ?r P V A n"
    by (simp add: create_ring_def)
  have final: "?r\<lparr>RunState := 2, FirstBdAddr := V, FirstBdPhysAddr := P,
      LastBdAddr := V + A * of_nat k, Length := V + A * of_nat k - V + A, AllCnt := int n,
      FreeCnt := int n, FreeHead := V, PreHead := V, HwHead := V, HwTail := V, PostHead := V,
      BdaRestart := P\<rparr> = create_ring r P V A n"
    by (cases r) (simp add: create_ring_def k algebra_simps)
  show ?thesis
    unfolding XAxiDma_BdRingCreate_def Let_def sep
    using args no_span [OF assms] loop final
    by (simp add: link_all_fold [OF k assms, of ?r, folded ring])
qed

lemma create_memory:
  fixes r :: XAxiDma_BdRing and m :: memory
  assumes args: "create_args P V A n"
  defines "m' \<equiv> snd (snd (XAxiDma_BdRingCreate r P V A (int n) m))"
  shows "ring_linked (create_ring r P V A n) m'" and "ring_hwinfo (create_ring r P V A n) m'"
    and "i < n \<Longrightarrow> 4 \<le> unat off \<Longrightarrow> unat off + 4 \<le> 56 \<Longrightarrow>
      XAxiDma_BdRead m' (ring_at (create_ring r P V A n) i) off = 0"
proof -
  let ?r = "create_ring r P V A n"
  note g = create_geom(1) [OF args, of r] and sz = create_geom(2) [OF args, of r]
  have m': "m' = link_all ?r (\<lambda>j. P + A * of_nat (Suc j mod n)) [0..<n] (memset m V 0 (unat A * n))"
    by (simp add: m'_def create_result [OF args])
  have js: "set [0..<n] \<subseteq> {..<ring_size ?r}" by (auto simp: sz)
  have fields: "FirstBdPhysAddr ?r = P" "Separation ?r = A" "FirstBdAddr ?r = V"
    by (simp_all add: create_ring_def)
  have read: "XAxiDma_BdRead m' (ring_at ?r i) 0 = P + A * of_nat (Suc i mod n)"
    "XAxiDma_BdRead m' (ring_at ?r i) 0x38 = word_of_int (HasStsCntrlStrm ?r)"
    "XAxiDma_BdRead m' (ring_at ?r i) 0x3C = BdRing_dre_word ?r" if "i < n" for i
    using read_link_all [OF g _ js] that sz unfolding m' by simp_all
  show "ring_linked ?r m'" and "ring_hwinfo ?r m'"
    using read by (simp_all add: ring_linked_def ring_hwinfo_def list_all_iff sz fields)
  show "XAxiDma_BdRead m' (ring_at ?r i) off = 0"
    if i: "i < n" and off: "4 \<le> unat off" "unat off + 4 \<le> 56"
  proof -
    have "unat off + 4 \<le> 64" using off by simp
    moreover have "separate4 0 off" "separate4 0x38 off" "separate4 0x3C off"
      using off by (intro separate4_unat; simp)+
    ultimately have "XAxiDma_BdRead m' (ring_at ?r i) off
        = XAxiDma_BdRead (memset m V 0 (unat A * n)) (ring_at ?r i) off"
      using read_link_all_word [OF g _ _ _ _ _ js] i sz unfolding m' by simp
    moreover have "unat A * i + unat A \<le> unat A * n"
      using mult_below [of "unat A" n "unat A * n" i] i by simp
    then have "inside (ring_at ?r i + off) V (unat A * n)"
      using unat_bd_word [OF g, of i off] i off sz ring_geomD(2) [OF g]
      by (intro insideI) (simp_all add: fields)
    ultimately show ?thesis
      by (simp add: XAxiDma_BdRead_def load32_memset_inside)
  qed
qed

section \<open>The check\<close>

lemma check_loop_result:
  "BdRingCheck_loop k r m (ring_at r a) (FirstBdPhysAddr r + Separation r * of_nat (Suc a))
    = (if list_all (\<lambda>i. XAxiDma_BdRead m (ring_at r i) 0 = FirstBdPhysAddr r + Separation r * of_nat (Suc i))
          [a..<a + k] then Some (ring_at r (a + k)) else None)"
proof (induction k arbitrary: a)
  case (Suc k)
  have "[a..<a + Suc k] = a # [Suc a..<Suc a + k]"
    by (simp add: upt_rec)
  then show ?case
    using Suc.IH [of "Suc a"] by (simp add: ring_at_Suc algebra_simps del: upt_Suc)
qed simp

lemma ring_linked_split:
  assumes "ring_size r = Suc k"
  shows "ring_linked r m \<longleftrightarrow>
    list_all (\<lambda>i. XAxiDma_BdRead m (ring_at r i) 0 = FirstBdPhysAddr r + Separation r * of_nat (Suc i)) [0..<k]
    \<and> XAxiDma_BdRead m (ring_at r k) 0 = FirstBdPhysAddr r"
  using assms by (auto simp: ring_linked_def list_all_iff simp del: of_nat_Suc)

lemma check_result:
  assumes v: "ring_view r i q h p f" and run: "RunState r = AXIDMA_CHANNEL_HALTED"
  shows "XAxiDma_BdRingCheck r m = (if ring_linked r m then XST_SUCCESS else XST_DMA_SG_LIST_ERROR)"
proof -
  have g: "ring_geom r" using v by (simp add: ring_view_def)
  obtain k where k: "ring_size r = Suc k"
    using ring_geomD(1) [OF g] by (cases "ring_size r") auto
  have in_range: "\<not> BdRing_out_of_range r (ring_at r j)" if "j < ring_size r" for j
    using that ring_at_less [OF g] ring_at_le [OF g] ring_geomD(1,5) [OF g]
    by (simp add: BdRing_out_of_range_def ring_at_0 [symmetric])
  have heads: "\<not> BdRing_out_of_range r (FreeHead r)" "\<not> BdRing_out_of_range r (PreHead r)"
    "\<not> BdRing_out_of_range r (HwHead r)" "\<not> BdRing_out_of_range r (HwTail r)"
    "\<not> BdRing_out_of_range r (PostHead r)"
    using v in_range bdptr.idx_less [OF g] unfolding ring_view_def by metis+
  have cnts: "HwCnt r + PreCnt r + FreeCnt r + PostCnt r = AllCnt r" "AllCnt r \<noteq> 0"
    "nat (AllCnt r - 1) = k"
    using v k ring_geomD(1,7) [OF g] by (auto simp: ring_view_def)
  have "Separation r * of_nat (Suc 0) = Separation r" by simp
  note loop = check_loop_result [of k r m 0, unfolded this ring_at_0 add_0]
  show ?thesis
    using heads cnts run ring_linked_split [OF k, of m]
    by (simp add: XAxiDma_BdRingCheck_def loop del: of_nat_Suc)
qed

section \<open>Cloning\<close>

lemma clone_copy_same:
  assumes "unat off + 4 \<le> 56" and "8 \<le> unat off"
  shows "XAxiDma_BdRead (memcpy_from m (b + 8) (\<lambda>a. T (8 + a)) 48) b off = XAxiDma_BdRead T 0 off"
proof -
  have "unat (off - 8) = unat off - 8"
    using assms(2) by (simp add: unat_sub_of_le word_le_nat_alt)
  then have "inside (b + off) (b + 8) 48"
    using assms by (simp add: inside_def)
  then have "load32 (memcpy_from m (b + 8) (\<lambda>a. T (8 + a)) 48) (b + off)
      = load32 (\<lambda>a. T (8 + a)) (b + off - (b + 8))"
    by (rule load32_memcpy_inside)
  also have "\<dots> = load32 T off"
    by (rule load32_cong) (simp add: algebra_simps)
  finally show ?thesis
    by (simp add: XAxiDma_BdRead_def)
qed

lemma clone_copy_other:
  assumes g: "ring_geom r" and j: "j < ring_size r" and i: "i < ring_size r"
    and off: "unat off + 4 \<le> 64" and ne: "i \<noteq> j \<or> unat off + 4 \<le> 8 \<or> 56 \<le> unat off"
  shows "XAxiDma_BdRead (memcpy_from m (ring_at r j + 8) src 48) (ring_at r i) off
    = XAxiDma_BdRead m (ring_at r i) off"
proof -
  have p: "unat (ring_at r j + 8) = unat (FirstBdAddr r) + unat (Separation r) * j + 8"
    using unat_bd_word [OF g j, of 8] by simp
  have "outside (ring_at r i + off) (ring_at r j + 8) 48"
  proof (cases "i = j")
    case True
    with ne off p bd_room [OF g j] ring_geomD(2) [OF g] unat_bd_word [OF g i off] show ?thesis
      by (intro outsideI) auto
  next
    case False
    with off p bd_room [OF g j] bd_room [OF g i] ring_geomD(2) [OF g] unat_bd_word [OF g i off]
      bd_gap [OF False, of r] show ?thesis
      by (intro outsideI) linarith+
  qed
  then show ?thesis
    by (simp add: XAxiDma_BdRead_def load32_memcpy_outside)
qed

lemma clone_loop_read:
  assumes g: "ring_geom r" and i: "i < ring_size r" and off: "unat off + 4 \<le> 64"
    and aligned: "unat off + 4 \<le> 8 \<or> 8 \<le> unat off \<and> unat off + 4 \<le> 56 \<or> 56 \<le> unat off"
  shows "a + k \<le> ring_size r \<Longrightarrow>
    XAxiDma_BdRead (BdRingClone_loop k r T m (ring_at r a)) (ring_at r i) off
    = (if a \<le> i \<and> i < a + k \<and> 8 \<le> unat off \<and> unat off + 4 \<le> 56 then XAxiDma_BdRead T 0 off
       else XAxiDma_BdRead m (ring_at r i) off)"
proof (induction k arbitrary: a m)
  case (Suc k)
  have a: "a < ring_size r" and "Suc a + k \<le> ring_size r" using Suc.prems by simp_all
  then show ?case
    using Suc.IH [of "Suc a"] aligned clone_copy_other [OF g a i off] clone_copy_same [of off]
    by (cases "a = i") (auto simp: ring_at_Suc)
qed auto

end
