(* ===== verification/Bdring_Hw.thy ===== *)
theory Bdring_Hw
  imports Ring_Create
begin

unbundle bit_operations_syntax

text \<open>
  The ring operations that drive the channel's registers, from
  \<^verbatim>\<open>linux-drv/xaxidma_bdring.c\<close> and the macros of \<^verbatim>\<open>linux-drv/xaxidma_bdring.h\<close>: loading the
  current descriptor, starting the channel, interrupt coalescing, interrupt enable and
  acknowledge. Every register access goes through the bus.
\<close>

section \<open>Status and interrupt macros\<close>

definition XAxiDma_mBdRingSnapShotCurrBd ::
  "'d bus \<Rightarrow> XAxiDma_BdRing \<Rightarrow> int \<Rightarrow> 'd world \<Rightarrow> XAxiDma_BdRing \<times> 'd world" where
  "XAxiDma_mBdRingSnapShotCurrBd B r RingIndex w =
    (if IsRxChannel r = 0 then
       let (v, w) = XAxiDma_ReadReg B (ChanBase r) XAXIDMA_CDESC_OFFSET w in (r\<lparr>BdaRestart := v\<rparr>, w)
     else if RingIndex = 0 then
       let (v, w) = XAxiDma_ReadReg B (ChanBase r) XAXIDMA_CDESC_OFFSET w in (r\<lparr>BdaRestart := v\<rparr>, w)
     else
       let (v, w) = XAxiDma_ReadReg B (ChanBase r)
             (XAXIDMA_RX_CDESC0_OFFSET + word_of_int (RingIndex - 1) * XAXIDMA_RX_NDESC_OFFSET) w
       in (r\<lparr>BdaRestart := v\<rparr>, w))"

definition XAxiDma_mBdRingGetCurrBd :: "'d bus \<Rightarrow> XAxiDma_BdRing \<Rightarrow> 'd world \<Rightarrow> u32 \<times> 'd world" where
  "XAxiDma_mBdRingGetCurrBd B r w = XAxiDma_ReadReg B (ChanBase r) XAXIDMA_CDESC_OFFSET w"

definition XAxiDma_mBdRingGetSr :: "'d bus \<Rightarrow> XAxiDma_BdRing \<Rightarrow> 'd world \<Rightarrow> u32 \<times> 'd world" where
  "XAxiDma_mBdRingGetSr B r w = XAxiDma_ReadReg B (ChanBase r) XAXIDMA_SR_OFFSET w"

definition XAxiDma_mBdRingGetError :: "'d bus \<Rightarrow> XAxiDma_BdRing \<Rightarrow> 'd world \<Rightarrow> u32 \<times> 'd world" where
  "XAxiDma_mBdRingGetError B r w =
    (let (v, w) = XAxiDma_ReadReg B (ChanBase r) XAXIDMA_SR_OFFSET w
     in (v AND XAXIDMA_ERR_ALL_MASK, w))"

definition XAxiDma_mBdRingHwIsStarted :: "'d bus \<Rightarrow> XAxiDma_BdRing \<Rightarrow> 'd world \<Rightarrow> bool \<times> 'd world" where
  "XAxiDma_mBdRingHwIsStarted B r w =
    (let (v, w) = XAxiDma_ReadReg B (ChanBase r) XAXIDMA_SR_OFFSET w
     in (v AND XAXIDMA_HALTED_MASK = 0, w))"

definition XAxiDma_mBdRingIntEnable ::
  "'d bus \<Rightarrow> XAxiDma_BdRing \<Rightarrow> u32 \<Rightarrow> 'd world \<Rightarrow> 'd world" where
  "XAxiDma_mBdRingIntEnable B r Mask w =
    (let (v, w) = XAxiDma_ReadReg B (ChanBase r) XAXIDMA_CR_OFFSET w
     in XAxiDma_WriteReg B (ChanBase r) XAXIDMA_CR_OFFSET (v OR (Mask AND XAXIDMA_IRQ_ALL_MASK)) w)"

definition XAxiDma_mBdRingIntGetEnabled :: "'d bus \<Rightarrow> XAxiDma_BdRing \<Rightarrow> 'd world \<Rightarrow> u32 \<times> 'd world" where
  "XAxiDma_mBdRingIntGetEnabled B r w =
    (let (v, w) = XAxiDma_ReadReg B (ChanBase r) XAXIDMA_CR_OFFSET w
     in (v AND XAXIDMA_IRQ_ALL_MASK, w))"

definition XAxiDma_mBdRingIntDisable ::
  "'d bus \<Rightarrow> XAxiDma_BdRing \<Rightarrow> u32 \<Rightarrow> 'd world \<Rightarrow> 'd world" where
  "XAxiDma_mBdRingIntDisable B r Mask w =
    (let (v, w) = XAxiDma_ReadReg B (ChanBase r) XAXIDMA_CR_OFFSET w
     in XAxiDma_WriteReg B (ChanBase r) XAXIDMA_CR_OFFSET
          (v AND NOT (Mask AND XAXIDMA_IRQ_ALL_MASK)) w)"

definition XAxiDma_mBdRingGetIrq :: "'d bus \<Rightarrow> XAxiDma_BdRing \<Rightarrow> 'd world \<Rightarrow> u32 \<times> 'd world" where
  "XAxiDma_mBdRingGetIrq B r w =
    (let (v, w) = XAxiDma_ReadReg B (ChanBase r) XAXIDMA_SR_OFFSET w
     in (v AND XAXIDMA_IRQ_ALL_MASK, w))"

definition XAxiDma_mBdRingAckIrq ::
  "'d bus \<Rightarrow> XAxiDma_BdRing \<Rightarrow> u32 \<Rightarrow> 'd world \<Rightarrow> 'd world" where
  "XAxiDma_mBdRingAckIrq B r Mask w =
    XAxiDma_WriteReg B (ChanBase r) XAXIDMA_SR_OFFSET (Mask AND XAXIDMA_IRQ_ALL_MASK) w"

section \<open>Loading the current descriptor\<close>

definition BdRing_cdesc_offset :: "XAxiDma_BdRing \<Rightarrow> int \<Rightarrow> u32" where
  "BdRing_cdesc_offset r RingIndex =
    (if IsRxChannel r \<noteq> 0
     then if RingIndex = 0 then XAXIDMA_CDESC_OFFSET
          else XAXIDMA_RX_CDESC0_OFFSET + word_of_int (RingIndex - 1) * XAXIDMA_RX_NDESC_OFFSET
     else XAXIDMA_CDESC_OFFSET)"

text \<open>
  The search \<^verbatim>\<open>while (XAxiDma_BdHwCompleted(BdPtr))\<close>. It ends by an error return when it is back at
  \<open>BdaRestart\<close>, by a register write and \<^verbatim>\<open>break\<close>, or by its condition. If \<open>BdaRestart\<close> is not
  the address of a descriptor of the ring nothing makes it stop, which is the value \<open>None\<close>.
\<close>

datatype cdesc_search = CDesc_Error | CDesc_Write u32 | CDesc_Exit

partial_function (option) UpdateBdRingCDesc_loop ::
  "XAxiDma_BdRing \<Rightarrow> memory \<Rightarrow> ptr \<Rightarrow> cdesc_search option" where
  [code]: "UpdateBdRingCDesc_loop r m BdPtr =
    (if XAxiDma_BdHwCompleted m BdPtr \<noteq> 0 then
       let BdPtr = XAxiDma_mBdRingNext r BdPtr;
           BdPtrPhy = XAXIDMA_VIRT_TO_PHYS r BdPtr
       in if BdPtrPhy = BdaRestart r then Some CDesc_Error
          else if XAxiDma_BdHwCompleted m BdPtr = 0 then Some (CDesc_Write BdPtrPhy)
          else UpdateBdRingCDesc_loop r m BdPtr
     else Some CDesc_Exit)"

definition XAxiDma_UpdateBdRingCDesc ::
  "'d bus \<Rightarrow> XAxiDma_BdRing \<Rightarrow> int \<Rightarrow> 'd world \<Rightarrow> (status \<times> 'd world) option" where
  "XAxiDma_UpdateBdRingCDesc B r RingIndex w =
    (if AllCnt r = 0 then Some (XST_DMA_SG_NO_LIST, w)
     else if RunState r = AXIDMA_CHANNEL_NOT_HALTED then Some (XST_SUCCESS, w)
     else let (started, w) = XAxiDma_mBdRingHwIsStarted B r w in
     if \<not> started then
       let RegBase = ChanBase r;
           BdPtrPhy = BdaRestart r;
           BdPtr = XAXIDMA_PHYS_TO_VIRT r (BdaRestart r)
       in if XAxiDma_BdHwCompleted (ram w) BdPtr = 0
          then Some (XST_SUCCESS,
            XAxiDma_WriteReg B RegBase (BdRing_cdesc_offset r RingIndex) BdPtrPhy w)
          else case UpdateBdRingCDesc_loop r (ram w) BdPtr of
            None \<Rightarrow> None
          | Some CDesc_Error \<Rightarrow> Some (XST_DMA_ERROR, w)
          | Some (CDesc_Write BdPtrPhy) \<Rightarrow> Some (XST_SUCCESS,
              XAxiDma_WriteReg B RegBase (BdRing_cdesc_offset r RingIndex) BdPtrPhy w)
          | Some CDesc_Exit \<Rightarrow> Some (XST_SUCCESS, w)
     else Some (XST_SUCCESS, w))"

section \<open>Starting the channel\<close>

definition XAxiDma_StartBdRingHw ::
  "'d bus \<Rightarrow> XAxiDma_BdRing \<Rightarrow> int \<Rightarrow> 'd world \<Rightarrow> status \<times> XAxiDma_BdRing \<times> 'd world" where
  "XAxiDma_StartBdRingHw B r RingIndex w =
    (let (started, w) = XAxiDma_mBdRingHwIsStarted B r w;
         w = (if \<not> started then
                let RegBase = ChanBase r;
                    (v, w) = XAxiDma_ReadReg B RegBase XAXIDMA_CR_OFFSET w
                in XAxiDma_WriteReg B RegBase XAXIDMA_CR_OFFSET (v OR XAXIDMA_CR_RUNSTOP_MASK) w
              else w);
         (started, w) = XAxiDma_mBdRingHwIsStarted B r w
     in if started then
          let r = r\<lparr>RunState := AXIDMA_CHANNEL_NOT_HALTED\<rparr>;
              w = (if HwCnt r > 0 \<and>
                      XAxiDma_BdRead (ram w) (HwTail r) XAXIDMA_BD_STS_OFFSET
                        AND XAXIDMA_BD_STS_COMPLETE_MASK = 0
                   then XAxiDma_WriteReg B (ChanBase r) (BdRing_tdesc_offset r RingIndex)
                          (XAXIDMA_VIRT_TO_PHYS r (HwTail r)) w
                   else w)
          in (XST_SUCCESS, r, w)
        else (XST_DMA_ERROR, r, w))"

definition XAxiDma_BdRingStart ::
  "'d bus \<Rightarrow> XAxiDma_BdRing \<Rightarrow> int \<Rightarrow> 'd world \<Rightarrow> (status \<times> XAxiDma_BdRing \<times> 'd world) option" where
  "XAxiDma_BdRingStart B r RingIndex w =
    (case XAxiDma_UpdateBdRingCDesc B r RingIndex w of
       None \<Rightarrow> None
     | Some (Status, w) \<Rightarrow>
         if Status \<noteq> XST_SUCCESS then Some (Status, r, w)
         else let (Status, r, w) = XAxiDma_StartBdRingHw B r RingIndex w in
         if Status \<noteq> XST_SUCCESS then Some (Status, r, w)
         else Some (XST_SUCCESS, r, w))"

section \<open>Interrupt coalescing\<close>

definition XAxiDma_BdRingSetCoalesce ::
  "'d bus \<Rightarrow> XAxiDma_BdRing \<Rightarrow> u32 \<Rightarrow> u32 \<Rightarrow> 'd world \<Rightarrow> status \<times> 'd world" where
  "XAxiDma_BdRingSetCoalesce B r Counter Timer w =
    (let (Cr, w) = XAxiDma_ReadReg B (ChanBase r) XAXIDMA_CR_OFFSET w in
     if Counter \<noteq> XAXIDMA_NO_CHANGE \<and> (Counter = 0 \<or> Counter > 0xFF) then (XST_FAILURE, w)
     else let Cr = (if Counter \<noteq> XAXIDMA_NO_CHANGE
                    then (Cr AND NOT XAXIDMA_COALESCE_MASK) OR push_bit XAXIDMA_COALESCE_SHIFT Counter
                    else Cr) in
     if Timer \<noteq> XAXIDMA_NO_CHANGE \<and> Timer > 0xFF then (XST_FAILURE, w)
     else let Cr = (if Timer \<noteq> XAXIDMA_NO_CHANGE
                    then (Cr AND NOT XAXIDMA_DELAY_MASK) OR push_bit XAXIDMA_DELAY_SHIFT Timer
                    else Cr)
     in (XST_SUCCESS, XAxiDma_WriteReg B (ChanBase r) XAXIDMA_CR_OFFSET Cr w))"

text \<open>The result is \<^verbatim>\<open>*CounterPtr\<close> and \<^verbatim>\<open>*TimerPtr\<close>.\<close>

definition XAxiDma_BdRingGetCoalesce ::
  "'d bus \<Rightarrow> XAxiDma_BdRing \<Rightarrow> 'd world \<Rightarrow> (u32 \<times> u32) \<times> 'd world" where
  "XAxiDma_BdRingGetCoalesce B r w =
    (let (Cr, w) = XAxiDma_ReadReg B (ChanBase r) XAXIDMA_CR_OFFSET w
     in ((drop_bit XAXIDMA_COALESCE_SHIFT (Cr AND XAXIDMA_COALESCE_MASK),
          drop_bit XAXIDMA_DELAY_SHIFT (Cr AND XAXIDMA_DELAY_MASK)), w))"

section \<open>The search for the current descriptor\<close>

text \<open>\<open>BdaRestart\<close> is the physical address of a descriptor of the ring.\<close>

definition restart_idx :: "XAxiDma_BdRing \<Rightarrow> nat" where
  "restart_idx r = ring_idx r (XAXIDMA_PHYS_TO_VIRT r (BdaRestart r))"

definition restart_ok :: "XAxiDma_BdRing \<Rightarrow> bool" where
  "restart_ok r \<longleftrightarrow> restart_idx r < ring_size r
     \<and> XAXIDMA_PHYS_TO_VIRT r (BdaRestart r) = ring_at r (restart_idx r)"

text \<open>The first descriptor, going round from \<open>BdaRestart\<close>, that is not completed.\<close>

definition first_uncompleted :: "XAxiDma_BdRing \<Rightarrow> memory \<Rightarrow> ptr option" where
  "first_uncompleted r m = find (\<lambda>b. \<not> bd_done m b) (ring_seg r (restart_idx r) (ring_size r))"

lemma virt_to_phys_eq [simp]: "XAXIDMA_VIRT_TO_PHYS r a = XAXIDMA_VIRT_TO_PHYS r b \<longleftrightarrow> a = b"
  by (simp add: XAXIDMA_VIRT_TO_PHYS_def)

lemma cdesc_loop_result:
  assumes g: "ring_geom r" and n: "d + Suc k = ring_size r"
    and start: "BdaRestart r = XAXIDMA_VIRT_TO_PHYS r (ring_at r (s mod ring_size r))"
    and c: "bd_done m (ring_at r ((s + d) mod ring_size r))"
  shows "UpdateBdRingCDesc_loop r m (ring_at r ((s + d) mod ring_size r))
    = Some (case find (\<lambda>b. \<not> bd_done m b) (ring_seg r (Suc (s + d)) k) of
        None \<Rightarrow> CDesc_Error | Some b \<Rightarrow> CDesc_Write (XAXIDMA_VIRT_TO_PHYS r b))"
  using n c
proof (induction k arbitrary: d)
  case 0
  have "XAxiDma_mBdRingNext r (ring_at r ((s + d) mod ring_size r))
      = ring_at r (Suc (s + d) mod ring_size r)"
    using next_at [OF g bdptr.idx_less [OF g]] by (simp add: mod_Suc_eq)
  moreover have "Suc (s + d) mod ring_size r = s mod ring_size r"
    using 0 by (metis add.right_neutral add_Suc_right mod_add_self2)
  ultimately show ?case
    using 0 start by (subst UpdateBdRingCDesc_loop.simps) (simp add: bd_done_def)
next
  case (Suc k)
  let ?b = "ring_at r (Suc (s + d) mod ring_size r)"
  have nxt: "XAxiDma_mBdRingNext r (ring_at r ((s + d) mod ring_size r)) = ?b"
    using next_at [OF g bdptr.idx_less [OF g]] by (simp add: mod_Suc_eq)
  have "(s + Suc d) mod ring_size r \<noteq> (s + 0) mod ring_size r"
    using mod_add_inj [of s "Suc d" "ring_size r" 0] Suc.prems by auto
  then have ne: "?b \<noteq> ring_at r (s mod ring_size r)"
    using ring_at_inj [OF g bdptr.idx_less [OF g] bdptr.idx_less [OF g]] by simp
  show ?case
  proof (cases "bd_done m ?b")
    case True
    then have "UpdateBdRingCDesc_loop r m (ring_at r ((s + d) mod ring_size r))
        = UpdateBdRingCDesc_loop r m ?b"
      using Suc.prems start nxt ne
      by (subst UpdateBdRingCDesc_loop.simps) (simp add: bd_done_def)
    then show ?thesis
      using True Suc.IH [of "Suc d"] Suc.prems by (simp add: ring_seg_Suc)
  next
    case False
    then show ?thesis
      using Suc.prems start nxt ne
      by (subst UpdateBdRingCDesc_loop.simps) (simp add: ring_seg_Suc bd_done_def)
  qed
qed

text \<open>The search returns, and finds the first uncompleted descriptor if there is one.\<close>

lemma cdesc_search_result:
  assumes g: "ring_geom r" and ok: "restart_ok r"
    and c: "bd_done m (ring_at r (restart_idx r))"
  shows "UpdateBdRingCDesc_loop r m (ring_at r (restart_idx r))
    = Some (case first_uncompleted r m of
        None \<Rightarrow> CDesc_Error | Some b \<Rightarrow> CDesc_Write (XAXIDMA_VIRT_TO_PHYS r b))"
proof -
  obtain k where k: "ring_size r = Suc k"
    using ring_geomD(1) [OF g] by (cases "ring_size r") auto
  have i: "restart_idx r < ring_size r"
    and b: "BdaRestart r = XAXIDMA_VIRT_TO_PHYS r (ring_at r (restart_idx r))"
    using ok unfolding restart_ok_def by (simp, metis phys_virt_inverse(2))
  have "first_uncompleted r m = find (\<lambda>b. \<not> bd_done m b) (ring_seg r (Suc (restart_idx r)) k)"
    using c i ring_seg_Suc [of r "restart_idx r" k, folded k] by (simp add: first_uncompleted_def)
  then show ?thesis
    using cdesc_loop_result [OF g, of 0 k "restart_idx r" m] k b c i by simp
qed

lemma ram_HwIsStarted [simp]: "ram (snd (XAxiDma_mBdRingHwIsStarted B r w)) = ram w"
  by (simp add: XAxiDma_mBdRingHwIsStarted_def split_beta)

lemma update_cdesc_result:
  assumes g: "ring_geom r" and ok: "restart_ok r" and run: "RunState r \<noteq> AXIDMA_CHANNEL_NOT_HALTED"
  shows "XAxiDma_UpdateBdRingCDesc B r RingIndex w =
    (let (started, w') = XAxiDma_mBdRingHwIsStarted B r w in
     if started then Some (XST_SUCCESS, w')
     else case first_uncompleted r (ram w) of
       None \<Rightarrow> Some (XST_DMA_ERROR, w')
     | Some b \<Rightarrow> Some (XST_SUCCESS, XAxiDma_WriteReg B (ChanBase r) (BdRing_cdesc_offset r RingIndex)
         (XAXIDMA_VIRT_TO_PHYS r b) w'))"
proof -
  obtain st w' where st: "XAxiDma_mBdRingHwIsStarted B r w = (st, w')"
    by (metis surj_pair)
  then have ram: "ram w' = ram w"
    using ram_HwIsStarted [of B r w] by simp
  have i: "restart_idx r < ring_size r"
    and v: "XAXIDMA_PHYS_TO_VIRT r (BdaRestart r) = ring_at r (restart_idx r)"
    and n: "AllCnt r \<noteq> 0"
    using ok ring_geomD(1,7) [OF g] by (auto simp: restart_ok_def)
  then have b: "BdaRestart r = XAXIDMA_VIRT_TO_PHYS r (ring_at r (restart_idx r))"
    by (metis phys_virt_inverse(2))
  obtain k where k: "ring_size r = Suc k"
    using ring_geomD(1) [OF g] by (cases "ring_size r") auto
  have first: "first_uncompleted r (ram w) = Some (ring_at r (restart_idx r))"
    if "\<not> bd_done (ram w) (ring_at r (restart_idx r))"
    using that i ring_seg_Suc [of r "restart_idx r" k, folded k] by (simp add: first_uncompleted_def)
  show ?thesis
  proof (cases "bd_done (ram w) (ring_at r (restart_idx r))")
    case True
    then show ?thesis
      using n run cdesc_search_result [OF g ok True]
      by (auto simp: XAxiDma_UpdateBdRingCDesc_def st ram v bd_done_def Let_def split: option.splits)
  next
    case False
    then show ?thesis
      using n run first [OF False]
      by (auto simp: XAxiDma_UpdateBdRingCDesc_def st ram v b [symmetric] bd_done_def Let_def)
  qed
qed

section \<open>Coalescing fields\<close>

lemma coalesce_masks:
  "(0x00FF0000 :: u32) = push_bit 16 (mask 8)" "(0xFF000000 :: u32) = push_bit 24 (mask 8)"
  "(0xFFFF :: u32) = mask 16"
  by (simp_all add: mask_eq_exp_minus_1 push_bit_eq_mult)

lemma coalesce_fields:
  fixes cr c t :: u32
  assumes "c \<le> 0xFF" and "t \<le> 0xFF"
  defines "v \<equiv> (((cr AND NOT 0x00FF0000) OR push_bit 16 c) AND NOT 0xFF000000) OR push_bit 24 t"
  shows "drop_bit 16 (v AND 0x00FF0000) = c" and "drop_bit 24 (v AND 0xFF000000) = t"
    and "v AND 0xFFFF = cr AND 0xFFFF"
proof -
  have c: "\<not> bit c n" and t: "\<not> bit t n" if "8 \<le> n" for n
    using assms that bit_low_mask [of c 8 n] bit_low_mask [of t 8 n]
    by (simp_all add: mask_eq_exp_minus_1)
  show "drop_bit 16 (v AND 0x00FF0000) = c"
    unfolding v_def coalesce_masks using c
    by (intro bit_word_eqI) (auto simp: bit_simps not_le [symmetric])
  show "drop_bit 24 (v AND 0xFF000000) = t"
    unfolding v_def coalesce_masks using t
    by (intro bit_word_eqI) (auto simp: bit_simps not_le [symmetric])
  show "v AND 0xFFFF = cr AND 0xFFFF"
    unfolding v_def coalesce_masks using c t
    by (intro bit_word_eqI) (auto simp: bit_simps not_le [symmetric])
qed

end
