(* ===== verification/Ring_Refine.thy ===== *)
theory Ring_Refine
  imports Bdring_Hw
begin

unbundle bit_operations_syntax

text \<open>
  The ring operations implement the four-queue specification, on every branch and for all
  arguments. The locale \<open>descriptor_ring\<close> states the contract that the drivers above the ring rely
  on; it is interpreted on the model of \<^verbatim>\<open>xaxidma_bdring.c\<close>.
\<close>

section \<open>Moves on the groups\<close>

lemma groups_alloc:
  assumes v: "ring_view r i q h p (k + f)" and v': "ring_view r' i q h (p + k) f"
    and same: "ring_at r' = ring_at r" "ring_size r' = ring_size r"
  shows "groups r' = spec_alloc k (groups r)"
proof -
  have seg: "ring_seg r' = ring_seg r"
    by (simp add: fun_eq_iff ring_seg_def same)
  show ?thesis
    by (simp add: view_groups [OF v] view_groups [OF v'] spec_alloc_def seg take_ring_seg
        drop_ring_seg ring_seg_append [symmetric] add.assoc)
qed

lemma groups_unalloc:
  assumes v: "ring_view r i q h (p + k) f" and v': "ring_view r' i q h p (k + f)"
    and same: "ring_at r' = ring_at r" "ring_size r' = ring_size r"
  shows "groups r' = spec_unalloc k (groups r)"
proof -
  have seg: "ring_seg r' = ring_seg r"
    by (simp add: fun_eq_iff ring_seg_def same)
  show ?thesis
    by (simp add: view_groups [OF v] view_groups [OF v'] spec_unalloc_def seg take_ring_seg
        drop_ring_seg ring_seg_append [symmetric] add.assoc)
qed

lemma groups_tohw:
  assumes v: "ring_view r i q h (k + p) f" and v': "ring_view r' i q (h + k) p f"
    and same: "ring_at r' = ring_at r" "ring_size r' = ring_size r"
  shows "groups r' = spec_tohw k (groups r)"
proof -
  have seg: "ring_seg r' = ring_seg r"
    by (simp add: fun_eq_iff ring_seg_def same)
  show ?thesis
    by (simp add: view_groups [OF v] view_groups [OF v'] spec_tohw_def seg take_ring_seg
        drop_ring_seg ring_seg_append [symmetric] add.assoc)
qed

lemma groups_fromhw:
  assumes v: "ring_view r i q (k + h) p f" and v': "ring_view r' i (q + k) h p f"
    and same: "ring_at r' = ring_at r" "ring_size r' = ring_size r"
  shows "groups r' = spec_fromhw k (groups r)"
proof -
  have seg: "ring_seg r' = ring_seg r"
    by (simp add: fun_eq_iff ring_seg_def same)
  show ?thesis
    by (simp add: view_groups [OF v] view_groups [OF v'] spec_fromhw_def seg take_ring_seg
        drop_ring_seg ring_seg_append [symmetric] add.assoc)
qed

lemma groups_free:
  assumes v: "ring_view r i (k + q) h p f"
    and v': "ring_view r' ((i + k) mod ring_size r) q h p (f + k)"
    and same: "ring_at r' = ring_at r" "ring_size r' = ring_size r"
  shows "groups r' = spec_free k (groups r)"
proof -
  have seg: "ring_seg r' = ring_seg r"
    by (simp add: fun_eq_iff ring_seg_def same)
  have n: "k + q + h + p + f = ring_size r"
    using v by (simp add: ring_view_def)
  have shift: "ring_seg r ((i + k) mod ring_size r + x) l = ring_seg r (i + k + x) l" for x l
    by (metis mod_add_left_eq ring_seg_mod)
  have wrap: "ring_seg r (i + (k + (q + (h + (p + f))))) k = ring_seg r i k"
    using n by (metis add.assoc mod_add_self2 ring_seg_mod)
  show ?thesis
    using shift [of 0 q]
    by (simp add: view_groups [OF v] view_groups [OF v'] spec_free_def seg take_ring_seg
        drop_ring_seg shift add.assoc wrap ring_seg_append [symmetric])
qed

lemmas groups_moves = groups_alloc groups_unalloc groups_tohw groups_fromhw groups_free

lemma view_lengths:
  "ring_view r i q h p f \<Longrightarrow> length (g_post (groups r)) = q \<and> length (g_hw (groups r)) = h
     \<and> length (g_pre (groups r)) = p \<and> length (g_free (groups r)) = f"
  by (simp add: view_groups)

lemma view_heads:
  assumes "ring_view r i q h p f"
  shows "0 < q \<Longrightarrow> PostHead r = hd (g_post (groups r))"
    and "0 < h \<Longrightarrow> HwHead r = hd (g_hw (groups r))"
    and "0 < p \<Longrightarrow> PreHead r = hd (g_pre (groups r))"
    and "0 < f \<Longrightarrow> FreeHead r = hd (g_free (groups r))"
  using assms
  by (simp_all add: view_groups [OF assms] ring_seg_def hd_map hd_cyc) (simp_all add: ring_view_def)

lemma view_tail:
  assumes "ring_view r i q h p f" and "0 < h"
  shows "HwTail r = last (g_hw (groups r))"
proof -
  from assms(2) obtain k where h: "h = Suc k"
    by (cases h) auto
  have "ring_seg r (i + q) (Suc k) = ring_seg r (i + q) k @ [ring_at r ((i + q + k) mod ring_size r)]"
    using ring_seg_append [of r "i + q" k 1] by (simp add: ring_seg_Suc)
  then show ?thesis
    using assms by (simp add: view_groups [OF assms(1)] h) (simp add: ring_view_def)
qed

lemma int_split: "0 < k \<Longrightarrow> k \<le> int n \<Longrightarrow> \<exists>a b. k = int a \<and> 0 < a \<and> n = a + b"
  by (metis le_Suc_ex nat_int nat_mono of_nat_0_less_iff zero_less_imp_eq_int)

section \<open>Every branch of every operation\<close>

text \<open>Rings that occupy the same descriptors.\<close>

definition same_bds :: "XAxiDma_BdRing \<Rightarrow> XAxiDma_BdRing \<Rightarrow> bool" where
  "same_bds r r' \<longleftrightarrow> ring_at r' = ring_at r \<and> ring_size r' = ring_size r"

lemma alloc_cases:
  assumes inv: "ring_inv r" and op: "XAxiDma_BdRingAlloc r N = (st, r', p)"
  shows "N \<le> 0 \<and> st = XST_INVALID_PARAM \<and> r' = r \<and> p = None
    \<or> 0 < N \<and> int (length (g_free (groups r))) < N \<and> st = XST_FAILURE \<and> r' = r \<and> p = None
    \<or> 0 < N \<and> N \<le> int (length (g_free (groups r))) \<and> st = XST_SUCCESS \<and> ring_inv r' \<and> same_bds r r'
       \<and> groups r' = spec_alloc (nat N) (groups r) \<and> p = Some (hd (g_free (groups r)))"
proof -
  obtain i q h pp f where v: "ring_view r i q h pp f"
    using inv by (rule ring_inv_view)
  have cnt: "FreeCnt r = int f" "length (g_free (groups r)) = f"
    using v by (simp_all add: view_groups [OF v] ring_view_def)
  show ?thesis
  proof (cases "0 < N \<and> N \<le> int f")
    case True
    then obtain k f' where k: "N = int k" "0 < k" "f = k + f'"
      using int_split by blast
    from alloc_view [OF v [unfolded k(3)] k(2)] obtain r1 where
      r1: "XAxiDma_BdRingAlloc r (int k) = (0, r1, Some (ring_at r ((i + q + h + pp) mod ring_size r)))"
        "ring_view r1 i q h (pp + k) f'" "ring_at r1 = ring_at r" "ring_size r1 = ring_size r" .
    moreover have "FreeHead r = ring_at r ((i + q + h + pp) mod ring_size r)"
      using v by (simp add: ring_view_def)
    ultimately show ?thesis
      using op k True cnt view_inv [OF r1(2)] groups_alloc [OF v [unfolded k(3)] r1(2-4)]
        view_heads(4) [OF v] by (simp add: same_bds_def)
  next
    case False
    with op cnt show ?thesis
      by (auto simp: XAxiDma_BdRingAlloc_def split: if_splits)
  qed
qed

lemma free_cases:
  assumes inv: "ring_inv r" and op: "XAxiDma_BdRingFree r N b = (st, r')"
  shows "N < 0 \<and> st = XST_INVALID_PARAM \<and> r' = r
    \<or> N = 0 \<and> st = XST_SUCCESS \<and> r' = r
    \<or> 0 < N \<and> (int (length (g_post (groups r))) < N \<or> b \<noteq> PostHead r)
       \<and> st = XST_DMA_SG_LIST_ERROR \<and> r' = r
    \<or> 0 < N \<and> N \<le> int (length (g_post (groups r))) \<and> b = hd (g_post (groups r))
       \<and> st = XST_SUCCESS \<and> ring_inv r' \<and> same_bds r r' \<and> groups r' = spec_free (nat N) (groups r)"
proof -
  obtain i q h p f where v: "ring_view r i q h p f"
    using inv by (rule ring_inv_view)
  have cnt: "PostCnt r = int q" "length (g_post (groups r)) = q" "PostHead r = ring_at r i"
    using v by (simp_all add: view_groups [OF v] ring_view_def)
  show ?thesis
  proof (cases "0 < N \<and> N \<le> int q \<and> b = PostHead r")
    case True
    then obtain k q' where k: "N = int k" "0 < k" "q = k + q'"
      using int_split by blast
    from free_view [OF v [unfolded k(3)] k(2)] obtain r1 where
      r1: "XAxiDma_BdRingFree r (int k) (ring_at r i) = (0, r1)"
        "ring_view r1 ((i + k) mod ring_size r) q' h p (f + k)"
        "ring_at r1 = ring_at r" "ring_size r1 = ring_size r" .
    then show ?thesis
      using op k True cnt view_inv [OF r1(2)] groups_free [OF v [unfolded k(3)] r1(2-4)]
        view_heads(1) [OF v] by (simp add: same_bds_def)
  next
    case False
    with op cnt show ?thesis
      by (auto simp: XAxiDma_BdRingFree_def split: if_splits)
  qed
qed

lemma unalloc_cases:
  assumes inv: "ring_inv r" and op: "XAxiDma_BdRingUnAlloc r N b = (st, r')"
  shows "N \<le> 0 \<and> st = XST_INVALID_PARAM \<and> r' = r
    \<or> 0 < N \<and> (int (length (g_pre (groups r))) < N \<or> XAXIDMA_RING_SEEKAHEAD r b N \<noteq> FreeHead r)
       \<and> st = XST_FAILURE \<and> r' = r
    \<or> 0 < N \<and> N \<le> int (length (g_pre (groups r))) \<and> XAXIDMA_RING_SEEKAHEAD r b N = FreeHead r
       \<and> st = XST_SUCCESS \<and> ring_inv r' \<and> same_bds r r' \<and> groups r' = spec_unalloc (nat N) (groups r)"
proof -
  obtain i q h p f where v: "ring_view r i q h p f"
    using inv by (rule ring_inv_view)
  have cnt: "PreCnt r = int p" "length (g_pre (groups r)) = p"
    using v by (simp_all add: view_groups [OF v] ring_view_def)
  show ?thesis
  proof (cases "0 < N \<and> N \<le> int p \<and> XAXIDMA_RING_SEEKAHEAD r b N = FreeHead r")
    case True
    then obtain k p' where k: "N = int k" "0 < k" "p = p' + k"
      using int_split [of N p] by (auto simp: add.commute)
    with True have b: "XAXIDMA_RING_SEEKAHEAD r b (int k) = FreeHead r" by simp
    from unalloc_view [OF v [unfolded k(3)] k(2) b] obtain r1 where
      r1: "XAxiDma_BdRingUnAlloc r (int k) b = (0, r1)" "ring_view r1 i q h p' (k + f)"
        "ring_at r1 = ring_at r" "ring_size r1 = ring_size r" .
    then show ?thesis
      using op k True cnt view_inv [OF r1(2)] groups_unalloc [OF v [unfolded k(3)] r1(2-4)]
      by (simp add: same_bds_def)
  next
    case False
    with op cnt show ?thesis
      by (auto simp: XAxiDma_BdRingUnAlloc_def split: if_splits)
  qed
qed

lemma fromhw_cases:
  assumes inv: "ring_inv r" and op: "XAxiDma_BdRingFromHw r N m = (n, r', b)"
  shows "n = int (whole_packets (bd_done m) (bd_eof r m) (take (nat N) (g_hw (groups r))))
    \<and> ring_inv r' \<and> same_bds r r' \<and> groups r' = spec_fromhw (nat n) (groups r)
    \<and> nat n \<le> length (g_hw (groups r)) \<and> b = (if n = 0 then NULL else hd (g_hw (groups r)))"
proof -
  obtain i q h p f where v: "ring_view r i q h p f"
    using inv by (rule ring_inv_view)
  define k where "k = whole_packets (bd_done m) (bd_eof r m) (take (nat N) (ring_seg r (i + q) h))"
  from fromhw_view [OF v k_def] obtain r1 where
    r1: "XAxiDma_BdRingFromHw r N m = (int k, r1, if k = 0 then NULL else HwHead r)"
      "ring_view r1 i (q + k) (h - k) p f" "k \<le> h" "ring_at r1 = ring_at r" "ring_size r1 = ring_size r" .
  have hw: "g_hw (groups r) = ring_seg r (i + q) h"
    by (simp add: view_groups [OF v])
  have "ring_view r i q (k + (h - k)) p f"
    using v r1(3) by simp
  from groups_fromhw [OF this r1(2,4,5)] have "groups r1 = spec_fromhw k (groups r)" .
  with op r1 hw view_inv [OF r1(2)] view_heads(2) [OF v] show ?thesis
    by (auto simp: k_def [symmetric] same_bds_def)
qed

lemma tohw_cases:
  assumes inv: "ring_inv r" and op: "XAxiDma_BdRingToHw B r N b ri w = (st, r', w')"
  defines "bds \<equiv> take (nat N) (g_pre (groups r))"
  shows "N < 0 \<and> st = XST_INVALID_PARAM \<and> r' = r \<and> w' = w
    \<or> N = 0 \<and> st = XST_SUCCESS \<and> r' = r \<and> w' = w
    \<or> 0 < N \<and> (int (length (g_pre (groups r))) < N \<or> b \<noteq> PreHead r)
       \<and> st = XST_DMA_SG_LIST_ERROR \<and> r' = r \<and> w' = w
    \<or> 0 < N \<and> N \<le> int (length (g_pre (groups r))) \<and> b = hd (g_pre (groups r))
       \<and> \<not> tohw_ok r (ram w) bds \<and> st = XST_FAILURE \<and> r' = r
       \<and> (\<exists>n<nat N. w' = w\<lparr>ram := tohw_mem (ram w) (take n bds)\<rparr>)
    \<or> 0 < N \<and> N \<le> int (length (g_pre (groups r))) \<and> b = hd (g_pre (groups r))
       \<and> tohw_ok r (ram w) bds \<and> st = XST_SUCCESS \<and> ring_inv r' \<and> same_bds r r'
       \<and> groups r' = spec_tohw (nat N) (groups r) \<and> ram w' = tohw_mem (ram w) bds
       \<and> dev w' = tohw_dev B r ri (last bds) (dev w)"
proof -
  obtain i q h p f where v: "ring_view r i q h p f"
    using inv by (rule ring_inv_view)
  have cnt: "PreCnt r = int p" "length (g_pre (groups r)) = p"
    "g_pre (groups r) = ring_seg r (i + q + h) p"
    using v by (simp_all add: view_groups [OF v] ring_view_def)
  show ?thesis
  proof (cases "0 < N \<and> N \<le> int p \<and> b = PreHead r")
    case True
    then obtain k p' where k: "N = int k" "0 < k" "p = k + p'"
      using int_split by blast
    have bds: "bds = ring_seg r (i + q + h) k"
      using k by (simp add: bds_def cnt take_ring_seg)
    have b: "b = hd (g_pre (groups r))"
      using True k view_heads(3) [OF v] by simp
    show ?thesis
    proof (cases "tohw_ok r (ram w) bds")
      case ok: True
      from tohw_success [OF v [unfolded k(3)] k(2), of w B ri] ok bds obtain r1 w1 where
        r1: "XAxiDma_BdRingToHw B r (int k) (PreHead r) ri w = (0, r1, w1)"
          "ring_view r1 i q (h + k) p' f" "ring_at r1 = ring_at r" "ring_size r1 = ring_size r"
          "ram w1 = tohw_mem (ram w) bds" "dev w1 = tohw_dev B r ri (last bds) (dev w)"
        by metis
      then show ?thesis
        using op k True cnt(2) b ok view_inv [OF r1(2)] groups_tohw [OF v [unfolded k(3)] r1(2-4)]
        by (simp add: same_bds_def)
    next
      case bad: False
      from tohw_failure [OF v [unfolded k(3)] k(2), of w B ri] bad bds obtain n where
        "n < k" "XAxiDma_BdRingToHw B r (int k) (PreHead r) ri w
          = (1, r, w\<lparr>ram := tohw_mem (ram w) (take n bds)\<rparr>)"
        by metis
      then show ?thesis
        using op k True cnt(2) b bad by auto
    qed
  next
    case False
    with op cnt(1,2) show ?thesis
      by (auto simp: XAxiDma_BdRingToHw_def split: if_splits)
  qed
qed

end
