(* ===== verification/Ring_Machine.thy ===== *)
theory Ring_Machine
  imports Ring_Refine
begin

unbundle bit_operations_syntax

text \<open>
  The ring as a state machine: driver calls with arbitrary arguments interleaved with arbitrary
  changes of memory and device by the hardware and the rest of the driver. Two logs record the
  descriptors that were handed to the hardware and those that were taken back.
\<close>

section \<open>Contract of a descriptor ring\<close>

locale descriptor_ring =
  fixes inv :: "'s \<Rightarrow> bool"
    and queues :: "'s \<Rightarrow> bd_groups"
    and alloc :: "'s \<Rightarrow> int \<Rightarrow> status \<times> 's \<times> ptr option"
    and unalloc :: "'s \<Rightarrow> int \<Rightarrow> ptr \<Rightarrow> status \<times> 's"
    and free :: "'s \<Rightarrow> int \<Rightarrow> ptr \<Rightarrow> status \<times> 's"
  assumes alloc_law: "inv s \<Longrightarrow> 0 < k \<Longrightarrow> k \<le> length (g_free (queues s)) \<Longrightarrow>
      \<exists>s'. alloc s (int k) = (XST_SUCCESS, s', Some (hd (g_free (queues s)))) \<and> inv s'
        \<and> queues s' = spec_alloc k (queues s)"
    and unalloc_law: "inv s \<Longrightarrow> 0 < k \<Longrightarrow> k \<le> length (g_pre (queues s)) \<Longrightarrow>
      \<exists>s'. unalloc s (int k) (g_pre (queues s) ! (length (g_pre (queues s)) - k)) = (XST_SUCCESS, s')
        \<and> inv s' \<and> queues s' = spec_unalloc k (queues s)"
    and free_law: "inv s \<Longrightarrow> 0 < k \<Longrightarrow> k \<le> length (g_post (queues s)) \<Longrightarrow>
      \<exists>s'. free s (int k) (hd (g_post (queues s))) = (XST_SUCCESS, s') \<and> inv s'
        \<and> queues s' = spec_free k (queues s)"
begin

lemma alloc_unalloc:
  assumes "inv s" and "0 < k" and "k \<le> length (g_free (queues s))"
  shows "\<exists>s' s'' b. alloc s (int k) = (XST_SUCCESS, s', Some b) \<and> unalloc s' (int k) b = (XST_SUCCESS, s'')
    \<and> inv s'' \<and> queues s'' = queues s"
proof -
  obtain s' where s': "alloc s (int k) = (0, s', Some (hd (g_free (queues s))))" "inv s'"
    "queues s' = spec_alloc k (queues s)"
    using alloc_law [OF assms] by blast
  let ?b = "g_pre (queues s') ! (length (g_pre (queues s')) - k)"
  have len: "k \<le> length (g_pre (queues s'))"
    using assms(3) by (simp add: s'(3) spec_alloc_def)
  obtain s'' where s'': "unalloc s' (int k) ?b = (0, s'')" "inv s''"
    "queues s'' = spec_unalloc k (queues s')"
    using unalloc_law [OF s'(2) assms(2) len] by blast
  have "g_free (queues s) \<noteq> []" using assms by auto
  then have "?b = hd (g_free (queues s))"
    using assms(2,3) by (simp add: s'(3) spec_alloc_def nth_append hd_conv_nth)
  moreover have "queues s'' = queues s"
    using assms(3) by (simp add: s''(3) s'(3) spec_alloc_def spec_unalloc_def min_absorb2)
  ultimately show ?thesis
    using s' s'' by metis
qed

lemma free_all:
  assumes "inv s" and "g_post (queues s) \<noteq> []"
  shows "\<exists>s'. free s (int (length (g_post (queues s)))) (hd (g_post (queues s))) = (XST_SUCCESS, s')
    \<and> inv s' \<and> g_post (queues s') = [] \<and> g_free (queues s') = g_free (queues s) @ g_post (queues s)"
  using free_law [OF assms(1), of "length (g_post (queues s))"] assms(2) by (force simp: spec_free_def)

end

lemma seekahead_pre:
  assumes inv: "ring_inv r" and k: "0 < k" "k \<le> length (g_pre (groups r))"
  shows "XAXIDMA_RING_SEEKAHEAD r (g_pre (groups r) ! (length (g_pre (groups r)) - k)) (int k) = FreeHead r"
proof -
  obtain i q h p f where v: "ring_view r i q h p f"
    using inv by (rule ring_inv_view)
  have pre: "g_pre (groups r) = ring_seg r (i + q + h) p"
    by (simp add: view_groups [OF v])
  obtain p' where p': "p = p' + k"
    using k(2) pre by (metis add.commute le_iff_add length_ring_seg)
  have g: "ring_geom r" and n: "k \<le> ring_size r"
    and F: "FreeHead r = ring_at r ((i + q + h + p) mod ring_size r)"
    using v p' by (simp_all add: ring_view_def)
  have "ring_seg r (i + q + h) p ! p' = ring_at r ((i + q + h + p') mod ring_size r)"
    using k(1) p' by (simp add: ring_seg_def)
  then show ?thesis
    using seekahead_at [OF g bdptr.idx_less [OF g] n, of "i + q + h + p'"]
    by (simp add: pre p' F mod_add_left_eq add.assoc)
qed

interpretation bdq: descriptor_ring ring_inv groups
  XAxiDma_BdRingAlloc XAxiDma_BdRingUnAlloc XAxiDma_BdRingFree
proof
  fix r and k :: nat
  assume inv: "ring_inv r" and k: "0 < k"
  show "\<exists>r'. XAxiDma_BdRingAlloc r (int k) = (0, r', Some (hd (g_free (groups r)))) \<and> ring_inv r'
      \<and> groups r' = spec_alloc k (groups r)" if "k \<le> length (g_free (groups r))"
    using alloc_cases [OF inv, of "int k"] k that by (cases "XAxiDma_BdRingAlloc r (int k)") auto
  show "\<exists>r'. XAxiDma_BdRingUnAlloc r (int k) (g_pre (groups r) ! (length (g_pre (groups r)) - k)) = (0, r')
      \<and> ring_inv r' \<and> groups r' = spec_unalloc k (groups r)" if "k \<le> length (g_pre (groups r))"
    using unalloc_cases [OF inv, of "int k"] seekahead_pre [OF inv k that] k that
    by (cases "XAxiDma_BdRingUnAlloc r (int k) (g_pre (groups r) ! (length (g_pre (groups r)) - k))") auto
  show "\<exists>r'. XAxiDma_BdRingFree r (int k) (hd (g_post (groups r))) = (0, r') \<and> ring_inv r'
      \<and> groups r' = spec_free k (groups r)" if le: "k \<le> length (g_post (groups r))"
  proof -
    obtain i q h p f where v: "ring_view r i q h p f"
      using inv by (rule ring_inv_view)
    have "hd (g_post (groups r)) = PostHead r"
      using view_heads(1) [OF v] k le by (simp add: view_groups [OF v])
    then show ?thesis
      using free_cases [OF inv, of "int k" "hd (g_post (groups r))"] k le
      by (cases "XAxiDma_BdRingFree r (int k) (hd (g_post (groups r)))") auto
  qed
qed

section \<open>Steps\<close>

record 'd rstate =
  rs_ring :: XAxiDma_BdRing
  rs_world :: "'d world"
  rs_sub :: "ptr list"
  rs_ret :: "ptr list"

text \<open>The descriptors of a set, as the callers walk it: \<open>n\<close> times \<^verbatim>\<open>XAxiDma_mBdRingNext\<close>.\<close>

definition bd_walk :: "XAxiDma_BdRing \<Rightarrow> ptr \<Rightarrow> nat \<Rightarrow> ptr list" where
  "bd_walk r b n = map (\<lambda>i. (XAxiDma_mBdRingNext r ^^ i) b) [0..<n]"

inductive ring_step :: "'d bus \<Rightarrow> 'd rstate \<Rightarrow> 'd rstate \<Rightarrow> bool" for B :: "'d bus" where
  step_env: "ring_step B s (s\<lparr>rs_world := w\<rparr>)"
| step_alloc: "XAxiDma_BdRingAlloc (rs_ring s) N = (st, r', b) \<Longrightarrow> ring_step B s (s\<lparr>rs_ring := r'\<rparr>)"
| step_unalloc: "XAxiDma_BdRingUnAlloc (rs_ring s) N b = (st, r') \<Longrightarrow>
    ring_step B s (s\<lparr>rs_ring := r'\<rparr>)"
| step_tohw: "XAxiDma_BdRingToHw B (rs_ring s) N b ri (rs_world s) = (st, r', w') \<Longrightarrow>
    ring_step B s (s\<lparr>rs_ring := r', rs_world := w',
      rs_sub := rs_sub s @ (if st = XST_SUCCESS then bd_walk (rs_ring s) b (nat N) else [])\<rparr>)"
| step_fromhw: "XAxiDma_BdRingFromHw (rs_ring s) N (ram (rs_world s)) = (n, r', b) \<Longrightarrow>
    ring_step B s (s\<lparr>rs_ring := r', rs_ret := rs_ret s @ bd_walk (rs_ring s) b (nat n)\<rparr>)"
| step_free: "XAxiDma_BdRingFree (rs_ring s) N b = (st, r') \<Longrightarrow> ring_step B s (s\<lparr>rs_ring := r'\<rparr>)"

inductive_cases ring_stepE: "ring_step B s s'"

lemma bd_walk_seg:
  assumes "ring_geom r" and "k \<le> l"
  shows "bd_walk r (hd (ring_seg r s l)) k = take k (ring_seg r s l)"
proof (cases "k = 0")
  case False
  then have "hd (ring_seg r s l) = ring_at r (s mod ring_size r)"
    using assms(2) by (simp add: ring_seg_def hd_map hd_cyc)
  then show ?thesis
    unfolding take_ring_seg [OF assms(2)]
    using bdptr.nxt_funpow [OF assms(1) bdptr.idx_less [OF assms(1)]]
    by (simp add: bd_walk_def) (simp add: ring_seg_def cyc_def mod_add_left_eq)
qed (simp add: bd_walk_def)

lemma bd_walk_groups:
  assumes "ring_inv r"
  shows "k \<le> length (g_pre (groups r)) \<Longrightarrow> bd_walk r (hd (g_pre (groups r))) k = take k (g_pre (groups r))"
    and "k \<le> length (g_hw (groups r)) \<Longrightarrow> bd_walk r (hd (g_hw (groups r))) k = take k (g_hw (groups r))"
proof -
  obtain i q h p f where v: "ring_view r i q h p f"
    using assms by (rule ring_inv_view)
  then have "ring_geom r" by (simp add: ring_view_def)
  then show "k \<le> length (g_pre (groups r)) \<Longrightarrow> bd_walk r (hd (g_pre (groups r))) k = take k (g_pre (groups r))"
    and "k \<le> length (g_hw (groups r)) \<Longrightarrow> bd_walk r (hd (g_hw (groups r))) k = take k (g_hw (groups r))"
    by (simp_all add: view_groups [OF v] bd_walk_seg)
qed

text \<open>What every step keeps: the ring invariant, the descriptors of the ring, and that the work
  group holds exactly what was submitted and not yet returned, in order.\<close>

definition machine_inv :: "'d rstate \<Rightarrow> bool" where
  "machine_inv s \<longleftrightarrow> ring_inv (rs_ring s) \<and> rs_sub s = rs_ret s @ g_hw (groups (rs_ring s))"

lemma same_bds_trans: "same_bds a b \<Longrightarrow> same_bds b c \<Longrightarrow> same_bds a c"
  by (simp add: same_bds_def)

lemma same_bds_refl [simp]: "same_bds r r"
  by (simp add: same_bds_def)

lemma ring_step_inv:
  assumes "ring_step B s s'" and inv: "machine_inv s"
  shows "machine_inv s' \<and> same_bds (rs_ring s) (rs_ring s')"
  using assms(1)
proof cases
  case (step_env w)
  with inv show ?thesis by (simp add: machine_inv_def)
next
  case (step_alloc N st r' b)
  with alloc_cases [OF _ this(2)] inv show ?thesis
    by (auto simp: machine_inv_def spec_alloc_def)
next
  case (step_unalloc N b st r')
  with unalloc_cases [OF _ this(2)] inv show ?thesis
    by (auto simp: machine_inv_def spec_unalloc_def Let_def)
next
  case (step_tohw N b ri st r' w')
  with tohw_cases [OF _ this(2)] bd_walk_groups(1) [of "rs_ring s" "nat N"] inv show ?thesis
    by (auto simp: machine_inv_def spec_tohw_def bd_walk_def)
next
  case (step_fromhw N n r' b)
  with fromhw_cases [OF _ this(2)] bd_walk_groups(2) [of "rs_ring s" "nat n"] inv show ?thesis
    by (auto simp: machine_inv_def spec_fromhw_def bd_walk_def)
next
  case (step_free N b st r')
  with free_cases [OF _ this(2)] inv show ?thesis
    by (auto simp: machine_inv_def spec_free_def)
qed

lemma ring_steps_inv:
  assumes "rtranclp (ring_step B) s s'" and "machine_inv s"
  shows "machine_inv s' \<and> same_bds (rs_ring s) (rs_ring s')"
  using assms(1)
proof (induction rule: rtranclp_induct)
  case base
  with assms(2) show ?case by simp
next
  case (step y z)
  then show ?case
    using ring_step_inv same_bds_trans by blast
qed

lemma inv_partition:
  assumes "ring_inv r"
  shows "distinct (all_bds (groups r)) \<and> set (all_bds (groups r)) = ring_at r ` {..<ring_size r}"
  using assms by (metis ring_inv_view view_partition)

end
