(* ===== verification/Axidma.thy ===== *)
theory Axidma
  imports Bdring_Hw
begin

unbundle bit_operations_syntax

text \<open>
  The DMA engine instance, \<^verbatim>\<open>linux-drv/xaxidma.h\<close> and \<^verbatim>\<open>linux-drv/xaxidma.c\<close>: initialisation and
  reset, start, pause and resume of the channels, simple transfers. The array of 16 receive rings
  is a list; the code indexes it with \<open>RingIndex\<close>, which its callers keep below 16.
\<close>

section \<open>State\<close>

record XAxiDma =
  RegBase :: u32
  HasMm2S :: int
  HasS2Mm :: int
  Initialized :: int
  HasSg :: int
  TxBdRing :: XAxiDma_BdRing
  RxBdRing :: "XAxiDma_BdRing list"
  TxNumChannels :: int
  RxNumChannels :: int

text \<open>The fields of \<^verbatim>\<open>XAxiDma_Config\<close> carry a prefix, as several share their name with a field of
  the instance or of a ring.\<close>

record XAxiDma_Config =
  Cfg_DeviceId :: u32
  Cfg_BaseAddr :: u32
  Cfg_HasStsCntrlStrm :: int
  Cfg_HasMm2S :: int
  Cfg_HasMm2SDRE :: int
  Cfg_Mm2SDataWidth :: int
  Cfg_HasS2Mm :: int
  Cfg_HasS2MmDRE :: int
  Cfg_S2MmDataWidth :: int
  Cfg_HasSg :: int
  Cfg_Mm2sNumChannels :: int
  Cfg_S2MmNumChannels :: int

definition XAxiDma_GetRxRing :: "XAxiDma \<Rightarrow> int \<Rightarrow> XAxiDma_BdRing" where
  "XAxiDma_GetRxRing I RingIndex = RxBdRing I ! nat RingIndex"

definition set_RxRing :: "XAxiDma \<Rightarrow> int \<Rightarrow> XAxiDma_BdRing \<Rightarrow> XAxiDma" where
  "set_RxRing I RingIndex r = I\<lparr>RxBdRing := (RxBdRing I)[nat RingIndex := r]\<rparr>"

text \<open>All fields zero, as after \<^verbatim>\<open>memset(InstancePtr, 0, sizeof(XAxiDma))\<close>.\<close>

definition zero_ring :: XAxiDma_BdRing where
  "zero_ring = \<lparr>ChanBase = 0, IsRxChannel = 0, RunState = 0, HasStsCntrlStrm = 0, HasDRE = 0,
     DataWidth = 0, MaxTransferLen = 0, FirstBdPhysAddr = 0, FirstBdAddr = 0, LastBdAddr = 0,
     Length = 0, Separation = 0, FreeHead = 0, PreHead = 0, HwHead = 0, HwTail = 0, PostHead = 0,
     BdaRestart = 0, FreeCnt = 0, PreCnt = 0, HwCnt = 0, PostCnt = 0, AllCnt = 0\<rparr>"

definition zero_XAxiDma :: XAxiDma where
  "zero_XAxiDma = \<lparr>RegBase = 0, HasMm2S = 0, HasS2Mm = 0, Initialized = 0, HasSg = 0,
     TxBdRing = zero_ring, RxBdRing = replicate 16 zero_ring, TxNumChannels = 0, RxNumChannels = 0\<rparr>"

section \<open>Direct interrupt macros\<close>

definition XAxiDma_IntrEnable :: "'d bus \<Rightarrow> XAxiDma \<Rightarrow> u32 \<Rightarrow> int \<Rightarrow> 'd world \<Rightarrow> 'd world" where
  "XAxiDma_IntrEnable B I Mask Direction w =
    (let base = RegBase I + XAXIDMA_RX_OFFSET * word_of_int Direction;
         (v, w) = XAxiDma_ReadReg B base XAXIDMA_CR_OFFSET w
     in XAxiDma_WriteReg B base XAXIDMA_CR_OFFSET (v OR (Mask AND XAXIDMA_IRQ_ALL_MASK)) w)"

definition XAxiDma_IntrDisable :: "'d bus \<Rightarrow> XAxiDma \<Rightarrow> u32 \<Rightarrow> int \<Rightarrow> 'd world \<Rightarrow> 'd world" where
  "XAxiDma_IntrDisable B I Mask Direction w =
    (let base = RegBase I + XAXIDMA_RX_OFFSET * word_of_int Direction;
         (v, w) = XAxiDma_ReadReg B base XAXIDMA_CR_OFFSET w
     in XAxiDma_WriteReg B base XAXIDMA_CR_OFFSET (v AND NOT (Mask AND XAXIDMA_IRQ_ALL_MASK)) w)"

definition XAxiDma_IntrGetIrq :: "'d bus \<Rightarrow> XAxiDma \<Rightarrow> int \<Rightarrow> 'd world \<Rightarrow> u32 \<times> 'd world" where
  "XAxiDma_IntrGetIrq B I Direction w =
    (let (v, w) = XAxiDma_ReadReg B (RegBase I + XAXIDMA_RX_OFFSET * word_of_int Direction)
           XAXIDMA_SR_OFFSET w
     in (v AND XAXIDMA_IRQ_ALL_MASK, w))"

definition XAxiDma_IntrAckIrq :: "'d bus \<Rightarrow> XAxiDma \<Rightarrow> u32 \<Rightarrow> int \<Rightarrow> 'd world \<Rightarrow> 'd world" where
  "XAxiDma_IntrAckIrq B I Mask Direction w =
    XAxiDma_WriteReg B (RegBase I + XAXIDMA_RX_OFFSET * word_of_int Direction)
      XAXIDMA_SR_OFFSET (Mask AND XAXIDMA_IRQ_ALL_MASK) w"

section \<open>Reset\<close>

text \<open>\<^verbatim>\<open>for (RingIndex = 0; RingIndex < RxNumChannels; RingIndex++)\<close> over the snapshots.\<close>

fun Reset_snapshot_rx :: "'d bus \<Rightarrow> nat list \<Rightarrow> XAxiDma \<times> 'd world \<Rightarrow> XAxiDma \<times> 'd world" where
  "Reset_snapshot_rx B [] (I, w) = (I, w)"
| "Reset_snapshot_rx B (i # is) (I, w) =
    (let (r, w) = XAxiDma_mBdRingSnapShotCurrBd B (XAxiDma_GetRxRing I (int i)) (int i) w
     in Reset_snapshot_rx B is (set_RxRing I (int i) r, w))"

fun Reset_halt_rx :: "nat list \<Rightarrow> XAxiDma \<Rightarrow> XAxiDma" where
  "Reset_halt_rx [] I = I"
| "Reset_halt_rx (i # is) I =
    Reset_halt_rx is
      (if HasS2Mm I \<noteq> 0
       then set_RxRing I (int i) ((XAxiDma_GetRxRing I (int i))\<lparr>RunState := AXIDMA_CHANNEL_HALTED\<rparr>)
       else I)"

definition XAxiDma_Reset :: "'d bus \<Rightarrow> XAxiDma \<Rightarrow> 'd world \<Rightarrow> XAxiDma \<times> 'd world" where
  "XAxiDma_Reset B I w =
    (let (I, w) =
       (if HasSg I \<noteq> 0 then
          let (r, w) = XAxiDma_mBdRingSnapShotCurrBd B (TxBdRing I) 0 w
          in Reset_snapshot_rx B [0..<nat (RxNumChannels I)] (I\<lparr>TxBdRing := r\<rparr>, w)
        else (I, w));
       base = (if HasMm2S I \<noteq> 0 then RegBase I + XAXIDMA_TX_OFFSET
               else RegBase I + XAXIDMA_RX_OFFSET);
       w = XAxiDma_WriteReg B base XAXIDMA_CR_OFFSET XAXIDMA_CR_RESET_MASK w;
       I = (if HasMm2S I \<noteq> 0
            then I\<lparr>TxBdRing := (TxBdRing I)\<lparr>RunState := AXIDMA_CHANNEL_HALTED\<rparr>\<rparr> else I)
     in (Reset_halt_rx [0..<nat (RxNumChannels I)] I, w))"

definition XAxiDma_ResetIsDone :: "'d bus \<Rightarrow> XAxiDma \<Rightarrow> 'd world \<Rightarrow> bool \<times> 'd world" where
  "XAxiDma_ResetIsDone B I w =
    (let (pending, w) =
       (if HasMm2S I \<noteq> 0 then
          let (v, w) = XAxiDma_ReadReg B (ChanBase (TxBdRing I)) XAXIDMA_CR_OFFSET w
          in (v AND XAXIDMA_CR_RESET_MASK \<noteq> 0, w)
        else (False, w))
     in if pending then (False, w)
        else if HasS2Mm I \<noteq> 0 then
          let (v, w) = XAxiDma_ReadReg B (ChanBase (XAxiDma_GetRxRing I 0)) XAXIDMA_CR_OFFSET w
          in (v AND XAXIDMA_CR_RESET_MASK = 0, w)
        else (True, w))"

section \<open>Initialisation\<close>

abbreviation (input) XAXIDMA_RESET_TIMEOUT :: nat where "XAXIDMA_RESET_TIMEOUT \<equiv> 500"

text \<open>The polling loop; the result is the remaining \<^verbatim>\<open>TimeOut\<close>.\<close>

fun CfgInitialize_wait :: "nat \<Rightarrow> 'd bus \<Rightarrow> XAxiDma \<Rightarrow> 'd world \<Rightarrow> nat \<times> 'd world" where
  "CfgInitialize_wait 0 B I w = (0, w)"
| "CfgInitialize_wait (Suc TimeOut) B I w =
    (let (isdone, w) = XAxiDma_ResetIsDone B I w
     in if isdone then (Suc TimeOut, w) else CfgInitialize_wait TimeOut B I w)"

fun CfgInitialize_rx_state :: "nat list \<Rightarrow> XAxiDma \<Rightarrow> XAxiDma" where
  "CfgInitialize_rx_state [] I = I"
| "CfgInitialize_rx_state (i # is) I = CfgInitialize_rx_state is
    (set_RxRing I (int i) ((XAxiDma_GetRxRing I (int i))
      \<lparr>RunState := AXIDMA_CHANNEL_HALTED, IsRxChannel := 1\<rparr>))"

fun CfgInitialize_rx_base :: "nat list \<Rightarrow> XAxiDma_Config \<Rightarrow> u32 \<Rightarrow> XAxiDma \<Rightarrow> XAxiDma" where
  "CfgInitialize_rx_base [] Config MaxLen I = I"
| "CfgInitialize_rx_base (i # is) Config MaxLen I = CfgInitialize_rx_base is Config MaxLen
    (set_RxRing I (int i) ((XAxiDma_GetRxRing I (int i))
      \<lparr>ChanBase := Cfg_BaseAddr Config + XAXIDMA_RX_OFFSET,
       HasStsCntrlStrm := Cfg_HasStsCntrlStrm Config,
       HasDRE := Cfg_HasS2MmDRE Config,
       DataWidth := uint (drop_bit 3 (word_of_int (Cfg_S2MmDataWidth Config) :: u32)),
       MaxTransferLen := MaxLen\<rparr>))"

definition CfgInitialize_max_len :: "XAxiDma \<Rightarrow> u32" where
  "CfgInitialize_max_len I =
    (if RxNumChannels I > 1 \<or> TxNumChannels I > 1
     then XAXIDMA_MCHAN_MAX_TRANSFER_LEN else XAXIDMA_MAX_TRANSFER_LEN)"

text \<open>The part that fills in the instance, before the engine is reset.\<close>

definition CfgInitialize_setup :: "XAxiDma_Config \<Rightarrow> XAxiDma" where
  "CfgInitialize_setup Config =
    (let I = zero_XAxiDma\<lparr>RegBase := Cfg_BaseAddr Config,
               HasMm2S := Cfg_HasMm2S Config, HasS2Mm := Cfg_HasS2Mm Config,
               HasSg := Cfg_HasSg Config,
               TxNumChannels := Cfg_Mm2sNumChannels Config,
               RxNumChannels := Cfg_S2MmNumChannels Config\<rparr>;
         MaxLen = CfgInitialize_max_len I;
         I = I\<lparr>TxBdRing := (TxBdRing I)\<lparr>RunState := AXIDMA_CHANNEL_HALTED, IsRxChannel := 0,
               MaxTransferLen := MaxLen\<rparr>\<rparr>;
         I = CfgInitialize_rx_state [0..<nat (RxNumChannels I)] I;
         I = (if HasMm2S I \<noteq> 0
              then I\<lparr>TxBdRing := (TxBdRing I)
                \<lparr>ChanBase := Cfg_BaseAddr Config + XAXIDMA_TX_OFFSET,
                 HasStsCntrlStrm := Cfg_HasStsCntrlStrm Config,
                 HasDRE := Cfg_HasMm2SDRE Config,
                 DataWidth := uint (drop_bit 3 (word_of_int (Cfg_Mm2SDataWidth Config) :: u32))\<rparr>\<rparr>
              else I)
     in if HasS2Mm I \<noteq> 0
        then CfgInitialize_rx_base [0..<nat (RxNumChannels I)] Config MaxLen I else I)"

definition XAxiDma_CfgInitialize ::
  "'d bus \<Rightarrow> XAxiDma \<Rightarrow> XAxiDma_Config option \<Rightarrow> 'd world \<Rightarrow> status \<times> XAxiDma \<times> 'd world" where
  "XAxiDma_CfgInitialize B I Config w =
    (let I = I\<lparr>Initialized := 0\<rparr> in
     case Config of
       None \<Rightarrow> (XST_INVALID_PARAM, I, w)
     | Some Config \<Rightarrow>
         let I = CfgInitialize_setup Config;
             (I, w) = XAxiDma_Reset B I w;
             (TimeOut, w) = CfgInitialize_wait XAXIDMA_RESET_TIMEOUT B I w
         in if TimeOut = 0 then (XST_DMA_ERROR, I\<lparr>Initialized := 0\<rparr>, w)
            else (XST_SUCCESS, I\<lparr>Initialized := 1\<rparr>, w))"

section \<open>Start, pause and resume\<close>

text \<open>Setting and clearing the run/stop bit of a channel that is not in scatter-gather mode.\<close>

definition chan_run :: "'d bus \<Rightarrow> XAxiDma_BdRing \<Rightarrow> 'd world \<Rightarrow> 'd world" where
  "chan_run B r w =
    (let (v, w) = XAxiDma_ReadReg B (ChanBase r) XAXIDMA_CR_OFFSET w
     in XAxiDma_WriteReg B (ChanBase r) XAXIDMA_CR_OFFSET (v OR XAXIDMA_CR_RUNSTOP_MASK) w)"

definition chan_stop :: "'d bus \<Rightarrow> XAxiDma_BdRing \<Rightarrow> 'd world \<Rightarrow> 'd world" where
  "chan_stop B r w =
    (let (v, w) = XAxiDma_ReadReg B (ChanBase r) XAXIDMA_CR_OFFSET w
     in XAxiDma_WriteReg B (ChanBase r) XAXIDMA_CR_OFFSET (v AND NOT XAXIDMA_CR_RUNSTOP_MASK) w)"

text \<open>The transmit half of \<^verbatim>\<open>XAxiDma_Start\<close>; a status other than success is its early return.\<close>

definition Start_tx ::
  "'d bus \<Rightarrow> XAxiDma \<Rightarrow> int \<Rightarrow> 'd world \<Rightarrow> (status \<times> XAxiDma \<times> 'd world) option" where
  "Start_tx B I RingIndex w =
    (if HasMm2S I \<noteq> 0 \<and> RunState (TxBdRing I) = AXIDMA_CHANNEL_HALTED then
       if HasSg I \<noteq> 0 then
         case XAxiDma_BdRingStart B (TxBdRing I) RingIndex w of
           None \<Rightarrow> None
         | Some (Status, r, w) \<Rightarrow>
             if Status \<noteq> XST_SUCCESS then Some (XST_DMA_ERROR, I\<lparr>TxBdRing := r\<rparr>, w)
             else Some (XST_SUCCESS, I\<lparr>TxBdRing := r\<lparr>RunState := AXIDMA_CHANNEL_NOT_HALTED\<rparr>\<rparr>, w)
       else Some (XST_SUCCESS,
         I\<lparr>TxBdRing := (TxBdRing I)\<lparr>RunState := AXIDMA_CHANNEL_NOT_HALTED\<rparr>\<rparr>,
         chan_run B (TxBdRing I) w)
     else Some (XST_SUCCESS, I, w))"

definition Start_rx ::
  "'d bus \<Rightarrow> XAxiDma \<Rightarrow> int \<Rightarrow> 'd world \<Rightarrow> (status \<times> XAxiDma \<times> 'd world) option" where
  "Start_rx B I RingIndex w =
    (if HasS2Mm I \<noteq> 0 then
       let r = XAxiDma_GetRxRing I RingIndex in
       if RunState r \<noteq> AXIDMA_CHANNEL_HALTED then Some (XST_SUCCESS, I, w)
       else if HasSg I \<noteq> 0 then
         case XAxiDma_BdRingStart B r RingIndex w of
           None \<Rightarrow> None
         | Some (Status, r, w) \<Rightarrow>
             if Status \<noteq> XST_SUCCESS then Some (XST_DMA_ERROR, set_RxRing I RingIndex r, w)
             else Some (XST_SUCCESS,
               set_RxRing I RingIndex (r\<lparr>RunState := AXIDMA_CHANNEL_NOT_HALTED\<rparr>), w)
       else Some (XST_SUCCESS,
         set_RxRing I RingIndex (r\<lparr>RunState := AXIDMA_CHANNEL_NOT_HALTED\<rparr>), chan_run B r w)
     else Some (XST_SUCCESS, I, w))"

definition XAxiDma_Start ::
  "'d bus \<Rightarrow> XAxiDma \<Rightarrow> int \<Rightarrow> 'd world \<Rightarrow> (status \<times> XAxiDma \<times> 'd world) option" where
  "XAxiDma_Start B I RingIndex w =
    (if Initialized I = 0 then Some (XST_NOT_SGDMA, I, w)
     else case Start_tx B I RingIndex w of
       None \<Rightarrow> None
     | Some (Status, I, w) \<Rightarrow>
         if Status \<noteq> XST_SUCCESS then Some (Status, I, w) else Start_rx B I RingIndex w)"

definition XAxiDma_Pause ::
  "'d bus \<Rightarrow> XAxiDma \<Rightarrow> int \<Rightarrow> 'd world \<Rightarrow> status \<times> XAxiDma \<times> 'd world" where
  "XAxiDma_Pause B I RingIndex w =
    (if Initialized I = 0 then (XST_NOT_SGDMA, I, w)
     else let
       (I, w) =
         (if HasMm2S I \<noteq> 0
          then (I\<lparr>TxBdRing := (TxBdRing I)\<lparr>RunState := AXIDMA_CHANNEL_HALTED\<rparr>\<rparr>,
                if HasSg I = 0 then chan_stop B (TxBdRing I) w else w)
          else (I, w));
       (I, w) =
         (if HasS2Mm I \<noteq> 0
          then (set_RxRing I RingIndex
                  ((XAxiDma_GetRxRing I RingIndex)\<lparr>RunState := AXIDMA_CHANNEL_HALTED\<rparr>),
                if HasSg I = 0 then chan_stop B (XAxiDma_GetRxRing I RingIndex) w else w)
          else (I, w))
     in (XST_SUCCESS, I, w))"

definition XAxiDma_Started :: "'d bus \<Rightarrow> XAxiDma \<Rightarrow> int \<Rightarrow> 'd world \<Rightarrow> bool \<times> 'd world" where
  "XAxiDma_Started B I RingIndex w =
    (if Initialized I = 0 then (False, w)
     else let (up, w) = (if HasMm2S I \<noteq> 0 then XAxiDma_mBdRingHwIsStarted B (TxBdRing I) w
                         else (True, w))
     in if \<not> up then (False, w)
        else if HasS2Mm I \<noteq> 0
        then XAxiDma_mBdRingHwIsStarted B (XAxiDma_GetRxRing I RingIndex) w
        else (True, w))"

definition Resume_tx ::
  "'d bus \<Rightarrow> XAxiDma \<Rightarrow> int \<Rightarrow> 'd world \<Rightarrow> (status \<times> XAxiDma \<times> 'd world) option" where
  "Resume_tx B I RingIndex w =
    (if HasMm2S I \<noteq> 0 then
       if HasSg I \<noteq> 0 then
         case XAxiDma_BdRingStart B (TxBdRing I) RingIndex w of
           None \<Rightarrow> None
         | Some (Status, r, w) \<Rightarrow>
             if Status \<noteq> XST_SUCCESS then Some (XST_DMA_ERROR, I\<lparr>TxBdRing := r\<rparr>, w)
             else Some (XST_SUCCESS, I\<lparr>TxBdRing := r\<lparr>RunState := AXIDMA_CHANNEL_NOT_HALTED\<rparr>\<rparr>, w)
       else Some (XST_SUCCESS,
         I\<lparr>TxBdRing := (TxBdRing I)\<lparr>RunState := AXIDMA_CHANNEL_NOT_HALTED\<rparr>\<rparr>, w)
     else Some (XST_SUCCESS, I, w))"

definition Resume_rx ::
  "'d bus \<Rightarrow> XAxiDma \<Rightarrow> int \<Rightarrow> 'd world \<Rightarrow> (status \<times> XAxiDma \<times> 'd world) option" where
  "Resume_rx B I RingIndex w =
    (if HasS2Mm I \<noteq> 0 then
       let r = XAxiDma_GetRxRing I RingIndex in
       if HasSg I \<noteq> 0 then
         case XAxiDma_BdRingStart B r RingIndex w of
           None \<Rightarrow> None
         | Some (Status, r, w) \<Rightarrow>
             if Status \<noteq> XST_SUCCESS then Some (XST_DMA_ERROR, set_RxRing I RingIndex r, w)
             else Some (XST_SUCCESS,
               set_RxRing I RingIndex (r\<lparr>RunState := AXIDMA_CHANNEL_NOT_HALTED\<rparr>), w)
       else Some (XST_SUCCESS,
         set_RxRing I RingIndex (r\<lparr>RunState := AXIDMA_CHANNEL_NOT_HALTED\<rparr>), w)
     else Some (XST_SUCCESS, I, w))"

definition XAxiDma_Resume ::
  "'d bus \<Rightarrow> XAxiDma \<Rightarrow> int \<Rightarrow> 'd world \<Rightarrow> (status \<times> XAxiDma \<times> 'd world) option" where
  "XAxiDma_Resume B I RingIndex w =
    (if Initialized I = 0 then Some (XST_NOT_SGDMA, I, w)
     else let (up, w) = XAxiDma_Started B I RingIndex w in
     case (if \<not> up then XAxiDma_Start B I RingIndex w else Some (XST_SUCCESS, I, w)) of
       None \<Rightarrow> None
     | Some (Status, I, w) \<Rightarrow>
         if Status \<noteq> XST_SUCCESS then Some (Status, I, w)
         else case Resume_tx B I RingIndex w of
           None \<Rightarrow> None
         | Some (Status, I, w) \<Rightarrow>
             if Status \<noteq> XST_SUCCESS then Some (Status, I, w) else Resume_rx B I RingIndex w)"

section \<open>Simple mode\<close>

definition XAxiDma_Busy :: "'d bus \<Rightarrow> XAxiDma \<Rightarrow> int \<Rightarrow> 'd world \<Rightarrow> bool \<times> 'd world" where
  "XAxiDma_Busy B I Direction w =
    (let (v, w) = XAxiDma_ReadReg B (RegBase I + XAXIDMA_RX_OFFSET * word_of_int Direction)
           XAXIDMA_SR_OFFSET w
     in (v AND XAXIDMA_IDLE_MASK = 0, w))"

definition XAxiDma_SelectKeyHole ::
  "'d bus \<Rightarrow> XAxiDma \<Rightarrow> int \<Rightarrow> int \<Rightarrow> 'd world \<Rightarrow> status \<times> 'd world" where
  "XAxiDma_SelectKeyHole B I Direction Select w =
    (let base = RegBase I + XAXIDMA_RX_OFFSET * word_of_int Direction;
         (Value, w) = XAxiDma_ReadReg B base XAXIDMA_CR_OFFSET w;
         Value = (if Select \<noteq> 0 then Value OR XAXIDMA_CR_KEYHOLE_MASK
                  else Value AND NOT XAXIDMA_CR_KEYHOLE_MASK)
     in (XST_SUCCESS, XAxiDma_WriteReg B base XAXIDMA_CR_OFFSET Value w))"

text \<open>Both directions run the same statements on their ring, with the address register of the
  direction (the two have the same offset).\<close>

definition SimpleTransfer_chan ::
  "'d bus \<Rightarrow> XAxiDma \<Rightarrow> XAxiDma_BdRing \<Rightarrow> int \<Rightarrow> u32 \<Rightarrow> u32 \<Rightarrow> u32 \<Rightarrow> int \<Rightarrow> 'd world
    \<Rightarrow> status \<times> 'd world" where
  "SimpleTransfer_chan B I r present addr_reg BuffAddr Len Direction w =
    (if Len < 1 \<or> Len > MaxTransferLen r then (XST_INVALID_PARAM, w)
     else if present = 0 then (XST_FAILURE, w)
     else let
       (v, w) = XAxiDma_ReadReg B (ChanBase r) XAXIDMA_SR_OFFSET w;
       (busy, w) = (if v AND XAXIDMA_HALTED_MASK = 0 then XAxiDma_Busy B I Direction w
                    else (False, w))
     in if busy then (XST_FAILURE, w)
     else let WordBits = (word_of_int (DataWidth r - 1) :: u32) in
     if BuffAddr AND WordBits \<noteq> 0 \<and> HasDRE r = 0 then (XST_INVALID_PARAM, w)
     else let
       w = XAxiDma_WriteReg B (ChanBase r) addr_reg BuffAddr w;
       w = chan_run B r w
     in (XST_SUCCESS, XAxiDma_WriteReg B (ChanBase r) XAXIDMA_BUFFLEN_OFFSET Len w))"

definition XAxiDma_SimpleTransfer ::
  "'d bus \<Rightarrow> XAxiDma \<Rightarrow> u32 \<Rightarrow> u32 \<Rightarrow> int \<Rightarrow> int \<Rightarrow> 'd world \<Rightarrow> status \<times> 'd world" where
  "XAxiDma_SimpleTransfer B I BuffAddr Len Direction RingIndex w =
    (if HasSg I \<noteq> 0 then (XST_FAILURE, w)
     else if Direction = XAXIDMA_DMA_TO_DEVICE then
       SimpleTransfer_chan B I (TxBdRing I) (HasMm2S I) XAXIDMA_SRCADDR_OFFSET BuffAddr Len Direction w
     else if Direction = XAXIDMA_DEVICE_TO_DMA then
       SimpleTransfer_chan B I (XAxiDma_GetRxRing I RingIndex) (HasS2Mm I) XAXIDMA_DESTADDR_OFFSET
         BuffAddr Len Direction w
     else (XST_SUCCESS, w))"

end
