(* ===== verification/Ring_Props.thy ===== *)
theory Ring_Props
  imports Ring_Machine Axidma
begin

unbundle bit_operations_syntax

text \<open>
  The properties of the descriptor ring, with concrete instances on a ring of four descriptors.
\<close>

section \<open>Concrete rings\<close>

text \<open>A transmit ring at virtual address \<open>0x40000000\<close>, physical address \<open>0x1000\<close>.\<close>

definition demo_ring :: "nat \<Rightarrow> XAxiDma_BdRing" where
  "demo_ring n = create_ring (zero_ring\<lparr>MaxTransferLen := 0x7FFFFF\<rparr>) 0x1000 0x40000000 64 n"

definition demo_world :: "(u32 \<Rightarrow> u32) world" where
  "demo_world = \<lparr>ram = (\<lambda>a. 0), dev = (\<lambda>a. 0)\<rparr>"

lemma demo_args: "0 < n \<Longrightarrow> n \<le> 1024 \<Longrightarrow> create_args 0x1000 0x40000000 64 n"
  by (simp add: create_args_def)

lemma demo_inv: "0 < n \<Longrightarrow> n \<le> 1024 \<Longrightarrow> ring_inv (demo_ring n)"
  unfolding demo_ring_def by (intro view_inv [OF create_view] demo_args)

lemma demo_groups: "0 < n \<Longrightarrow> n \<le> 1024 \<Longrightarrow>
  groups (demo_ring n) = \<lparr>g_post = [], g_hw = [], g_pre = [],
    g_free = map (\<lambda>i. 0x40000000 + 64 * of_nat i) [0..<n]\<rparr>"
  unfolding demo_ring_def
  by (simp add: view_groups [OF create_view [OF demo_args]] ring_seg_def create_geom [OF demo_args]
      cyc_def)

section \<open>Reachable states\<close>

text \<open>C6: in every state reachable by ring operations with arbitrary arguments, interleaved with
  arbitrary changes of memory and device, the ring invariant holds and the four groups together
  hold each descriptor of the ring exactly once.\<close>

theorem ring_partition_reachable:
  assumes "rtranclp (ring_step B) s s'" and "machine_inv s"
  shows "ring_inv (rs_ring s') \<and> distinct (all_bds (groups (rs_ring s')))
    \<and> set (all_bds (groups (rs_ring s'))) = set (all_bds (groups (rs_ring s)))"
  using ring_steps_inv [OF assms] assms(2) inv_partition
  by (simp add: machine_inv_def same_bds_def)

text \<open>C7: descriptors come back from the hardware in the order in which they were submitted, none
  lost and none twice: the submitted ones are the returned ones followed by the work group.\<close>

theorem ring_fifo_reachable:
  assumes "rtranclp (ring_step B) s s'" and "machine_inv s"
  shows "rs_sub s' = rs_ret s' @ g_hw (groups (rs_ring s')) \<and> distinct (g_hw (groups (rs_ring s')))"
  using ring_steps_inv [OF assms] inv_partition [of "rs_ring s'"]
  by (simp add: machine_inv_def all_bds_def)

definition demo_state :: "(u32 \<Rightarrow> u32) rstate" where
  "demo_state = \<lparr>rs_ring = demo_ring 4, rs_world = demo_world, rs_sub = [], rs_ret = []\<rparr>"

lemma demo_machine_inv: "machine_inv demo_state"
  by (simp add: machine_inv_def demo_state_def demo_inv demo_groups)

lemma demo_step:
  "rtranclp (ring_step regfile) demo_state
    (demo_state\<lparr>rs_ring := fst (snd (XAxiDma_BdRingAlloc (demo_ring 4) 2))\<rparr>)"
proof (rule r_into_rtranclp)
  show "ring_step regfile demo_state
    (demo_state\<lparr>rs_ring := fst (snd (XAxiDma_BdRingAlloc (demo_ring 4) 2))\<rparr>)"
    by (rule step_alloc [of _ 2 "fst (XAxiDma_BdRingAlloc (demo_ring 4) 2)" _
          "snd (snd (XAxiDma_BdRingAlloc (demo_ring 4) 2))"])
      (simp add: demo_state_def)
qed

theorem ring_partition_reachable_witness:
  "ring_inv (fst (snd (XAxiDma_BdRingAlloc (demo_ring 4) 2)))"
  using ring_partition_reachable [OF demo_step demo_machine_inv] by simp

theorem ring_fifo_reachable_witness:
  "[] = [] @ g_hw (groups (fst (snd (XAxiDma_BdRingAlloc (demo_ring 4) 2))))"
  using ring_fifo_reachable [OF demo_step demo_machine_inv] by (simp add: demo_state_def)

section \<open>Refinement of the operations\<close>


text \<open>C9: \<^verbatim>\<open>XAxiDma_BdRingFromHw\<close> returns the longest run of completed descriptors at the head of the
  work group that ends a packet, within the limit, and moves exactly those to the post-work
  group; the pointer it returns is the first of them, or \<open>NULL\<close>.\<close>

theorem fromhw_refines:
  assumes "ring_inv r"
  shows "case XAxiDma_BdRingFromHw r BdLimit m of (n, r', b) \<Rightarrow>
    n = int (whole_packets (bd_done m) (bd_eof r m) (take (nat BdLimit) (g_hw (groups r))))
    \<and> ring_inv r' \<and> groups r' = spec_fromhw (nat n) (groups r)
    \<and> b = (if n = 0 then NULL else hd (g_hw (groups r)))"
proof -
  obtain n r' b where op: "XAxiDma_BdRingFromHw r BdLimit m = (n, r', b)"
    by (metis prod_cases3)
  show ?thesis
    using fromhw_cases [OF assms op] by (simp add: op)
qed

text \<open>C17: \<^verbatim>\<open>XAxiDma_BdRingAlloc\<close> hands out the first descriptors of the free group, or fails without
  an effect.\<close>

theorem alloc_refines:
  assumes "ring_inv r"
  shows "case XAxiDma_BdRingAlloc r NumBd of (st, r', b) \<Rightarrow>
    if NumBd \<le> 0 then st = XST_INVALID_PARAM \<and> r' = r \<and> b = None
    else if int (length (g_free (groups r))) < NumBd then st = XST_FAILURE \<and> r' = r \<and> b = None
    else st = XST_SUCCESS \<and> ring_inv r' \<and> groups r' = spec_alloc (nat NumBd) (groups r)
      \<and> b = Some (hd (g_free (groups r)))"
proof -
  obtain st r' b where op: "XAxiDma_BdRingAlloc r NumBd = (st, r', b)"
    by (metis prod_cases3)
  show ?thesis
    using alloc_cases [OF assms op] by (auto simp: op)
qed

text \<open>C18: \<^verbatim>\<open>XAxiDma_BdRingFree\<close> returns the first descriptors of the post-work group to the end of
  the free group, and rejects any other set.\<close>

theorem free_refines:
  assumes "ring_inv r"
  shows "case XAxiDma_BdRingFree r NumBd BdSetPtr of (st, r') \<Rightarrow>
    if NumBd < 0 then st = XST_INVALID_PARAM \<and> r' = r
    else if NumBd = 0 then st = XST_SUCCESS \<and> r' = r
    else if int (length (g_post (groups r))) < NumBd \<or> BdSetPtr \<noteq> PostHead r
    then st = XST_DMA_SG_LIST_ERROR \<and> r' = r
    else st = XST_SUCCESS \<and> ring_inv r' \<and> groups r' = spec_free (nat NumBd) (groups r)"
proof -
  obtain st r' where op: "XAxiDma_BdRingFree r NumBd BdSetPtr = (st, r')"
    by (metis surj_pair)
  obtain i q h p f where v: "ring_view r i q h p f"
    using assms by (rule ring_inv_view)
  have "0 < NumBd \<Longrightarrow> NumBd \<le> int q \<Longrightarrow> hd (g_post (groups r)) = PostHead r"
    using view_heads(1) [OF v] by simp
  then show ?thesis
    using free_cases [OF assms op] view_lengths [OF v] by (auto simp: op)
qed

text \<open>C20: \<^verbatim>\<open>XAxiDma_BdRingUnAlloc\<close> gives the last descriptors of the pre-work group back to the
  front of the free group, in their order, and rejects a set that does not end at the free head.\<close>

theorem unalloc_refines:
  assumes "ring_inv r"
  shows "case XAxiDma_BdRingUnAlloc r NumBd BdSetPtr of (st, r') \<Rightarrow>
    if NumBd \<le> 0 then st = XST_INVALID_PARAM \<and> r' = r
    else if int (length (g_pre (groups r))) < NumBd \<or> XAXIDMA_RING_SEEKAHEAD r BdSetPtr NumBd \<noteq> FreeHead r
    then st = XST_FAILURE \<and> r' = r
    else st = XST_SUCCESS \<and> ring_inv r' \<and> groups r' = spec_unalloc (nat NumBd) (groups r)"
proof -
  obtain st r' where op: "XAxiDma_BdRingUnAlloc r NumBd BdSetPtr = (st, r')"
    by (metis surj_pair)
  show ?thesis
    using unalloc_cases [OF assms op] by (auto simp: op)
qed

text \<open>C19: allocating a set and giving it back with \<^verbatim>\<open>XAxiDma_BdRingUnAlloc\<close> leaves all four groups
  as they were.\<close>

theorem alloc_unalloc_roundtrip:
  assumes "ring_inv r" and "0 < k" and "k \<le> length (g_free (groups r))"
  shows "\<exists>r' r'' b. XAxiDma_BdRingAlloc r (int k) = (XST_SUCCESS, r', Some b)
    \<and> XAxiDma_BdRingUnAlloc r' (int k) b = (XST_SUCCESS, r'') \<and> ring_inv r'' \<and> groups r'' = groups r"
  by (rule bdq.alloc_unalloc [OF assms])

section \<open>Instances\<close>

text \<open>Two descriptors allocated, filled in as one packet, and a channel that is running.\<close>

definition demo_tx_ring :: XAxiDma_BdRing where
  "demo_tx_ring = (fst (snd (XAxiDma_BdRingAlloc (demo_ring 4) 2)))\<lparr>RunState := 1\<rparr>"

definition demo_tx_ram :: memory where
  "demo_tx_ram = store32 (store32 (\<lambda>a. 0) 0x40000018 0x08000100) 0x40000058 0x04000200"

lemma demo_alloc:
  "ring_inv (fst (snd (XAxiDma_BdRingAlloc (demo_ring 4) 2)))"
  "groups (fst (snd (XAxiDma_BdRingAlloc (demo_ring 4) 2))) = \<lparr>g_post = [], g_hw = [],
     g_pre = [0x40000000, 0x40000040], g_free = [0x40000080, 0x400000C0]\<rparr>"
proof -
  obtain st r' b where op: "XAxiDma_BdRingAlloc (demo_ring 4) 2 = (st, r', b)"
    by (metis prod_cases3)
  have "[0..<4] = [0, 1, 2, 3 :: nat]"
    by (simp add: upt_rec)
  with alloc_cases [OF demo_inv op] demo_groups [of 4]
  show "ring_inv (fst (snd (XAxiDma_BdRingAlloc (demo_ring 4) 2)))"
    "groups (fst (snd (XAxiDma_BdRingAlloc (demo_ring 4) 2))) = \<lparr>g_post = [], g_hw = [],
       g_pre = [0x40000000, 0x40000040], g_free = [0x40000080, 0x400000C0]\<rparr>"
    by (auto simp: op spec_alloc_def)
qed

lemma demo_tx:
  "ring_inv demo_tx_ring" "PreHead demo_tx_ring = 0x40000000" "RunState demo_tx_ring = 1"
  "groups demo_tx_ring = \<lparr>g_post = [], g_hw = [], g_pre = [0x40000000, 0x40000040],
     g_free = [0x40000080, 0x400000C0]\<rparr>"
  "IsRxChannel demo_tx_ring = 0" "MaxTransferLen demo_tx_ring = 0x7FFFFF"
  using demo_alloc
  by (simp_all add: demo_tx_ring_def)
    (simp_all add: XAxiDma_BdRingAlloc_def demo_ring_def create_ring_def zero_ring_def)

lemma demo_tx_ok: "tohw_ok demo_tx_ring demo_tx_ram [0x40000000, 0x40000040]"
  by (simp add: tohw_ok_def demo_tx bd_len_ok_def XAxiDma_BdGetLength_def XAxiDma_BdRead_def
      demo_tx_ram_def mem_simps separate4_def)


definition demo_hw_ring :: XAxiDma_BdRing where
  "demo_hw_ring = fst (snd (XAxiDma_BdRingToHw regfile demo_tx_ring 2 0x40000000 0
     (demo_world\<lparr>ram := demo_tx_ram\<rparr>)))"

lemma demo_hw:
  "ring_inv demo_hw_ring"
  "groups demo_hw_ring = \<lparr>g_post = [], g_hw = [0x40000000, 0x40000040], g_pre = [],
     g_free = [0x40000080, 0x400000C0]\<rparr>"
  "IsRxChannel demo_hw_ring = 0" "ChanBase demo_hw_ring = 0"
proof -
  obtain st r' w' where op: "XAxiDma_BdRingToHw regfile demo_tx_ring 2 0x40000000 0
      (demo_world\<lparr>ram := demo_tx_ram\<rparr>) = (st, r', w')"
    by (metis prod_cases3)
  show "ring_inv demo_hw_ring"
    "groups demo_hw_ring = \<lparr>g_post = [], g_hw = [0x40000000, 0x40000040], g_pre = [],
       g_free = [0x40000080, 0x400000C0]\<rparr>"
    using tohw_cases [OF demo_tx(1) op] demo_tx_ok
    by (auto simp: demo_hw_ring_def op demo_tx spec_tohw_def)
  have "ChanBase demo_tx_ring = 0"
    by (simp add: demo_tx_ring_def XAxiDma_BdRingAlloc_def demo_ring_def create_ring_def zero_ring_def)
  then show "IsRxChannel demo_hw_ring = 0" "ChanBase demo_hw_ring = 0"
    using demo_tx(5)
    by (simp_all add: demo_hw_ring_def XAxiDma_BdRingToHw_def Let_def split_beta)
qed

lemma demo_hw_packets:
  "whole_packets (bd_done (\<lambda>a. 0xFF)) (bd_eof demo_hw_ring (\<lambda>a. 0xFF)) [0x40000000, 0x40000040] = 2"
  by (simp add: whole_packets_def bd_done_def bd_eof_def BdRing_is_eof_def XAxiDma_BdHwCompleted_def
      XAxiDma_BdRead_def load32_def demo_hw)

theorem fromhw_refines_witness:
  "case XAxiDma_BdRingFromHw demo_hw_ring 10 (\<lambda>a. 0xFF) of (n, r', b) \<Rightarrow> n = 2 \<and> ring_inv r'
    \<and> g_post (groups r') = [0x40000000, 0x40000040] \<and> b = 0x40000000"
  using fromhw_refines [OF demo_hw(1), where BdLimit = 10 and m = "\<lambda>a. 0xFF"] demo_hw_packets
  by (simp add: demo_hw split_beta spec_fromhw_def)

definition demo_post_ring :: XAxiDma_BdRing where
  "demo_post_ring = fst (snd (XAxiDma_BdRingFromHw demo_hw_ring 10 (\<lambda>a. 0xFF)))"

lemma demo_post:
  "ring_inv demo_post_ring"
  "groups demo_post_ring = \<lparr>g_post = [0x40000000, 0x40000040], g_hw = [], g_pre = [],
     g_free = [0x40000080, 0x400000C0]\<rparr>"
proof -
  obtain n r' b where op: "XAxiDma_BdRingFromHw demo_hw_ring 10 (\<lambda>a. 0xFF) = (n, r', b)"
    by (metis prod_cases3)
  show "ring_inv demo_post_ring"
    "groups demo_post_ring = \<lparr>g_post = [0x40000000, 0x40000040], g_hw = [], g_pre = [],
       g_free = [0x40000080, 0x400000C0]\<rparr>"
    using fromhw_cases [OF demo_hw(1) op] demo_hw_packets
    by (simp_all add: demo_post_ring_def op demo_hw spec_fromhw_def)
qed

theorem alloc_refines_witness:
  "case XAxiDma_BdRingAlloc (demo_ring 4) 3 of (st, r', b) \<Rightarrow> st = XST_SUCCESS \<and> ring_inv r'
     \<and> b = Some 0x40000000"
  using alloc_refines [OF demo_inv [of 4], where NumBd = 3]
  by (simp add: demo_groups split_beta upt_rec)

theorem free_refines_witness:
  "case XAxiDma_BdRingFree demo_post_ring 1 0x40000000 of (st, r') \<Rightarrow> st = XST_SUCCESS
    \<and> ring_inv r' \<and> g_free (groups r') = [0x40000080, 0x400000C0, 0x40000000]"
proof -
  obtain i q h p f where v: "ring_view demo_post_ring i q h p f"
    using demo_post(1) by (rule ring_inv_view)
  have "PostHead demo_post_ring = 0x40000000"
    using view_heads(1) [OF v] view_lengths [OF v] by (simp add: demo_post)
  then show ?thesis
    using free_refines [OF demo_post(1), where NumBd = 1 and BdSetPtr = "0x40000000"]
    by (simp add: demo_post split_beta spec_free_def)
qed

theorem unalloc_refines_witness:
  "case XAxiDma_BdRingUnAlloc demo_tx_ring 3 0x40000000 of (st, r') \<Rightarrow> st = XST_FAILURE \<and> r' = demo_tx_ring"
  using unalloc_refines [OF demo_tx(1), where NumBd = 3 and BdSetPtr = "0x40000000"]
  by (simp add: demo_tx split_beta)

theorem alloc_unalloc_roundtrip_witness:
  "\<exists>r' r'' b. XAxiDma_BdRingAlloc (demo_ring 4) (int 3) = (XST_SUCCESS, r', Some b)
    \<and> XAxiDma_BdRingUnAlloc r' (int 3) b = (XST_SUCCESS, r'') \<and> groups r'' = groups (demo_ring 4)"
  using alloc_unalloc_roundtrip [OF demo_inv [of 4], of 3] by (auto simp: demo_groups)

end
