(* ===== verification/Setup_Props.thy ===== *)
theory Setup_Props
  imports Ring_Props
begin

unbundle bit_operations_syntax

text \<open>
  Properties of the operations that create, fill, check and start a ring, of the pointer macros
  and of single descriptors.
\<close>

section \<open>Pointer macros\<close>

text \<open>C22: on a ring that does not run over the end of the address space the seek macros, which
  compute modulo \<open>2^32\<close>, are index arithmetic modulo the number of descriptors, also for a full
  turn, and seeking back undoes seeking ahead.\<close>

theorem seek_macros_index:
  assumes "ring_geom r" and "i < ring_size r" and "k \<le> ring_size r"
  shows "XAXIDMA_RING_SEEKAHEAD r (ring_at r i) (int k) = ring_at r ((i + k) mod ring_size r)
    \<and> XAXIDMA_RING_SEEKBACK r (XAXIDMA_RING_SEEKAHEAD r (ring_at r i) (int k)) (int k) = ring_at r i
    \<and> (XAxiDma_mBdRingNext r ^^ k) (ring_at r i) = XAXIDMA_RING_SEEKAHEAD r (ring_at r i) (int k)"
  using seekahead_at [OF assms] bdptr.behind_ahead [OF assms] bdptr.nxt_funpow_ahead [OF assms] by simp

lemma demo_geom: "0 < n \<Longrightarrow> n \<le> 1024 \<Longrightarrow> ring_geom (demo_ring n)"
  "0 < n \<Longrightarrow> n \<le> 1024 \<Longrightarrow> ring_size (demo_ring n) = n"
  "0 < n \<Longrightarrow> n \<le> 1024 \<Longrightarrow> ring_at (demo_ring n) i = 0x40000000 + 64 * of_nat i"
  unfolding demo_ring_def by (simp_all add: create_geom demo_args)

theorem seek_macros_index_witness:
  "XAXIDMA_RING_SEEKAHEAD (demo_ring 4) 0x400000C0 (int 3) = 0x40000080"
  using seek_macros_index [OF demo_geom(1), of 4 3 3] by (simp add: demo_geom)

section \<open>Creating, checking and cloning\<close>

text \<open>C21: \<^verbatim>\<open>XAxiDma_BdRingCreate\<close> with valid arguments succeeds and gives a halted ring that
  satisfies the invariant, with all descriptors free, the next pointers closing a cycle in
  physical memory, and the hardware information in each descriptor.\<close>

theorem create_establishes:
  assumes "create_args PhysAddr VirtAddr Alignment n"
  shows "case XAxiDma_BdRingCreate r PhysAddr VirtAddr Alignment (int n) m of (st, r', m') \<Rightarrow>
    st = XST_SUCCESS \<and> ring_inv r' \<and> RunState r' = AXIDMA_CHANNEL_HALTED
    \<and> g_free (groups r') = map (\<lambda>i. VirtAddr + Alignment * of_nat i) [0..<n]
    \<and> FirstBdPhysAddr r' = PhysAddr \<and> restart_ok r' \<and> ring_linked r' m' \<and> ring_hwinfo r' m'"
proof -
  let ?r = "create_ring r PhysAddr VirtAddr Alignment n"
  note g = create_geom [OF assms, of r]
  have "0 < n" using assms by (simp add: create_args_def)
  have "restart_ok ?r"
    using ring_idx_at [OF g(1), of 0] \<open>0 < n\<close> g(2,3)
    by (simp add: restart_ok_def restart_idx_def XAXIDMA_PHYS_TO_VIRT_def) (simp add: create_ring_def)
  moreover have "RunState ?r = 2" "FirstBdPhysAddr ?r = PhysAddr"
    by (simp_all add: create_ring_def)
  moreover have "g_free (groups ?r) = map (\<lambda>i. VirtAddr + Alignment * of_nat i) [0..<n]"
    by (simp add: view_groups [OF create_view [OF assms]] ring_seg_def g cyc_def)
  ultimately show ?thesis
    using create_result [OF assms, of r m] create_memory(1,2) [OF assms, of r m]
      view_inv [OF create_view [OF assms, of r]]
    by simp
qed

theorem create_establishes_witness:
  "case XAxiDma_BdRingCreate zero_ring 0x1000 0x40000000 64 (int 4) (\<lambda>a. 7) of (st, r', m') \<Rightarrow>
     st = XST_SUCCESS \<and> ring_inv r' \<and> ring_linked r' m'"
  using create_establishes [OF demo_args [of 4], where m = "\<lambda>a. 7" and r = zero_ring] by (simp add: split_beta)




text \<open>C26: \<^verbatim>\<open>XAxiDma_BdRingClone\<close> copies the words from \<open>0x08\<close> to \<open>0x34\<close> of the template into every
  descriptor, with the completed bit of the status cleared, and keeps next pointers and hardware
  information.\<close>

theorem clone_effect:
  assumes "ring_inv r" and "RunState r = AXIDMA_CHANNEL_HALTED" and "FreeCnt r = AllCnt r"
    and "i < ring_size r"
  shows "case XAxiDma_BdRingClone r T m of (st, m') \<Rightarrow> st = XST_SUCCESS
    \<and> XAxiDma_BdRead m' (ring_at r i) XAXIDMA_BD_STS_OFFSET
        = XAxiDma_BdRead T 0 XAXIDMA_BD_STS_OFFSET AND NOT XAXIDMA_BD_STS_COMPLETE_MASK
    \<and> (\<forall>off\<in>{0x08, 0x0C, 0x10, 0x14, 0x18, 0x20, 0x24, 0x28, 0x2C, 0x30, 0x34}.
        XAxiDma_BdRead m' (ring_at r i) off = XAxiDma_BdRead T 0 off)
    \<and> (\<forall>off\<in>{0x00, 0x04, 0x38, 0x3C}.
        XAxiDma_BdRead m' (ring_at r i) off = XAxiDma_BdRead m (ring_at r i) off)"
proof -
  define T' where "T' = XAxiDma_BdWrite T 0 0x1C (XAxiDma_BdRead T 0 0x1C AND NOT 0x80000000)"
  define m' where "m' = BdRingClone_loop (ring_size r) r T' m (ring_at r 0)"
  have g: "ring_geom r"
    using assms(1) by (simp add: ring_inv_def ring_view_def)
  have n: "AllCnt r \<noteq> 0" "nat (AllCnt r) = ring_size r"
    using ring_geomD(1,7) [OF g] by (auto simp: ring_size_def)
  have res: "XAxiDma_BdRingClone r T m = (0, m')"
    using assms(2,3) n by (simp add: XAxiDma_BdRingClone_def ring_at_0 m'_def T'_def)
  have read: "XAxiDma_BdRead m' (ring_at r i) off = (if 8 \<le> unat off \<and> unat off + 4 \<le> 56
      then XAxiDma_BdRead T' 0 off else XAxiDma_BdRead m (ring_at r i) off)"
    if "unat off + 4 \<le> 8 \<or> 8 \<le> unat off \<and> unat off + 4 \<le> 56 \<or> 56 \<le> unat off \<and> unat off + 4 \<le> 64" for off
  proof -
    from that have "unat off + 4 \<le> 64"
      and "unat off + 4 \<le> 8 \<or> 8 \<le> unat off \<and> unat off + 4 \<le> 56 \<or> 56 \<le> unat off" by auto
    from clone_loop_read [OF g assms(4) this, of 0 "ring_size r"] assms(4) show ?thesis
      by (simp add: m'_def)
  qed
  have T0: "XAxiDma_BdRead T' 0 0x1C = XAxiDma_BdRead T 0 0x1C AND NOT 0x80000000"
    unfolding T'_def by (rule BdRead_BdWrite_same)
  have T: "XAxiDma_BdRead T' 0 off = XAxiDma_BdRead T 0 off" if "separate4 0x1C off" for off
    unfolding T'_def using that by (rule BdRead_BdWrite_other)
  show ?thesis
    unfolding res by (simp add: read T T0 separate4_def)
qed

theorem clone_effect_witness:
  "case XAxiDma_BdRingClone (demo_ring 4) (\<lambda>a. 0xFF) (\<lambda>a. 0) of (st, m') \<Rightarrow> st = XST_SUCCESS
    \<and> XAxiDma_BdRead m' 0x400000C0 XAXIDMA_BD_STS_OFFSET = 0x7FFFFFFF"
proof -
  have "RunState (demo_ring 4) = 2" "FreeCnt (demo_ring 4) = AllCnt (demo_ring 4)"
    by (simp_all add: demo_ring_def create_ring_def)
  then show ?thesis
    using clone_effect [OF demo_inv [of 4], where i = 3 and T = "\<lambda>a. 0xFF" and m = "\<lambda>a. 0"]
    by (simp add: demo_geom split_beta) (simp add: XAxiDma_BdRead_def load32_def)
qed

end
