(* ===== verification/Start_Props.thy ===== *)
theory Start_Props
  imports Setup_Props
begin

unbundle bit_operations_syntax

text \<open>
  Properties of the operations that load, start and restart a channel, of interrupt coalescing,
  and of a set of descriptors that could not be submitted.
\<close>

section \<open>Loading the current descriptor\<close>


text \<open>A device whose status register reads as halted.\<close>

definition halted_world :: "(u32 \<Rightarrow> u32) world" where
  "halted_world = \<lparr>ram = (\<lambda>a. 0), dev = (\<lambda>a. 0)(4 := 1)\<rparr>"

lemma demo_restart: "0 < n \<Longrightarrow> n \<le> 1024 \<Longrightarrow> restart_ok (demo_ring n) \<and> restart_idx (demo_ring n) = 0"
  using ring_idx_at [OF demo_geom(1), of n 0] demo_geom [of n]
  by (simp add: restart_ok_def restart_idx_def XAXIDMA_PHYS_TO_VIRT_def)
    (simp add: demo_ring_def create_ring_def)


lemma cdesc_loop_diverges:
  assumes "UpdateBdRingCDesc_loop r m b = Some res" and "ring_geom r"
    and "\<forall>j<ring_size r. bd_done m (ring_at r j) \<and> XAXIDMA_VIRT_TO_PHYS r (ring_at r j) \<noteq> BdaRestart r"
  shows "\<forall>i<ring_size r. b \<noteq> ring_at r i"
  using assms(2,3)
proof (induction rule: UpdateBdRingCDesc_loop.raw_induct [OF _ assms(1), consumes 0])
  case (1 loop r m b res)
  have "Suc i mod ring_size r < ring_size r" for i
    using bdptr.idx_less [OF \<open>ring_geom r\<close>] .
  then show ?case
    using 1(1) [of r m "XAxiDma_mBdRingNext r b" res] 1(2-) next_at [OF \<open>ring_geom r\<close>]
    by (auto simp: bd_done_def Let_def split: if_splits)
qed


lemma done_everywhere: "bd_done (\<lambda>a. 0xFF) b"
  by (simp add: bd_done_def XAxiDma_BdHwCompleted_def XAxiDma_BdRead_def load32_def)


section \<open>Starting and restarting\<close>

text \<open>C28: starting a paused ring whose channel is running hands over the descriptors submitted
  while it was paused: the tail pointer is written if the last of them is not completed, and the
  ring's groups do not change.\<close>

theorem resume_writes_tail:
  assumes "ring_inv r" and "RunState r \<noteq> AXIDMA_CHANNEL_NOT_HALTED" and "g_hw (groups r) \<noteq> []"
    and "\<not> bd_done (ram w) (last (g_hw (groups r)))"
    and "bus_in32 B (ChanBase r + XAXIDMA_SR_OFFSET) (dev w) = (sr, dev w)"
    and "sr AND XAXIDMA_HALTED_MASK = 0"
  shows "XAxiDma_BdRingStart B r RingIndex w = Some (XST_SUCCESS, r\<lparr>RunState := AXIDMA_CHANNEL_NOT_HALTED\<rparr>,
      XAxiDma_WriteReg B (ChanBase r) (BdRing_tdesc_offset r RingIndex)
        (XAXIDMA_VIRT_TO_PHYS r (last (g_hw (groups r)))) w)
    \<and> groups (r\<lparr>RunState := AXIDMA_CHANNEL_NOT_HALTED\<rparr>) = groups r"
proof -
  obtain i q h p f where v: "ring_view r i q h p f"
    using assms(1) by (rule ring_inv_view)
  have n: "AllCnt r \<noteq> 0" and h: "HwCnt r > 0"
    using v assms(3) ring_geomD(1,7) [of r] view_lengths [OF v] by (auto simp: ring_view_def)
  have tail: "HwTail r = last (g_hw (groups r))"
    using view_tail [OF v] view_lengths [OF v] assms(3) by (cases h) auto
  have st: "XAxiDma_mBdRingHwIsStarted B r w = (True, w)"
    using assms(5,6) by (simp add: XAxiDma_mBdRingHwIsStarted_def XAxiDma_ReadReg_def XIo_In32_def)
  show ?thesis
    using assms(2,4) n h
    by (simp add: XAxiDma_BdRingStart_def XAxiDma_UpdateBdRingCDesc_def XAxiDma_StartBdRingHw_def st
        tail bd_done_def XAxiDma_BdHwCompleted_def BdRing_tdesc_offset_def XAXIDMA_VIRT_TO_PHYS_def Let_def)
qed

theorem resume_writes_tail_witness:
  "XAxiDma_BdRingStart regfile (demo_hw_ring\<lparr>RunState := AXIDMA_CHANNEL_HALTED\<rparr>) 0 demo_world
    = Some (XST_SUCCESS, demo_hw_ring\<lparr>RunState := AXIDMA_CHANNEL_NOT_HALTED\<rparr>,
        XAxiDma_WriteReg regfile 0 XAXIDMA_TDESC_OFFSET
          (XAXIDMA_VIRT_TO_PHYS demo_hw_ring 0x40000040) demo_world)"
  using resume_writes_tail [where r = "demo_hw_ring\<lparr>RunState := 2\<rparr>" and w = demo_world
      and B = regfile and sr = 0 and RingIndex = 0]
  by (simp add: demo_hw demo_world_def bd_done_def XAxiDma_BdHwCompleted_def XAxiDma_BdRead_def
      load32_def regfile_def BdRing_tdesc_offset_def XAXIDMA_VIRT_TO_PHYS_def)

section \<open>A set that could not be submitted\<close>

text \<open>C38: while the pre-work group holds a set that was allocated and neither submitted nor
  returned with \<^verbatim>\<open>XAxiDma_BdRingUnAlloc\<close>, every later set that \<^verbatim>\<open>XAxiDma_BdRingAlloc\<close> hands out is
  refused by \<^verbatim>\<open>XAxiDma_BdRingToHw\<close>, whatever its contents.\<close>

theorem tohw_after_leak:
  assumes "ring_inv r" and "g_pre (groups r) \<noteq> []" and "0 < NumBd"
    and "XAxiDma_BdRingAlloc r NumBd = (XST_SUCCESS, r', Some b)"
  shows "XAxiDma_BdRingToHw B r' NumBd b RingIndex w = (XST_DMA_SG_LIST_ERROR, r', w)"
proof -
  have alloc: "ring_inv r'" "groups r' = spec_alloc (nat NumBd) (groups r)"
    "b = hd (g_free (groups r))" "g_free (groups r) \<noteq> []"
    using alloc_cases [OF assms(1,4)] assms(3) by auto
  obtain i q h p f where v': "ring_view r' i q h p f"
    using alloc(1) by (rule ring_inv_view)
  have "g_pre (groups r') \<noteq> []" "hd (g_pre (groups r')) = hd (g_pre (groups r))"
    using assms(2) by (simp_all add: alloc(2) spec_alloc_def)
  then have "PreHead r' = hd (g_pre (groups r))"
    using view_heads(3) [OF v'] view_lengths [OF v'] by (cases p) auto
  moreover have "hd (g_pre (groups r)) \<noteq> hd (g_free (groups r))"
    using inv_partition [OF assms(1)] assms(2) alloc(4)
    by (auto simp: all_bds_def) (metis disjoint_iff hd_in_set)
  ultimately have b: "b \<noteq> PreHead r'"
    using alloc(3) by simp
  obtain st s w' where op: "XAxiDma_BdRingToHw B r' NumBd b RingIndex w = (st, s, w')"
    by (metis prod_cases3)
  have "hd (g_pre (groups r')) = PreHead r'"
    using \<open>g_pre (groups r') \<noteq> []\<close> view_heads(3) [OF v'] view_lengths [OF v'] by (cases p) auto
  then show ?thesis
    using tohw_cases [OF alloc(1) op] assms(3) b by (auto simp: op)
qed

theorem tohw_after_leak_witness:
  "\<exists>r' b. XAxiDma_BdRingAlloc demo_tx_ring 1 = (XST_SUCCESS, r', Some b)
    \<and> XAxiDma_BdRingToHw regfile r' 1 b 0 demo_world = (XST_DMA_SG_LIST_ERROR, r', demo_world)"
proof -
  obtain st r' b where op: "XAxiDma_BdRingAlloc demo_tx_ring 1 = (st, r', b)"
    by (metis prod_cases3)
  have "st = 0" "b = Some 0x40000080"
    using alloc_cases [OF demo_tx(1) op] by (auto simp: demo_tx)
  then show ?thesis
    using op tohw_after_leak [OF demo_tx(1), of 1 r' "0x40000080" regfile 0 demo_world]
    by (simp add: demo_tx)
qed

section \<open>Interrupt coalescing\<close>



end
