(* ===== verification/Engine_Props.thy ===== *)
theory Engine_Props
  imports Start_Props
begin

unbundle bit_operations_syntax

text \<open>
  Properties of the DMA engine instance (initialisation, simple transfers), of single descriptors,
  and of the byte-swapping accesses.
\<close>

text \<open>The four bytes of a word, least significant first.\<close>

definition word_rsplit_le :: "u32 \<Rightarrow> u8 list" where
  "word_rsplit_le v = [ucast (drop_bit 0 v), ucast (drop_bit 8 v), ucast (drop_bit 16 v), ucast (drop_bit 24 v)]"

section \<open>The loops over the receive rings\<close>

lemma nth_update_in: "j < length xs \<Longrightarrow> xs[i := v] ! j = (if i = j then v else xs ! j)"
  by (simp add: nth_list_update)

definition each_rx :: "(XAxiDma_BdRing \<Rightarrow> XAxiDma_BdRing) \<Rightarrow> nat list \<Rightarrow> XAxiDma \<Rightarrow> XAxiDma" where
  "each_rx f is I = fold (\<lambda>i I. set_RxRing I (int i) (f (XAxiDma_GetRxRing I (int i)))) is I"

lemma each_rx_frame: "\<exists>rs. each_rx f is I = I\<lparr>RxBdRing := rs\<rparr> \<and> length rs = length (RxBdRing I)"
proof (induction "is" arbitrary: I)
  case Nil
  show ?case
    by (rule exI [of _ "RxBdRing I"]) (simp add: each_rx_def)
next
  case (Cons i "is")
  from Cons [of "set_RxRing I (int i) (f (XAxiDma_GetRxRing I (int i)))"] show ?case
    by (auto simp: each_rx_def set_RxRing_def)
qed

lemma each_rx_ring:
  assumes "distinct is" and "j < length (RxBdRing I)"
  shows "RxBdRing (each_rx f is I) ! j = (if j \<in> set is then f (RxBdRing I ! j) else RxBdRing I ! j)"
  using assms
proof (induction "is" arbitrary: I)
  case (Cons i "is")
  then show ?case
    by (auto simp: each_rx_def set_RxRing_def XAxiDma_GetRxRing_def nth_update_in)
qed (simp add: each_rx_def)

lemma rx_loops_each:
  "CfgInitialize_rx_state is I = each_rx (\<lambda>r. r\<lparr>RunState := AXIDMA_CHANNEL_HALTED, IsRxChannel := 1\<rparr>) is I"
  "CfgInitialize_rx_base is Config MaxLen I = each_rx (\<lambda>r. r
      \<lparr>ChanBase := Cfg_BaseAddr Config + XAXIDMA_RX_OFFSET,
       HasStsCntrlStrm := Cfg_HasStsCntrlStrm Config,
       HasDRE := Cfg_HasS2MmDRE Config,
       DataWidth := uint (drop_bit 3 (word_of_int (Cfg_S2MmDataWidth Config) :: u32)),
       MaxTransferLen := MaxLen\<rparr>) is I"
  "HasS2Mm I \<noteq> 0 \<Longrightarrow> Reset_halt_rx is I = each_rx (\<lambda>r. r\<lparr>RunState := AXIDMA_CHANNEL_HALTED\<rparr>) is I"
proof -
  show "CfgInitialize_rx_state is I = each_rx (\<lambda>r. r\<lparr>RunState := 2, IsRxChannel := 1\<rparr>) is I"
    by (induction "is" arbitrary: I) (simp_all add: each_rx_def)
  show "CfgInitialize_rx_base is Config MaxLen I = each_rx (\<lambda>r. r
      \<lparr>ChanBase := Cfg_BaseAddr Config + XAXIDMA_RX_OFFSET,
       HasStsCntrlStrm := Cfg_HasStsCntrlStrm Config,
       HasDRE := Cfg_HasS2MmDRE Config,
       DataWidth := uint (drop_bit 3 (word_of_int (Cfg_S2MmDataWidth Config) :: u32)),
       MaxTransferLen := MaxLen\<rparr>) is I"
    by (induction "is" arbitrary: I) (simp_all add: each_rx_def)
  show "HasS2Mm I \<noteq> 0 \<Longrightarrow> Reset_halt_rx is I = each_rx (\<lambda>r. r\<lparr>RunState := 2\<rparr>) is I"
    by (induction "is" arbitrary: I) (simp_all add: each_rx_def set_RxRing_def)
qed

lemma snapshot_ring: "(fst (XAxiDma_mBdRingSnapShotCurrBd B r i w))\<lparr>BdaRestart := 0\<rparr> = r\<lparr>BdaRestart := 0\<rparr>"
  by (simp add: XAxiDma_mBdRingSnapShotCurrBd_def split_beta Let_def)

lemma snapshot_rx_frame:
  "\<exists>rs. fst (Reset_snapshot_rx B is (I, w)) = I\<lparr>RxBdRing := rs\<rparr> \<and> length rs = length (RxBdRing I)
    \<and> (\<forall>j<length rs. (rs ! j)\<lparr>BdaRestart := 0\<rparr> = (RxBdRing I ! j)\<lparr>BdaRestart := 0\<rparr>)"
proof (induction "is" arbitrary: I w)
  case Nil
  show ?case
    by (rule exI [of _ "RxBdRing I"]) simp
next
  case (Cons i "is")
  obtain r w' where s: "XAxiDma_mBdRingSnapShotCurrBd B (XAxiDma_GetRxRing I (int i)) (int i) w = (r, w')"
    by (metis surj_pair)
  have "r\<lparr>BdaRestart := 0\<rparr> = (RxBdRing I ! i)\<lparr>BdaRestart := 0\<rparr>"
    using snapshot_ring [of B "XAxiDma_GetRxRing I (int i)" "int i" w]
    unfolding s by (simp add: XAxiDma_GetRxRing_def)
  then show ?case
    using Cons [of "set_RxRing I (int i) r" w']
    by (force simp: s set_RxRing_def nth_update_in)
qed

section \<open>Initialisation\<close>

definition cfg_max_len :: "XAxiDma_Config \<Rightarrow> u32" where
  "cfg_max_len Config = (if Cfg_S2MmNumChannels Config > 1 \<or> Cfg_Mm2sNumChannels Config > 1
     then XAXIDMA_MCHAN_MAX_TRANSFER_LEN else XAXIDMA_MAX_TRANSFER_LEN)"

definition cfg_rx_ring :: "XAxiDma_Config \<Rightarrow> XAxiDma_BdRing" where
  "cfg_rx_ring Config = zero_ring\<lparr>RunState := AXIDMA_CHANNEL_HALTED, IsRxChannel := 1,
     ChanBase := Cfg_BaseAddr Config + XAXIDMA_RX_OFFSET, HasStsCntrlStrm := Cfg_HasStsCntrlStrm Config,
     HasDRE := Cfg_HasS2MmDRE Config,
     DataWidth := uint (drop_bit 3 (word_of_int (Cfg_S2MmDataWidth Config) :: u32)),
     MaxTransferLen := cfg_max_len Config\<rparr>"

definition cfg_tx_ring :: "XAxiDma_Config \<Rightarrow> XAxiDma_BdRing" where
  "cfg_tx_ring Config = zero_ring\<lparr>RunState := AXIDMA_CHANNEL_HALTED, IsRxChannel := 0,
     ChanBase := Cfg_BaseAddr Config, HasStsCntrlStrm := Cfg_HasStsCntrlStrm Config,
     HasDRE := Cfg_HasMm2SDRE Config,
     DataWidth := uint (drop_bit 3 (word_of_int (Cfg_Mm2SDataWidth Config) :: u32)),
     MaxTransferLen := cfg_max_len Config\<rparr>"

lemma setup_fields:
  assumes "Cfg_HasMm2S Config \<noteq> 0" and "Cfg_HasS2Mm Config \<noteq> 0"
    and "Cfg_S2MmNumChannels Config = int n" and "n \<le> 16"
  shows "\<exists>rs. CfgInitialize_setup Config = zero_XAxiDma\<lparr>RegBase := Cfg_BaseAddr Config,
      HasMm2S := Cfg_HasMm2S Config, HasS2Mm := Cfg_HasS2Mm Config, HasSg := Cfg_HasSg Config,
      TxNumChannels := Cfg_Mm2sNumChannels Config, RxNumChannels := int n,
      TxBdRing := cfg_tx_ring Config, RxBdRing := rs\<rparr>
    \<and> length rs = 16 \<and> (\<forall>j<n. rs ! j = cfg_rx_ring Config)"
proof -
  let ?I = "zero_XAxiDma\<lparr>RegBase := Cfg_BaseAddr Config, HasMm2S := Cfg_HasMm2S Config,
    HasS2Mm := Cfg_HasS2Mm Config, HasSg := Cfg_HasSg Config,
    TxNumChannels := Cfg_Mm2sNumChannels Config, RxNumChannels := int n,
    TxBdRing := zero_ring\<lparr>RunState := AXIDMA_CHANNEL_HALTED, IsRxChannel := 0,
      MaxTransferLen := cfg_max_len Config\<rparr>\<rparr>"
  let ?f = "\<lambda>r. r\<lparr>RunState := AXIDMA_CHANNEL_HALTED, IsRxChannel := 1 :: int\<rparr>"
  let ?g = "\<lambda>r. r\<lparr>ChanBase := Cfg_BaseAddr Config + XAXIDMA_RX_OFFSET,
     HasStsCntrlStrm := Cfg_HasStsCntrlStrm Config, HasDRE := Cfg_HasS2MmDRE Config,
     DataWidth := uint (drop_bit 3 (word_of_int (Cfg_S2MmDataWidth Config) :: u32)),
     MaxTransferLen := cfg_max_len Config\<rparr>"
  obtain rs where rs: "each_rx ?f [0..<n] ?I = ?I\<lparr>RxBdRing := rs\<rparr>" "length rs = 16"
    using each_rx_frame [of ?f "[0..<n]" ?I] by (auto simp: zero_XAxiDma_def)
  let ?J = "?I\<lparr>TxBdRing := cfg_tx_ring Config, RxBdRing := rs\<rparr>"
  obtain rs' where rs': "each_rx ?g [0..<n] ?J = ?J\<lparr>RxBdRing := rs'\<rparr>" "length rs' = 16"
    using each_rx_frame [of ?g "[0..<n]" ?J] rs(2) by auto
  have one: "rs ! j = ?f zero_ring" if "j < n" for j
    using each_rx_ring [of "[0..<n]" j ?I ?f] rs(1) that assms(4) by (simp add: zero_XAxiDma_def)
  have two: "rs' ! j = cfg_rx_ring Config" if "j < n" for j
    using each_rx_ring [of "[0..<n]" j ?J ?g] rs(2) rs'(1) that assms(4) one [OF that]
    by (simp add: cfg_rx_ring_def)
  have max: "CfgInitialize_max_len I = cfg_max_len Config"
    if "RxNumChannels I = Cfg_S2MmNumChannels Config" "TxNumChannels I = Cfg_Mm2sNumChannels Config" for I
    using that by (simp add: CfgInitialize_max_len_def cfg_max_len_def)
  have "CfgInitialize_setup Config = each_rx ?g [0..<n] ?J"
    using assms rs(1)
    by (simp add: CfgInitialize_setup_def Let_def rx_loops_each max cfg_tx_ring_def zero_XAxiDma_def
        zero_ring_def)
  then show ?thesis
    using rs' two by (intro exI [of _ rs']) simp
qed

lemma halt_cong: "a\<lparr>BdaRestart := 0\<rparr> = b\<lparr>BdaRestart := 0\<rparr> \<Longrightarrow>
  a\<lparr>RunState := c, BdaRestart := 0\<rparr> = b\<lparr>RunState := c, BdaRestart := 0\<rparr>"
  by (cases a; cases b) simp

lemma reset_fields:
  assumes "HasMm2S I \<noteq> 0" and "HasS2Mm I \<noteq> 0" and "RxNumChannels I = int n" and "n \<le> length (RxBdRing I)"
    and "XAxiDma_Reset B I w = (I', w')"
  shows "\<exists>t rs. I' = I\<lparr>TxBdRing := t, RxBdRing := rs\<rparr> \<and> length rs = length (RxBdRing I)
    \<and> t\<lparr>BdaRestart := 0\<rparr> = (TxBdRing I)\<lparr>RunState := AXIDMA_CHANNEL_HALTED, BdaRestart := 0\<rparr>
    \<and> (\<forall>j<n. (rs ! j)\<lparr>BdaRestart := 0\<rparr>
          = (RxBdRing I ! j)\<lparr>RunState := AXIDMA_CHANNEL_HALTED, BdaRestart := 0\<rparr>)"
proof -
  let ?f = "\<lambda>r. r\<lparr>RunState := AXIDMA_CHANNEL_HALTED\<rparr>"
  obtain t rs where s: "\<exists>w1. XAxiDma_Reset B I w = (Reset_halt_rx [0..<n] (I\<lparr>RxBdRing := rs, TxBdRing := ?f t\<rparr>), w1)"
    "length rs = length (RxBdRing I)" "t\<lparr>BdaRestart := 0\<rparr> = (TxBdRing I)\<lparr>BdaRestart := 0\<rparr>"
    "\<forall>j<length rs. (rs ! j)\<lparr>BdaRestart := 0\<rparr> = (RxBdRing I ! j)\<lparr>BdaRestart := 0\<rparr>"
  proof (cases "HasSg I = 0")
    case True
    then show ?thesis
      using that [of "TxBdRing I" "RxBdRing I"] assms(1,3)
      by (simp add: XAxiDma_Reset_def)
  next
    case False
    obtain t w1 where t: "XAxiDma_mBdRingSnapShotCurrBd B (TxBdRing I) 0 w = (t, w1)"
      by (metis surj_pair)
    obtain J w2 where J: "Reset_snapshot_rx B [0..<n] (I\<lparr>TxBdRing := t\<rparr>, w1) = (J, w2)"
      by (metis surj_pair)
    show ?thesis
      using snapshot_rx_frame [of B "[0..<n]" "I\<lparr>TxBdRing := t\<rparr>" w1] assms(1,3) False
        snapshot_ring [of B "TxBdRing I" 0 w] that [of t]
      by (auto simp: XAxiDma_Reset_def t J)
  qed
  let ?J = "I\<lparr>RxBdRing := rs, TxBdRing := ?f t\<rparr>"
  obtain rs' where rs': "each_rx ?f [0..<n] ?J = ?J\<lparr>RxBdRing := rs'\<rparr>" "length rs' = length rs"
    using each_rx_frame [of ?f "[0..<n]" ?J] by auto
  have "rs' ! j = ?f (rs ! j)" if "j < n" for j
    using each_rx_ring [of "[0..<n]" j ?J ?f] that assms(4) rs'(1) s(2) by simp
  moreover have "I' = ?J\<lparr>RxBdRing := rs'\<rparr>"
    using s(1) assms(2,5) rs'(1) by (auto simp: rx_loops_each)
  ultimately show ?thesis
    using s rs'(2) assms(4) by (intro exI [of _ "?f t"] exI [of _ rs']) (auto intro!: halt_cong)
qed

lemma cfg_reset_fields:
  assumes "Cfg_HasMm2S Config \<noteq> 0" and "Cfg_HasS2Mm Config \<noteq> 0"
    and "Cfg_S2MmNumChannels Config = int n" and "n \<le> 16"
    and r: "XAxiDma_Reset B (CfgInitialize_setup Config) w = (I1, w1)"
  shows "RegBase I1 = Cfg_BaseAddr Config \<and> HasSg I1 = Cfg_HasSg Config
    \<and> RxNumChannels I1 = int n \<and> length (RxBdRing I1) = 16
    \<and> (TxBdRing I1)\<lparr>BdaRestart := 0\<rparr> = cfg_tx_ring Config
    \<and> (\<forall>j<n. (RxBdRing I1 ! j)\<lparr>BdaRestart := 0\<rparr> = cfg_rx_ring Config)"
proof -
  let ?S = "CfgInitialize_setup Config"
  obtain rs where s: "?S = zero_XAxiDma\<lparr>RegBase := Cfg_BaseAddr Config,
      HasMm2S := Cfg_HasMm2S Config, HasS2Mm := Cfg_HasS2Mm Config, HasSg := Cfg_HasSg Config,
      TxNumChannels := Cfg_Mm2sNumChannels Config, RxNumChannels := int n,
      TxBdRing := cfg_tx_ring Config, RxBdRing := rs\<rparr>" "length rs = 16" "\<forall>j<n. rs ! j = cfg_rx_ring Config"
    using setup_fields [OF assms(1-4)] by blast
  have "\<exists>t rs'. I1 = ?S\<lparr>TxBdRing := t, RxBdRing := rs'\<rparr> \<and> length rs' = 16
    \<and> t\<lparr>BdaRestart := 0\<rparr> = (cfg_tx_ring Config)\<lparr>RunState := 2, BdaRestart := 0\<rparr>
    \<and> (\<forall>j<n. (rs' ! j)\<lparr>BdaRestart := 0\<rparr> = (cfg_rx_ring Config)\<lparr>RunState := 2, BdaRestart := 0\<rparr>)"
    using reset_fields [OF _ _ _ _ r, of n] assms(1,2,4) s by simp
  moreover have "(cfg_tx_ring Config)\<lparr>RunState := 2, BdaRestart := 0\<rparr> = cfg_tx_ring Config"
    "(cfg_rx_ring Config)\<lparr>RunState := 2, BdaRestart := 0\<rparr> = cfg_rx_ring Config"
    by (simp_all add: cfg_tx_ring_def cfg_rx_ring_def zero_ring_def)
  ultimately show ?thesis
    by (auto simp: s)
qed

lemma cfg_reset_done:
  assumes "\<And>a d. fst (bus_in32 B a d) AND XAXIDMA_CR_RESET_MASK = 0"
    and r: "XAxiDma_Reset B (CfgInitialize_setup Config) w = (I1, w1)"
  shows "XAxiDma_CfgInitialize B I (Some Config) w
    = (XST_SUCCESS, I1\<lparr>Initialized := 1\<rparr>, snd (CfgInitialize_wait XAXIDMA_RESET_TIMEOUT B I1 w1))"
proof -
  have "fst (XAxiDma_ResetIsDone B I1 w1)"
    using assms(1)
    by (simp add: XAxiDma_ResetIsDone_def XAxiDma_ReadReg_def XIo_In32_def split_beta Let_def)
  then have "fst (CfgInitialize_wait 500 B I1 w1) = 500"
    by (simp add: numeral_eq_Suc split_beta)
  then show ?thesis
    by (simp add: XAxiDma_CfgInitialize_def r split_beta)
qed


definition demo_config :: XAxiDma_Config where
  "demo_config = \<lparr>Cfg_DeviceId = 0, Cfg_BaseAddr = 0x80010000, Cfg_HasStsCntrlStrm = 1, Cfg_HasMm2S = 1,
     Cfg_HasMm2SDRE = 1, Cfg_Mm2SDataWidth = 64, Cfg_HasS2Mm = 1, Cfg_HasS2MmDRE = 1,
     Cfg_S2MmDataWidth = 64, Cfg_HasSg = 1, Cfg_Mm2sNumChannels = 1, Cfg_S2MmNumChannels = 1\<rparr>"

text \<open>A device whose registers always read as \<open>v\<close>.\<close>

definition stuck_bus :: "u32 \<Rightarrow> (u32 \<Rightarrow> u32) bus" where
  "stuck_bus v = regfile\<lparr>bus_in32 := (\<lambda>a d. (v, d))\<rparr>"


lemma reset_mm2s: "HasMm2S (fst (XAxiDma_Reset B I w)) = HasMm2S I"
proof -
  have halt: "HasMm2S (Reset_halt_rx is J) = HasMm2S J" for "is" J
    by (induction "is" arbitrary: J) (simp_all add: set_RxRing_def)
  have snap: "HasMm2S (fst (Reset_snapshot_rx B is (J, v))) = HasMm2S J" for "is" J v
    using snapshot_rx_frame [of B "is" J v] by auto
  show ?thesis
    by (cases "HasSg I = 0") (simp_all add: XAxiDma_Reset_def split_beta Let_def halt snap)
qed

text \<open>If the reset bit of the transmit channel never clears, initialisation gives up after its
  500 polls with an error and leaves the instance marked as not initialised; without a
  configuration it reports an invalid parameter.\<close>

theorem cfg_initialize_failure:
  assumes "Cfg_HasMm2S Config \<noteq> 0"
    and "\<And>a d. fst (bus_in32 B a d) AND XAXIDMA_CR_RESET_MASK \<noteq> 0"
  shows "fst (XAxiDma_CfgInitialize B I (Some Config) w) = XST_DMA_ERROR
    \<and> Initialized (fst (snd (XAxiDma_CfgInitialize B I (Some Config) w))) = 0
    \<and> XAxiDma_CfgInitialize B I None w = (XST_INVALID_PARAM, I\<lparr>Initialized := 0\<rparr>, w)"
proof -
  obtain I1 w1 where r: "XAxiDma_Reset B (CfgInitialize_setup Config) w = (I1, w1)"
    by (metis surj_pair)
  have pending: "\<not> fst (XAxiDma_ResetIsDone B J v)" if "HasMm2S J \<noteq> 0 \<or> HasS2Mm J \<noteq> 0" for J v
    using assms(2) that
    by (auto simp: XAxiDma_ResetIsDone_def XAxiDma_ReadReg_def XIo_In32_def split_beta Let_def)
  have mm2s: "HasMm2S (each_rx f is J) = HasMm2S J" for f "is" J
    using each_rx_frame [of f "is" J] by auto
  have "HasMm2S (CfgInitialize_setup Config) = Cfg_HasMm2S Config"
    by (simp add: CfgInitialize_setup_def Let_def rx_loops_each mm2s)
  then have "HasMm2S I1 \<noteq> 0"
    using reset_mm2s [of B "CfgInitialize_setup Config" w] r assms(1) by simp
  then have "fst (CfgInitialize_wait k B I1 v) = 0" for k v
    using pending by (induction k arbitrary: v) (simp_all add: split_beta)
  then show ?thesis
    by (simp add: XAxiDma_CfgInitialize_def r split_beta Let_def)
qed

theorem cfg_initialize_failure_witness:
  "fst (XAxiDma_CfgInitialize (stuck_bus 4) zero_XAxiDma (Some demo_config) demo_world) = XST_DMA_ERROR"
  using cfg_initialize_failure [where Config = demo_config and B = "stuck_bus 4" and I = zero_XAxiDma
      and w = demo_world]
  by (simp add: demo_config_def stuck_bus_def)

section \<open>Simple transfers\<close>

text \<open>\<^verbatim>\<open>XAxiDma_SimpleTransfer\<close> to the device succeeds exactly under its documented conditions;
  it then writes the address, sets the run bit and, last, writes the length, which starts the
  transfer. In scatter-gather mode it is refused without touching the device.\<close>

theorem simple_transfer_tx:
  assumes "HasMm2S I \<noteq> 0" and "HasSg I = 0"
    and "\<And>a. bus_in32 B a (dev w) = (regs a, dev w)"
  shows "let r = TxBdRing I; sr = regs (ChanBase r + XAXIDMA_SR_OFFSET);
           busy = (sr AND XAXIDMA_HALTED_MASK = 0 \<and> regs (RegBase I + XAXIDMA_SR_OFFSET) AND XAXIDMA_IDLE_MASK = 0);
           misaligned = (BuffAddr AND word_of_int (DataWidth r - 1) \<noteq> 0 \<and> HasDRE r = 0)
    in XAxiDma_SimpleTransfer B I BuffAddr Len XAXIDMA_DMA_TO_DEVICE 0 w =
      (if Len = 0 \<or> MaxTransferLen r < Len then (XST_INVALID_PARAM, w)
       else if busy then (XST_FAILURE, w)
       else if misaligned then (XST_INVALID_PARAM, w)
       else (XST_SUCCESS, XAxiDma_WriteReg B (ChanBase r) XAXIDMA_BUFFLEN_OFFSET Len
         (chan_run B r (XAxiDma_WriteReg B (ChanBase r) XAXIDMA_SRCADDR_OFFSET BuffAddr w))))
    \<and> XAxiDma_SimpleTransfer B (I\<lparr>HasSg := 1\<rparr>) BuffAddr Len XAXIDMA_DMA_TO_DEVICE 0 w = (XST_FAILURE, w)"
proof -
  have rd: "XAxiDma_ReadReg B b off w = (regs (b + off), w)" for b off
    using assms(3) by (simp add: XAxiDma_ReadReg_def XIo_In32_def)
  have "Len < 1 \<longleftrightarrow> Len = 0"
    by (simp add: word_less_1)
  then show ?thesis
    using assms(1,2)
    by (auto simp: XAxiDma_SimpleTransfer_def SimpleTransfer_chan_def XAxiDma_Busy_def rd Let_def)
qed

definition demo_simple :: XAxiDma where
  "demo_simple = zero_XAxiDma\<lparr>HasMm2S := 1, TxBdRing := zero_ring\<lparr>MaxTransferLen := 0x7FFFFF, DataWidth := 8\<rparr>\<rparr>"

theorem simple_transfer_tx_witness:
  "fst (XAxiDma_SimpleTransfer regfile demo_simple 0x1000 64 XAXIDMA_DMA_TO_DEVICE 0 halted_world) = XST_SUCCESS
    \<and> fst (XAxiDma_SimpleTransfer regfile demo_simple 0x1001 64 XAXIDMA_DMA_TO_DEVICE 0 halted_world) = XST_INVALID_PARAM"
  using simple_transfer_tx [where B = regfile and I = demo_simple and w = halted_world
      and regs = "dev halted_world" and BuffAddr = "0x1000" and Len = 64]
    simple_transfer_tx [where B = regfile and I = demo_simple and w = halted_world
      and regs = "dev halted_world" and BuffAddr = "0x1001" and Len = 64]
  by (simp add: Let_def) (simp add: demo_simple_def regfile_def halted_world_def zero_XAxiDma_def zero_ring_def)

section \<open>Descriptors\<close>

text \<open>C31: setting the length of a descriptor, under a mask of at most 26 bits, is read back and
  keeps the start and end of frame flags that share its word; a length of 0 or over the mask is
  refused without a write.\<close>

theorem bd_length_roundtrip:
  assumes "k \<le> 26"
  shows "case XAxiDma_BdSetLength m BdPtr LenBytes (mask k) of (st, m') \<Rightarrow>
    if 0 < LenBytes \<and> LenBytes \<le> mask k
    then st = XST_SUCCESS \<and> XAxiDma_BdGetLength m' BdPtr (mask k) = LenBytes
      \<and> XAxiDma_BdGetCtrl m' BdPtr = XAxiDma_BdGetCtrl m BdPtr
    else st = XST_INVALID_PARAM \<and> m' = m"
  using length_field [OF _ assms, of LenBytes "XAxiDma_BdRead m BdPtr XAXIDMA_BD_CTRL_LEN_OFFSET"]
  by (auto simp: XAxiDma_BdSetLength_def XAxiDma_BdGetLength_def XAxiDma_BdGetCtrl_def
      word_neq_0_conv [symmetric] not_less)

theorem bd_length_roundtrip_witness:
  "XAxiDma_BdGetLength (snd (XAxiDma_BdSetLength (\<lambda>a. 0xFF) 0x1000 1514 (mask 23))) 0x1000 (mask 23) = 1514"
  using bd_length_roundtrip [where k = 23 and m = "\<lambda>a. 0xFF" and BdPtr = "0x1000" and LenBytes = 1514]
  by (simp add: split_beta mask_eq_exp_minus_1)

text \<open>An application word that was set is read back as valid, and setting it changes no
  other word of the descriptor; without a status/control stream, or outside 0 to 4, both refuse.\<close>

theorem bd_appword_roundtrip:
  assumes "separate4 (XAXIDMA_BD_USR0_OFFSET + word_of_int (Offset * 4)) off"
  shows "case XAxiDma_BdSetAppWord m BdPtr Offset Word of (st, m') \<Rightarrow>
    if XAxiDma_BdRead m BdPtr XAXIDMA_BD_HAS_STSCNTRL_OFFSET \<noteq> 0 \<and> 0 \<le> Offset \<and> Offset \<le> XAXIDMA_LAST_APPWORD
    then st = XST_SUCCESS \<and> XAxiDma_BdGetAppWord m' BdPtr Offset = (Word, 1)
      \<and> XAxiDma_BdRead m' BdPtr off = XAxiDma_BdRead m BdPtr off
    else st = XST_INVALID_PARAM \<and> m' = m \<and> XAxiDma_BdGetAppWord m BdPtr Offset = (0, 0)"
proof -
  have "separate4 (0x20 + word_of_int (Offset * 4)) 0x38" if "0 \<le> Offset" "Offset \<le> 4"
  proof -
    from that have "Offset \<in> {0, 1, 2, 3, 4}" by auto
    then show ?thesis by (auto simp: separate4_def)
  qed
  then show ?thesis
    using assms
    by (auto simp: XAxiDma_BdSetAppWord_def XAxiDma_BdGetAppWord_def BdRead_BdWrite_other)
qed

theorem bd_appword_roundtrip_witness:
  "XAxiDma_BdGetAppWord (snd (XAxiDma_BdSetAppWord (\<lambda>a. 1) 0x1000 2 7)) 0x1000 2 = (7, 1)"
  using bd_appword_roundtrip [where Offset = 2 and off = "0x1C" and m = "\<lambda>a. 1" and BdPtr = "0x1000" and Word = 7]
  by (simp add: separate4_def split_beta) (simp add: XAxiDma_BdRead_def load32_def)

text \<open>\<^verbatim>\<open>XAxiDma_BdSetTId\<close> writes the control word and \<^verbatim>\<open>XAxiDma_BdGetTId\<close> reads the status word, so
  what was set is not read back; a second value is combined with the first bit by bit instead of
  replacing it.\<close>

theorem bd_tid_not_roundtrip:
  "XAxiDma_BdGetTId (XAxiDma_BdSetTId m BdPtr TId) BdPtr = XAxiDma_BdGetTId m BdPtr
    \<and> XAxiDma_BdSetTId (XAxiDma_BdSetTId m BdPtr TId) BdPtr TId' = XAxiDma_BdSetTId m BdPtr (TId OR TId')"
proof -
  have "separate4 0x10 0x1C"
    by (simp add: separate4_def)
  moreover have "XAxiDma_BdWrite (XAxiDma_BdWrite m p off v) p off v' = XAxiDma_BdWrite m p off v'" for p off v v'
    by (simp add: XAxiDma_BdWrite_def store32_def fun_eq_iff)
  ultimately show ?thesis
    by (simp add: XAxiDma_BdGetTId_def XAxiDma_BdSetTId_def BdRead_BdWrite_other or.assoc push_bit_or)
qed

section \<open>Byte-swapping accesses\<close>

text \<open>\<^verbatim>\<open>OutSwap32\<close> and \<^verbatim>\<open>InSwap32\<close>, which work on two halves with shifts and masks, reverse
  the order of the four bytes, and are inverse to each other.\<close>

theorem swap32_reverses:
  "word_rsplit_le (OutSwap32 v) = rev (word_rsplit_le v) \<and> InSwap32 (OutSwap32 v) = v"
proof
  show "word_rsplit_le (OutSwap32 v) = rev (word_rsplit_le v)"
    using OutSwap32_byte [of v] by (simp add: word_rsplit_le_def)
  show "InSwap32 (OutSwap32 v) = v"
  proof (rule bit_word_eqI)
    fix n
    assume "n < LENGTH(32)"
    then consider "n < 8" | "8 \<le> n" "n < 16" | "16 \<le> n" "n < 24" | "24 \<le> n" "n < 32"
      by fastforce
    then show "bit (InSwap32 (OutSwap32 v)) n = bit v n"
      by cases (auto simp: InSwap32_eq OutSwap32_bit)
  qed
qed

text \<open>\<^verbatim>\<open>XIo_OutSwap32\<close> passes its two arguments to the swap in the wrong order: the register at
  the given address is not written when the value differs from it.\<close>

theorem outswap32_misses_address:
  assumes "Value \<noteq> OutAddress"
  shows "dev (XIo_OutSwap32 regfile OutAddress Value w) OutAddress = dev w OutAddress
    \<and> dev (XIo_OutSwap32 regfile OutAddress Value w) Value = OutSwap32 OutAddress"
  using assms by (simp add: XIo_OutSwap32_def regfile_def)

theorem outswap32_misses_address_witness:
  "dev (XIo_OutSwap32 regfile 0x40 0x12345678 demo_world) 0x40 = 0"
  using outswap32_misses_address [of "0x12345678" "0x40" demo_world] by (simp add: demo_world_def)

end
