(* ===== verification/Vpci.thy ===== *)
theory Vpci
  imports Axidma_Hw
begin

unbundle bit_operations_syntax

text \<open>
  The virtual PCI bus, \<^verbatim>\<open>linux-drv/vpci.c\<close>: one FPGA card carries five functions (one AES engine,
  four 10G Ethernet ports), each a \<open>virt_device\<close> with its register window and two lines of the
  card's interrupt controller. The kernel services it calls (PCI enabling, allocation, the
  platform bus, the handlers it dispatches to) are parameters. The card is the only one, so
  the global list \<^verbatim>\<open>virt_head\<close> is the array \<^verbatim>\<open>vp->vd\<close> without its empty slots.
\<close>

section \<open>State and parameters\<close>

abbreviation (input) ENOMEM :: int where "ENOMEM \<equiv> 12"
abbreviation (input) EBUSY :: int where "EBUSY \<equiv> 16"
abbreviation (input) ENODEV :: int where "ENODEV \<equiv> 19"
abbreviation (input) EINVAL :: int where "EINVAL \<equiv> 22"

abbreviation (input) IRQ_ISR :: u32 where "IRQ_ISR \<equiv> 0x00"
abbreviation (input) IRQ_IPR :: u32 where "IRQ_IPR \<equiv> 0x04"
abbreviation (input) IRQ_IER :: u32 where "IRQ_IER \<equiv> 0x08"
abbreviation (input) IRQ_IAR :: u32 where "IRQ_IAR \<equiv> 0x0C"
abbreviation (input) IRQ_MER :: u32 where "IRQ_MER \<equiv> 0x1C"

abbreviation (input) VPCI_FPGA_VENDOR :: u32 where "VPCI_FPGA_VENDOR \<equiv> 0xAA55"
abbreviation (input) VPCI_AES_DEVICE :: u32 where "VPCI_AES_DEVICE \<equiv> 0x2013"
abbreviation (input) VPCI_10G_DEVICE :: u32 where "VPCI_10G_DEVICE \<equiv> 0x2014"

record vpci_id =
  vendor :: u32
  device :: u32

record virt_device =
  vd_id :: vpci_id
  vd_mmio :: ptr
  vd_mmio_len :: int
  vd_irqs :: "ptr list"
  vd_irqs_priv :: "ptr list"
  vd_drv :: ptr
  vd_pd :: ptr
  vd_port :: nat

record vpci_device =
  vp_mmio :: ptr
  vp_ctrl :: ptr
  vp_vd :: "virt_device option list"
  vp_msi :: u32

text \<open>A platform driver: its address, and its \<^verbatim>\<open>id_table->driver_data\<close> (\<open>None\<close> for \<^verbatim>\<open>NULL\<close>).\<close>

record platform_driver =
  drv_addr :: ptr
  drv_id :: "vpci_id option"

text \<open>What the platform bus answers; \<open>plat_alloc\<close> gives \<open>NULL\<close> when it is out of memory.\<close>

record plat_env =
  plat_driver_register :: int
  plat_alloc :: "nat \<Rightarrow> ptr"
  plat_add_resources :: "ptr \<Rightarrow> int"
  plat_device_add :: "ptr \<Rightarrow> int"

record pci_env =
  pcim_enable_device :: int
  pci_enable_msi_block :: "nat \<Rightarrow> u32 \<Rightarrow> int"
  pcim_iomap_regions :: int
  pcim_iomap_table0 :: ptr
  devm_kzalloc_ok :: bool
  kzalloc_ok :: "nat \<Rightarrow> bool"
  pci_request_irq :: int

definition VPCI_READ :: "'d bus \<Rightarrow> u32 \<Rightarrow> 'd world \<Rightarrow> u32 \<times> 'd world" where
  "VPCI_READ B a w = XIo_In32 B a w"

definition VPCI_WRITE :: "'d bus \<Rightarrow> u32 \<Rightarrow> u32 \<Rightarrow> 'd world \<Rightarrow> 'd world" where
  "VPCI_WRITE B v a w = XIo_Out32 B a v w"

section \<open>Binding platform drivers\<close>

text \<open>One step of \<^verbatim>\<open>list_for_each_entry\<close>: \<open>Inl\<close> is an early return from the loop.\<close>

definition driver_register_one ::
  "plat_env \<Rightarrow> platform_driver \<Rightarrow> virt_device \<Rightarrow> (int \<times> virt_device) + virt_device" where
  "driver_register_one E d vd =
    (case drv_id d of
       None \<Rightarrow> Inr vd
     | Some i \<Rightarrow>
         if vendor (vd_id vd) \<noteq> vendor i \<or> device (vd_id vd) \<noteq> device i then Inr vd
         else if vd_drv vd \<noteq> NULL then Inr vd
         else let pd = plat_alloc E (vd_port vd) in
         if pd = NULL then Inl (- ENOMEM, vd)
         else let vd = vd\<lparr>vd_drv := drv_addr d, vd_pd := pd\<rparr> in
         if plat_add_resources E pd \<noteq> 0 then Inl (- ENOMEM, vd)
         else if plat_device_add E pd \<noteq> 0 then Inl (plat_device_add E pd, vd)
         else Inr vd)"

fun driver_register_loop ::
  "plat_env \<Rightarrow> platform_driver \<Rightarrow> virt_device option list \<Rightarrow> int \<times> virt_device option list" where
  "driver_register_loop E d [] = (0, [])"
| "driver_register_loop E d (None # vds) =
    (let (rc, vds) = driver_register_loop E d vds in (rc, None # vds))"
| "driver_register_loop E d (Some vd # vds) =
    (case driver_register_one E d vd of
       Inl (rc, vd) \<Rightarrow> (rc, Some vd # vds)
     | Inr vd \<Rightarrow> let (rc, vds) = driver_register_loop E d vds in (rc, Some vd # vds))"

definition vpci_driver_register ::
  "plat_env \<Rightarrow> platform_driver \<Rightarrow> vpci_device \<Rightarrow> int \<times> vpci_device" where
  "vpci_driver_register E d vp =
    (if plat_driver_register E \<noteq> 0 then (plat_driver_register E, vp)
     else let (rc, vds) = driver_register_loop E d (vp_vd vp) in (rc, vp\<lparr>vp_vd := vds\<rparr>))"

definition vpci_driver_unregister :: "platform_driver \<Rightarrow> vpci_device \<Rightarrow> int \<times> vpci_device" where
  "vpci_driver_unregister d vp =
    (0, vp\<lparr>vp_vd := map (map_option (\<lambda>vd.
          if vd_drv vd = drv_addr d then vd\<lparr>vd_drv := NULL, vd_pd := NULL\<rparr> else vd)) (vp_vd vp)\<rparr>)"

section \<open>Interrupt lines\<close>

text \<open>\<^verbatim>\<open>0x1 << (irq + (vd->port << 1))\<close>\<close>

definition irq_line :: "nat \<Rightarrow> nat \<Rightarrow> u32" where
  "irq_line port irq = push_bit (irq + 2 * port) 1"

text \<open>Both take the slot \<open>p\<close> of the device in \<^verbatim>\<open>vp->vd\<close>, which its \<^verbatim>\<open>IORESOURCE_BUS\<close> resource names.\<close>

definition vpci_free_irq ::
  "'d bus \<Rightarrow> vpci_device \<Rightarrow> nat \<Rightarrow> virt_device \<Rightarrow> nat \<Rightarrow> 'd world \<Rightarrow> vpci_device \<times> 'd world" where
  "vpci_free_irq B vp p vd irq w =
    (if irq > 3 then (vp, w)
     else let
       vd = vd\<lparr>vd_irqs := (vd_irqs vd)[irq := NULL], vd_irqs_priv := (vd_irqs_priv vd)[irq := NULL]\<rparr>;
       (irq_en, w) = VPCI_READ B (vp_ctrl vp + IRQ_IER) w;
       irq_en = irq_en AND NOT (irq_line (vd_port vd) irq)
     in (vp\<lparr>vp_vd := (vp_vd vp)[p := Some vd]\<rparr>, VPCI_WRITE B irq_en (vp_ctrl vp + IRQ_IER) w))"

definition vpci_request_irq ::
  "'d bus \<Rightarrow> vpci_device \<Rightarrow> nat \<Rightarrow> virt_device \<Rightarrow> nat \<Rightarrow> ptr \<Rightarrow> ptr \<Rightarrow> 'd world
    \<Rightarrow> int \<times> vpci_device \<times> 'd world" where
  "vpci_request_irq B vp p vd irq handler priv w =
    (if irq > 3 then (- EINVAL, vp, w)
     else if vd_irqs vd ! irq \<noteq> NULL then (- EBUSY, vp, w)
     else let
       vd = vd\<lparr>vd_irqs := (vd_irqs vd)[irq := handler], vd_irqs_priv := (vd_irqs_priv vd)[irq := priv]\<rparr>;
       (irq_en, w) = VPCI_READ B (vp_ctrl vp + IRQ_IER) w;
       irq_en = irq_en OR irq_line (vd_port vd) irq
     in (0, vp\<lparr>vp_vd := (vp_vd vp)[p := Some vd]\<rparr>,
         VPCI_WRITE B irq_en (vp_ctrl vp + IRQ_IER) w))"

section \<open>Interrupt dispatch\<close>

text \<open>\<open>run handler i priv\<close> is the call \<^verbatim>\<open>vd->irqs[i](i, vd->irqs_priv[i])\<close>.\<close>

definition vd_isr_line ::
  "(ptr \<Rightarrow> nat \<Rightarrow> ptr \<Rightarrow> 'd world \<Rightarrow> 'd world) \<Rightarrow> virt_device \<Rightarrow> u8 \<Rightarrow> nat \<Rightarrow> 'd world \<Rightarrow> 'd world" where
  "vd_isr_line run vd irq i w =
    (if irq AND push_bit i 1 = 0 then w
     else if vd_irqs vd ! i = NULL then w
     else run (vd_irqs vd ! i) i (vd_irqs_priv vd ! i) w)"

definition vd_isr ::
  "(ptr \<Rightarrow> nat \<Rightarrow> ptr \<Rightarrow> 'd world \<Rightarrow> 'd world) \<Rightarrow> virt_device option \<Rightarrow> u8 \<Rightarrow> 'd world \<Rightarrow> 'd world" where
  "vd_isr run vd irq w =
    (case vd of None \<Rightarrow> w | Some vd \<Rightarrow> vd_isr_line run vd irq 1 (vd_isr_line run vd irq 0 w))"

text \<open>\<^verbatim>\<open>for (i = 0; i < 8; i++)\<close> over the slots, with its \<^verbatim>\<open>break\<close>.\<close>

fun vpci_isr_loop ::
  "(ptr \<Rightarrow> nat \<Rightarrow> ptr \<Rightarrow> 'd world \<Rightarrow> 'd world) \<Rightarrow> virt_device option list \<Rightarrow> u32 \<Rightarrow> 'd world \<Rightarrow> 'd world" where
  "vpci_isr_loop run [] irq_pending w = w"
| "vpci_isr_loop run (vd # vds) irq_pending w =
    (if irq_pending = 0 then w
     else vpci_isr_loop run vds (drop_bit 2 irq_pending)
            (vd_isr run vd (ucast (irq_pending AND 0x3)) w))"

datatype irqreturn_t = IRQ_NONE | IRQ_HANDLED

definition vpci_isr ::
  "'d bus \<Rightarrow> (ptr \<Rightarrow> nat \<Rightarrow> ptr \<Rightarrow> 'd world \<Rightarrow> 'd world) \<Rightarrow> vpci_device \<Rightarrow> 'd world
    \<Rightarrow> irqreturn_t \<times> 'd world" where
  "vpci_isr B run vp w =
    (let (irq_en, w) = VPCI_READ B (vp_ctrl vp + IRQ_IER) w;
         (irq_sts, w) = VPCI_READ B (vp_ctrl vp + IRQ_ISR) w;
         (irq_pending, w) = VPCI_READ B (vp_ctrl vp + IRQ_IPR) w
     in if irq_pending = 0 then (IRQ_NONE, w)
     else let
       iar = irq_pending;
       w = vpci_isr_loop run (vp_vd vp) irq_pending w;
       w = VPCI_WRITE B iar (vp_ctrl vp + IRQ_IAR) w;
       (_, w) = VPCI_READ B (vp_ctrl vp + IRQ_IPR) w
     in (IRQ_HANDLED, w))"

section \<open>Probe and remove\<close>

definition vpci_funs :: "vpci_id list" where
  "vpci_funs = [
    \<lparr>vendor = VPCI_FPGA_VENDOR, device = VPCI_AES_DEVICE\<rparr>,
    \<lparr>vendor = VPCI_FPGA_VENDOR, device = VPCI_10G_DEVICE\<rparr>,
    \<lparr>vendor = VPCI_FPGA_VENDOR, device = VPCI_10G_DEVICE\<rparr>,
    \<lparr>vendor = VPCI_FPGA_VENDOR, device = VPCI_10G_DEVICE\<rparr>,
    \<lparr>vendor = VPCI_FPGA_VENDOR, device = VPCI_10G_DEVICE\<rparr>]"

definition new_virt_device :: "vpci_device \<Rightarrow> int \<Rightarrow> nat \<Rightarrow> virt_device" where
  "new_virt_device vp bar_size i =
    \<lparr>vd_id = vpci_funs ! i, vd_mmio = vp_mmio vp + word_of_int (int i * bar_size),
     vd_mmio_len = bar_size, vd_irqs = replicate 4 NULL, vd_irqs_priv = replicate 4 NULL,
     vd_drv = NULL, vd_pd = NULL, vd_port = i\<rparr>"

text \<open>\<^verbatim>\<open>for (i = 0; i < fun_num; i++)\<close>; \<open>False\<close> is the return on a failed allocation.\<close>

fun probe_functions :: "pci_env \<Rightarrow> nat list \<Rightarrow> vpci_device \<Rightarrow> bool \<times> vpci_device" where
  "probe_functions E [] vp = (True, vp)"
| "probe_functions E (i # is) vp =
    (if \<not> kzalloc_ok E i then (False, vp)
     else probe_functions E is
       (vp\<lparr>vp_vd := (vp_vd vp)[i := Some (new_virt_device vp 0x10000 i)]\<rparr>))"

definition vpci_probe ::
  "'d bus \<Rightarrow> pci_env \<Rightarrow> 'd world \<Rightarrow> int \<times> vpci_device option \<times> 'd world" where
  "vpci_probe B E w =
    (if pcim_enable_device E \<noteq> 0 then (pcim_enable_device E, None, w)
     else let
       msi = 16;
       msi = (if pci_enable_msi_block E 0 msi \<noteq> 0 then 1 else msi);
       msi = (if pci_enable_msi_block E 1 msi \<noteq> 0 then 0 else msi)
     in if pcim_iomap_regions E \<noteq> 0 then (pcim_iomap_regions E, None, w)
     else if \<not> devm_kzalloc_ok E then (- ENOMEM, None, w)
     else let
       vp = \<lparr>vp_mmio = pcim_iomap_table0 E + 0x10000, vp_ctrl = pcim_iomap_table0 E + 0x00000,
             vp_vd = replicate 8 None, vp_msi = msi\<rparr>;
       (ok, vp) = probe_functions E [0..<length vpci_funs] vp
     in if \<not> ok then (- ENOMEM, Some vp, w)
     else if pci_request_irq E \<noteq> 0 then (- ENODEV, Some vp, w)
     else let
       w = VPCI_WRITE B 0x0 (vp_ctrl vp + IRQ_MER) w;
       w = VPCI_WRITE B 0x0 (vp_ctrl vp + IRQ_IER) w;
       w = VPCI_WRITE B 0xffffffff (vp_ctrl vp + IRQ_IAR) w;
       w = VPCI_WRITE B 0x3 (vp_ctrl vp + IRQ_MER) w
     in (0, Some vp, w))"

text \<open>The register writes of \<^verbatim>\<open>vpci_remove\<close>; the calls after them release kernel resources.\<close>

definition vpci_remove :: "'d bus \<Rightarrow> vpci_device \<Rightarrow> 'd world \<Rightarrow> 'd world" where
  "vpci_remove B vp w =
    VPCI_WRITE B 0x0 (vp_ctrl vp + IRQ_MER) (VPCI_WRITE B 0x0 (vp_ctrl vp + IRQ_IER) w)"

datatype pci_ers_result = PCI_ERS_RESULT_DISCONNECT | PCI_ERS_RESULT_NEED_RESET | PCI_ERS_RESULT_RECOVERED

definition vpci_io_error_detected :: "bool \<Rightarrow> pci_ers_result" where
  "vpci_io_error_detected perm_failure =
    (if perm_failure then PCI_ERS_RESULT_DISCONNECT else PCI_ERS_RESULT_NEED_RESET)"

definition vpci_io_slot_reset :: "int \<Rightarrow> pci_ers_result" where
  "vpci_io_slot_reset enable_rc =
    (if enable_rc \<noteq> 0 then PCI_ERS_RESULT_DISCONNECT else PCI_ERS_RESULT_RECOVERED)"

section \<open>Dispatch order\<close>

text \<open>The call made for one line of the controller: line \<open>l\<close> is line \<open>l mod 2\<close> of function \<open>l div 2\<close>.\<close>

definition line_call ::
  "(ptr \<Rightarrow> nat \<Rightarrow> ptr \<Rightarrow> 'd world \<Rightarrow> 'd world) \<Rightarrow> virt_device option list \<Rightarrow> nat \<Rightarrow> 'd world \<Rightarrow> 'd world" where
  "line_call run vds l w =
    (case vds ! (l div 2) of
       None \<Rightarrow> w
     | Some vd \<Rightarrow> if vd_irqs vd ! (l mod 2) = NULL then w
                  else run (vd_irqs vd ! (l mod 2)) (l mod 2) (vd_irqs_priv vd ! (l mod 2)) w)"

lemma low_two_bits:
  fixes pend :: u32
  assumes "i < 2"
  shows "(ucast (pend AND 3) :: u8) AND push_bit i 1 = 0 \<longleftrightarrow> \<not> bit pend i"
proof -
  have three: "(3 :: u32) = mask 2"
    by (simp add: mask_eq_exp_minus_1)
  have "((ucast (pend AND 3) :: u8) AND push_bit i 1 = 0) \<longleftrightarrow> \<not> bit (ucast (pend AND 3) :: u8) i"
    by (simp add: push_bit_of_1 and_exp_eq_0_iff_not_bit)
  also have "\<dots> \<longleftrightarrow> \<not> bit pend i"
    unfolding three using assms by (auto simp: bit_simps)
  finally show ?thesis .
qed

lemma vd_isr_calls:
  "vd_isr run (vds ! 0) (ucast (pend AND 3)) w
    = fold (\<lambda>l. line_call run vds l) (filter (bit (pend :: u32)) [0, 1]) w"
  using low_two_bits [of 0 pend] low_two_bits [of 1 pend]
  by (auto simp: vd_isr_def vd_isr_line_def line_call_def push_bit_of_1 split: option.splits)

lemma line_call_shift: "line_call run (vd # vds) (Suc (Suc l)) = line_call run vds l"
proof -
  have "Suc (Suc l) mod 2 = l mod 2" by presburger
  then show ?thesis
    by (simp only: fun_eq_iff line_call_def) simp
qed

lemma upt_two: "[0..<2 * Suc n] = 0 # 1 # map (\<lambda>l. Suc (Suc l)) [0..<2 * n]"
  by (rule nth_equalityI) (auto simp: nth_Cons simp del: upt_Suc split: nat.splits)

lemma vpci_isr_loop_calls:
  "vpci_isr_loop run vds pend w
    = fold (\<lambda>l. line_call run vds l) (filter (bit pend) [0..<2 * length vds]) w"
proof (induction vds arbitrary: pend w)
  case (Cons vd vds)
  have bits: "bit (drop_bit 2 pend) = (\<lambda>l. bit pend (Suc (Suc l)))"
    by (simp add: fun_eq_iff bit_drop_bit_eq)
  have split: "filter (bit pend) [0..<2 * length (vd # vds)] = filter (bit pend) [0, 1]
      @ map (\<lambda>l. Suc (Suc l)) (filter (bit (drop_bit 2 pend)) [0..<2 * length vds])"
    unfolding length_Cons upt_two by (simp add: filter_map comp_def bits)
  show ?case
  proof (cases "pend = 0")
    case True
    then show ?thesis by simp
  next
    case False
    have "vpci_isr_loop run (vd # vds) pend w
        = fold (\<lambda>l. line_call run vds l) (filter (bit (drop_bit 2 pend)) [0..<2 * length vds])
            (vd_isr run ((vd # vds) ! 0) (ucast (pend AND 3)) w)"
      using False Cons.IH by simp
    then show ?thesis
      unfolding split fold_append comp_def vd_isr_calls
      by (simp add: fold_map comp_def line_call_shift)
  qed
qed simp

section \<open>Enabled lines and installed handlers\<close>

definition vp_wf :: "vpci_device \<Rightarrow> bool" where
  "vp_wf vp \<longleftrightarrow> length (vp_vd vp) = 8 \<and>
    list_all (\<lambda>p. case vp_vd vp ! p of None \<Rightarrow> True
       | Some vd \<Rightarrow> vd_port vd = p \<and> length (vd_irqs vd) = 4 \<and> length (vd_irqs_priv vd) = 4) [0..<8]"

definition line_handler :: "vpci_device \<Rightarrow> nat \<Rightarrow> bool" where
  "line_handler vp l = (case vp_vd vp ! (l div 2) of None \<Rightarrow> False
     | Some vd \<Rightarrow> vd_irqs vd ! (l mod 2) \<noteq> NULL)"

text \<open>A line of the controller is enabled exactly when a handler is installed for it.\<close>

definition irq_consistent :: "vpci_device \<Rightarrow> u32 \<Rightarrow> bool" where
  "irq_consistent vp ier \<longleftrightarrow> list_all (\<lambda>l. bit ier l = line_handler vp l) [0..<16]"

lemma bit_irq_line: "p < 8 \<Longrightarrow> i < 4 \<Longrightarrow> l < 32 \<Longrightarrow> bit (irq_line p i) l \<longleftrightarrow> l = i + 2 * p"
  by (auto simp: irq_line_def bit_push_bit_iff bit_1_iff bit_exp_iff)

lemma line_div_mod: "i < 2 \<Longrightarrow> l = i + 2 * p \<longleftrightarrow> l div 2 = p \<and> l mod 2 = (i :: nat)"
  by auto

lemma vp_wf_slot:
  assumes "vp_wf vp" and "p < 8" and "vp_vd vp ! p = Some vd"
  shows "vd_port vd = p" and "length (vd_irqs vd) = 4" and "length (vd_irqs_priv vd) = 4"
  using assms by (force simp: vp_wf_def list_all_iff)+

lemma vp_wf_update:
  assumes "vp_wf vp" and "p < 8" and "vd_port vd = p" and "length (vd_irqs vd) = 4"
    and "length (vd_irqs_priv vd) = 4"
  shows "vp_wf (vp\<lparr>vp_vd := (vp_vd vp)[p := Some vd]\<rparr>)"
  using assms by (auto simp: vp_wf_def list_all_iff nth_list_update)

lemma line_handler_update:
  assumes "vp_wf vp" and "p < 8" and "l < 16"
  shows "line_handler (vp\<lparr>vp_vd := (vp_vd vp)[p := Some vd]\<rparr>) l
    = (if l div 2 = p then vd_irqs vd ! (l mod 2) \<noteq> NULL else line_handler vp l)"
  using assms by (auto simp: line_handler_def vp_wf_def nth_list_update)

lemma consistent_request:
  assumes wf: "vp_wf vp" and p: "p < 8" and vd: "vp_vd vp ! p = Some vd" and irq: "irq < 2"
    and h: "handler \<noteq> NULL" and c: "irq_consistent vp ier"
  shows "irq_consistent (vp\<lparr>vp_vd := (vp_vd vp)[p := Some (vd\<lparr>vd_irqs := (vd_irqs vd)[irq := handler],
      vd_irqs_priv := privs\<rparr>)]\<rparr>) (ier OR irq_line p irq)"
  unfolding irq_consistent_def list_all_iff
proof
  fix l
  assume "l \<in> set [0..<16]"
  then have l: "l < 16" by simp
  with c have old: "bit ier l = line_handler vp l"
    by (simp add: irq_consistent_def list_all_iff)
  have "l div 2 = p \<Longrightarrow> line_handler vp l = (vd_irqs vd ! (l mod 2) \<noteq> NULL)"
    using vd by (auto simp: line_handler_def)
  then show "bit (ier OR irq_line p irq) l = line_handler (vp\<lparr>vp_vd := (vp_vd vp)[p := Some
      (vd\<lparr>vd_irqs := (vd_irqs vd)[irq := handler], vd_irqs_priv := privs\<rparr>)]\<rparr>) l"
    using l p irq h old bit_irq_line [of p irq l] line_div_mod [OF irq, of l p]
      vp_wf_slot(2) [OF wf p vd]
    by (auto simp: bit_or_iff line_handler_update [OF wf p l] nth_list_update)
qed

lemma consistent_free:
  assumes wf: "vp_wf vp" and p: "p < 8" and vd: "vp_vd vp ! p = Some vd" and irq: "irq < 2"
    and c: "irq_consistent vp ier"
  shows "irq_consistent (vp\<lparr>vp_vd := (vp_vd vp)[p := Some (vd\<lparr>vd_irqs := (vd_irqs vd)[irq := NULL],
      vd_irqs_priv := privs\<rparr>)]\<rparr>) (ier AND NOT (irq_line p irq))"
  unfolding irq_consistent_def list_all_iff
proof
  fix l
  assume "l \<in> set [0..<16]"
  then have l: "l < 16" by simp
  with c have old: "bit ier l = line_handler vp l"
    by (simp add: irq_consistent_def list_all_iff)
  have "l div 2 = p \<Longrightarrow> line_handler vp l = (vd_irqs vd ! (l mod 2) \<noteq> NULL)"
    using vd by (auto simp: line_handler_def)
  then show "bit (ier AND NOT (irq_line p irq)) l = line_handler (vp\<lparr>vp_vd := (vp_vd vp)[p := Some
      (vd\<lparr>vd_irqs := (vd_irqs vd)[irq := NULL], vd_irqs_priv := privs\<rparr>)]\<rparr>) l"
    using l p irq old bit_irq_line [of p irq l] line_div_mod [OF irq, of l p]
      vp_wf_slot(2) [OF wf p vd]
    by (auto simp: bit_and_iff bit_not_iff line_handler_update [OF wf p l] nth_list_update)
qed

end
