(* ===== verification/Vpci_Props.thy ===== *)
theory Vpci_Props
  imports Vpci
begin

unbundle bit_operations_syntax

text \<open>
  Properties of the virtual PCI bus: in which order the interrupt service routine calls the
  handlers, and that the enabled lines of the interrupt controller are those with a handler.
\<close>

section \<open>Dispatch\<close>

text \<open>C25: the interrupt service routine calls the installed handler of every pending line exactly
  once, in ascending order of the lines, line \<open>l\<close> being line \<open>l mod 2\<close> of function \<open>l div 2\<close>,
  acknowledges exactly the lines it read as pending, and does nothing when none is pending.\<close>

theorem isr_dispatch:
  "vpci_isr B run vp w =
    (let w1 = snd (VPCI_READ B (vp_ctrl vp + IRQ_ISR) (snd (VPCI_READ B (vp_ctrl vp + IRQ_IER) w)));
         (pending, w2) = VPCI_READ B (vp_ctrl vp + IRQ_IPR) w1
     in if pending = 0 then (IRQ_NONE, w2)
        else (IRQ_HANDLED, snd (VPCI_READ B (vp_ctrl vp + IRQ_IPR) (VPCI_WRITE B pending (vp_ctrl vp + IRQ_IAR)
          (fold (\<lambda>l. line_call run (vp_vd vp) l) (filter (bit pending) [0..<2 * length (vp_vd vp)]) w2)))))"
  by (simp add: vpci_isr_def vpci_isr_loop_calls split_beta Let_def)

section \<open>Enabled lines\<close>

text \<open>What the interrupt controller promises of its enable register at address \<open>a\<close>: it reads back
  what was written, and no other access changes it. \<open>ier\<close> is its value in a device state.\<close>

definition ier_register :: "'d bus \<Rightarrow> u32 \<Rightarrow> ('d \<Rightarrow> u32) \<Rightarrow> bool" where
  "ier_register B a ier \<longleftrightarrow> (\<forall>d. fst (bus_in32 B a d) = ier d)
    \<and> (\<forall>x d. ier (snd (bus_in32 B x d)) = ier d)
    \<and> (\<forall>v d. ier (bus_out32 B a v d) = v)
    \<and> (\<forall>x v d. x \<noteq> a \<longrightarrow> ier (bus_out32 B x v d) = ier d)"

text \<open>Drivers requesting and releasing the two lines of their function, in any order.\<close>

inductive irq_step :: "'d bus \<Rightarrow> vpci_device \<times> 'd world \<Rightarrow> vpci_device \<times> 'd world \<Rightarrow> bool"
  for B :: "'d bus" where
  step_request: "p < 8 \<Longrightarrow> vp_vd vp ! p = Some vd \<Longrightarrow> irq < 2 \<Longrightarrow> handler \<noteq> NULL \<Longrightarrow>
    vpci_request_irq B vp p vd irq handler priv w = (rc, vp', w') \<Longrightarrow> irq_step B (vp, w) (vp', w')"
| step_free_irq: "p < 8 \<Longrightarrow> vp_vd vp ! p = Some vd \<Longrightarrow> irq < 2 \<Longrightarrow>
    vpci_free_irq B vp p vd irq w = (vp', w') \<Longrightarrow> irq_step B (vp, w) (vp', w')"

definition irq_inv :: "('d \<Rightarrow> u32) \<Rightarrow> u32 \<Rightarrow> vpci_device \<times> 'd world \<Rightarrow> bool" where
  "irq_inv ier c s \<longleftrightarrow> vp_wf (fst s) \<and> vp_ctrl (fst s) = c \<and> irq_consistent (fst s) (ier (dev (snd s)))"

lemmas vpci_access = VPCI_READ_def VPCI_WRITE_def XIo_In32_def XIo_Out32_def split_beta Let_def

lemma irq_step_inv:
  assumes "irq_step B s s'" and "irq_inv ier c s" and ier: "ier_register B (c + IRQ_IER) ier"
  shows "irq_inv ier c s'"
  using assms(1)
proof (cases rule: irq_step.cases)
  case (step_request p vp vd irq handler priv w rc vp' w')
  then have wf: "vp_wf vp" "vp_ctrl vp = c" "irq_consistent vp (ier (dev w))"
    using assms(2) by (simp_all add: irq_inv_def)
  note slot = vp_wf_slot [OF wf(1) step_request(3,4)]
  have "vp_wf (vp\<lparr>vp_vd := (vp_vd vp)[p := Some (vd\<lparr>vd_irqs := (vd_irqs vd)[irq := handler],
      vd_irqs_priv := (vd_irqs_priv vd)[irq := priv]\<rparr>)]\<rparr>)"
    using wf(1) step_request(3) slot by (intro vp_wf_update) simp_all
  then show ?thesis
    using step_request slot wf ier
      consistent_request [OF wf(1) step_request(3,4,5,6) wf(3), of "(vd_irqs_priv vd)[irq := priv]"]
    by (auto simp: irq_inv_def vpci_request_irq_def vpci_access ier_register_def split: if_splits)
next
  case (step_free_irq p vp vd irq w vp' w')
  then have wf: "vp_wf vp" "vp_ctrl vp = c" "irq_consistent vp (ier (dev w))"
    using assms(2) by (simp_all add: irq_inv_def)
  note slot = vp_wf_slot [OF wf(1) step_free_irq(3,4)]
  have "vp_wf (vp\<lparr>vp_vd := (vp_vd vp)[p := Some (vd\<lparr>vd_irqs := (vd_irqs vd)[irq := NULL],
      vd_irqs_priv := (vd_irqs_priv vd)[irq := NULL]\<rparr>)]\<rparr>)"
    using wf(1) step_free_irq(3) slot by (intro vp_wf_update) simp_all
  then show ?thesis
    using step_free_irq slot wf ier
      consistent_free [OF wf(1) step_free_irq(3,4,5) wf(3), of "(vd_irqs_priv vd)[irq := NULL]"]
    by (auto simp: irq_inv_def vpci_free_irq_def vpci_access ier_register_def split: if_splits)
qed

lemma irq_steps_inv:
  assumes "rtranclp (irq_step B) s s'" and "irq_inv ier c s" and "ier_register B (c + IRQ_IER) ier"
  shows "irq_inv ier c s'"
  using assms by (induction rule: rtranclp_induct) (blast intro: irq_step_inv)+

text \<open>The devices \<^verbatim>\<open>vpci_probe\<close> sets up.\<close>

lemma probe_functions_all:
  assumes "probe_functions E is vp = (True, vp')" and "\<forall>i\<in>set is. i < length (vp_vd vp)"
  shows "vp' = vp\<lparr>vp_vd := map (\<lambda>p. if p \<in> set is then Some (new_virt_device vp 0x10000 p)
      else vp_vd vp ! p) [0..<length (vp_vd vp)]\<rparr>"
  using assms
proof (induction "is" arbitrary: vp)
  case (Cons i "is")
  let ?vp = "vp\<lparr>vp_vd := (vp_vd vp)[i := Some (new_virt_device vp 0x10000 i)]\<rparr>"
  have "new_virt_device ?vp b p = new_virt_device vp b p" for b p
    by (simp add: new_virt_device_def)
  moreover have "probe_functions E is ?vp = (True, vp')"
    using Cons.prems(1) by (simp split: if_splits)
  ultimately show ?case
    using Cons.IH [of ?vp] Cons.prems(2)
    by (auto simp: nth_list_update intro!: arg_cong [where f = "\<lambda>x. vp_vd_update (\<lambda>_. x) vp"])
qed (simp add: map_nth)

lemma probe_state:
  assumes "vpci_probe B E w = (0, Some vp, w')" and "ier_register B (vp_ctrl vp + IRQ_IER) ier"
  shows "irq_inv ier (vp_ctrl vp) (vp, w')"
proof -
  define msi where "msi = (let m = (if pci_enable_msi_block E 0 16 \<noteq> 0 then 1 else 16)
    in if pci_enable_msi_block E 1 m \<noteq> 0 then 0 else m)"
  let ?vp = "\<lparr>vp_mmio = pcim_iomap_table0 E + 0x10000, vp_ctrl = pcim_iomap_table0 E,
    vp_vd = replicate 8 None, vp_msi = msi\<rparr>"
  have "length vpci_funs = 5"
    by (simp add: vpci_funs_def)
  with assms(1) have p: "probe_functions E [0..<5] ?vp = (True, vp)"
    unfolding msi_def by (auto simp: vpci_probe_def Let_def simp del: upt_Suc split: if_splits prod.splits)
  note vp = probe_functions_all [OF p]
  have len: "length (vp_vd vp) = 8"
    using vp by simp
  have vd: "vp_vd vp ! i = (if i < 5 then Some (new_virt_device ?vp 0x10000 i) else None)" if "i < 8" for i
    using vp that by simp
  have "ier (dev w') = 0"
    using assms by (auto simp: vpci_probe_def vpci_access ier_register_def split: if_splits)
  moreover have "vp_wf vp"
    using vd len by (auto simp: vp_wf_def list_all_iff new_virt_device_def)
  moreover have "irq_consistent vp 0"
    using vd by (auto simp: irq_consistent_def list_all_iff line_handler_def new_virt_device_def)
  ultimately show ?thesis
    by (simp add: irq_inv_def)
qed


text \<open>C40: \<^verbatim>\<open>vpci_request_irq\<close> accepts the numbers 2 and 3 although a function has two lines: it
  stores the handler where the dispatcher never looks and enables a line of the next function.\<close>

theorem request_irq_next_port:
  assumes "ier_register B (vp_ctrl vp + IRQ_IER) ier" and "vp_wf vp" and "p < 7"
    and "vp_vd vp ! p = Some vd" and "vd_irqs vd ! 2 = NULL" and "irq_consistent vp (ier (dev w))"
  shows "case vpci_request_irq B vp p vd 2 handler priv w of (rc, vp', w') \<Rightarrow> rc = 0
    \<and> bit (ier (dev w')) (2 * (p + 1))
    \<and> list_all (\<lambda>l. line_handler vp' l = line_handler vp l) [0..<16]
    \<and> (\<not> line_handler vp (2 * (p + 1)) \<longrightarrow> \<not> irq_consistent vp' (ier (dev w')))"
proof -
  have p: "p < 8"
    using assms(3) by simp
  note slot = vp_wf_slot [OF assms(2) p assms(4)]
  have own: "l div 2 = p \<Longrightarrow> line_handler vp l = (vd_irqs vd ! (l mod 2) \<noteq> NULL)" for l
    using assms(4) by (auto simp: line_handler_def)
  have "list_all (\<lambda>l. line_handler (vp\<lparr>vp_vd := (vp_vd vp)[p := Some (vd\<lparr>vd_irqs := (vd_irqs vd)[2 := handler],
      vd_irqs_priv := (vd_irqs_priv vd)[2 := priv]\<rparr>)]\<rparr>) l = line_handler vp l) [0..<16]"
    using own by (auto simp: list_all_iff line_handler_update [OF assms(2) p] nth_list_update)
  moreover have "bit (v OR irq_line p 2) (2 * (p + 1))" for v
    using bit_irq_line [OF p, of 2 "2 * (p + 1)"] assms(3) by (simp add: bit_or_iff)
  moreover have "2 * (p + 1) \<in> set [0..<16]"
    using assms(3) by simp
  ultimately show ?thesis
    using assms(1,5) slot(1)
    by (auto simp: vpci_request_irq_def vpci_access ier_register_def irq_consistent_def list_all_iff)
qed

section \<open>Concrete instances\<close>

definition demo_pci :: pci_env where
  "demo_pci = \<lparr>pcim_enable_device = 0, pci_enable_msi_block = (\<lambda>_ _. 0), pcim_iomap_regions = 0,
     pcim_iomap_table0 = 0x80000000, devm_kzalloc_ok = True, kzalloc_ok = (\<lambda>_. True), pci_request_irq = 0\<rparr>"

definition demo_vpci :: vpci_device where
  "demo_vpci = \<lparr>vp_mmio = 0x80010000, vp_ctrl = 0x80000000, vp_vd =
     map (\<lambda>i. Some \<lparr>vd_id = vpci_funs ! i, vd_mmio = 0x80010000 + word_of_int (int i * 0x10000),
        vd_mmio_len = 0x10000, vd_irqs = replicate 4 NULL, vd_irqs_priv = replicate 4 NULL,
        vd_drv = NULL, vd_pd = NULL, vd_port = i\<rparr>) [0, 1, 2, 3, 4] @ [None, None, None],
     vp_msi = 16\<rparr>"

definition demo_bus_world :: "(u32 \<Rightarrow> u32) world" where
  "demo_bus_world = \<lparr>ram = (\<lambda>a. 0), dev = (\<lambda>a. 0)(0x8000000C := 0xFFFFFFFF, 0x8000001C := 3)\<rparr>"

lemma upt_5: "[0..<5] = [0, 1, 2, 3, 4 :: nat]"
  by (simp add: upt_rec)

lemma demo_probe:
  "vpci_probe regfile demo_pci \<lparr>ram = (\<lambda>a. 0), dev = (\<lambda>a. 0)\<rparr> = (0, Some demo_vpci, demo_bus_world)"
  by (simp add: vpci_probe_def demo_pci_def vpci_funs_def upt_5 vpci_access regfile_def demo_vpci_def
      demo_bus_world_def new_virt_device_def numeral_eq_Suc fun_eq_iff)

lemma demo_ier: "ier_register regfile a (\<lambda>d. d a)"
  by (simp add: ier_register_def regfile_def)


theorem request_irq_next_port_witness:
  "bit (dev (snd (snd (vpci_request_irq regfile demo_vpci 1 (the (vp_vd demo_vpci ! 1)) 2 0x1234 0x5678
     demo_bus_world))) 0x80000008) 4"
proof -
  have "vp_wf demo_vpci" "irq_consistent demo_vpci 0"
    using probe_state [OF demo_probe demo_ier]
    by (simp_all add: irq_inv_def) (simp add: demo_vpci_def demo_bus_world_def)
  then show ?thesis
    using request_irq_next_port [OF demo_ier, where p = 1 and vp = demo_vpci
        and vd = "the (vp_vd demo_vpci ! 1)" and w = demo_bus_world and handler = "0x1234" and priv = "0x5678"]
    by (simp add: split_beta) (simp add: demo_vpci_def demo_bus_world_def)
qed

end
