(* ===== verification/Dma_Buf.thy ===== *)
theory Dma_Buf
  imports Vpci
begin

text \<open>
  The buffer descriptions of the AES driver, \<^verbatim>\<open>dma_buf_t\<close> of \<^verbatim>\<open>linux-drv/aesdma.c\<close>: a single mapped
  address or a scatter list, walked with \<^verbatim>\<open>dma_buf_first\<close> and \<^verbatim>\<open>dma_buf_next\<close>.
\<close>

section \<open>Data\<close>

record sg_entry =
  sg_dma_address :: u32
  sg_dma_len :: u32

text \<open>\<open>cur_sg\<close> is the pointer \<^verbatim>\<open>_sg\<close>: the rest of the list from the current entry on.\<close>

record dma_buf_sg =
  buf_sg :: "sg_entry list"
  buf_cnt :: int
  buf_sz :: int
  cur_sg :: "sg_entry list"
  cur_i :: int
  cur_len :: int

datatype dma_buf_t = DMA_TYPE_SG dma_buf_sg | DMA_TYPE_ADDR u32 int

text \<open>All bytes zero: the type \<^verbatim>\<open>DMA_TYPE_SG\<close> is 0.\<close>

definition zero_buf :: dma_buf_t where
  "zero_buf = DMA_TYPE_SG \<lparr>buf_sg = [], buf_cnt = 0, buf_sz = 0, cur_sg = [], cur_i = 0, cur_len = 0\<rparr>"

section \<open>Building a description\<close>

text \<open>\<^verbatim>\<open>min_t(int, sg_dma_len(sg), n)\<close>\<close>

definition sg_min :: "sg_entry \<Rightarrow> int \<Rightarrow> int" where
  "sg_min sg n = min (sint (sg_dma_len sg)) n"

fun sg_cnt_loop :: "sg_entry list \<Rightarrow> int \<Rightarrow> int \<Rightarrow> int" where
  "sg_cnt_loop [] tsz j = j"
| "sg_cnt_loop (sg # sgs) tsz j =
    (let len = sg_min sg tsz;
         tsz = tsz - len;
         j = j + 1
     in if tsz = 0 then j else sg_cnt_loop sgs tsz j)"

definition sg_cnt_update :: "sg_entry list \<Rightarrow> int \<Rightarrow> int \<Rightarrow> int" where
  "sg_cnt_update sg_list sg_cnt tsz = sg_cnt_loop (take (nat sg_cnt) sg_list) tsz 0"

text \<open>\<open>alloc_ok\<close> is whether \<^verbatim>\<open>sg_alloc_table\<close> succeeds. The cursor fields are not assigned here; they
  are read only after \<^verbatim>\<open>dma_buf_first\<close> has set them.\<close>

definition dma_buf_sg_init ::
  "bool \<Rightarrow> dma_buf_t \<Rightarrow> sg_entry list \<Rightarrow> int \<Rightarrow> int \<Rightarrow> int \<times> dma_buf_t" where
  "dma_buf_sg_init alloc_ok buf sg_list cnt sz =
    (let sg_cnt = sg_cnt_update sg_list cnt sz in
     if \<not> alloc_ok then (- ENOMEM, buf)
     else (0, DMA_TYPE_SG \<lparr>buf_sg = take (nat sg_cnt) sg_list, buf_cnt = sg_cnt, buf_sz = sz,
                           cur_sg = [], cur_i = 0, cur_len = 0\<rparr>))"

definition dma_buf_list_init ::
  "bool \<Rightarrow> dma_buf_t \<Rightarrow> u32 list \<Rightarrow> int \<Rightarrow> int \<Rightarrow> int \<times> dma_buf_t" where
  "dma_buf_list_init alloc_ok buf dma cnt len =
    (if \<not> alloc_ok then (- ENOMEM, buf)
     else (0, DMA_TYPE_SG \<lparr>
       buf_sg = map (\<lambda>a. \<lparr>sg_dma_address = a, sg_dma_len = word_of_int len\<rparr>) (take (nat cnt) dma),
       buf_cnt = cnt, buf_sz = len * cnt, cur_sg = [], cur_i = 0, cur_len = 0\<rparr>))"

definition dma_buf_addr_init :: "u32 \<Rightarrow> int \<Rightarrow> int \<times> dma_buf_t" where
  "dma_buf_addr_init dma len = (0, DMA_TYPE_ADDR dma len)"

definition dma_buf_cnt :: "dma_buf_t \<Rightarrow> int" where
  "dma_buf_cnt buf = (case buf of DMA_TYPE_ADDR dma len \<Rightarrow> 1 | DMA_TYPE_SG s \<Rightarrow> buf_cnt s)"

section \<open>Walking a description\<close>

text \<open>The results are the length, the address \<^verbatim>\<open>*addr\<close> and the description with its cursor; \<open>None\<close> is
  the access through a null pointer past the end of the list.\<close>

definition dma_buf_first :: "dma_buf_t \<Rightarrow> (int \<times> u32 \<times> dma_buf_t) option" where
  "dma_buf_first buf =
    (case buf of
       DMA_TYPE_ADDR dma len \<Rightarrow> Some (len, dma, buf)
     | DMA_TYPE_SG s \<Rightarrow>
         (case buf_sg s of
            [] \<Rightarrow> None
          | sg # _ \<Rightarrow>
              let res = sg_min sg (buf_sz s)
              in Some (res, sg_dma_address sg,
                   DMA_TYPE_SG (s\<lparr>cur_sg := buf_sg s, cur_i := 0 + 1, cur_len := buf_sz s - res\<rparr>))))"

definition dma_buf_next :: "dma_buf_t \<Rightarrow> u32 \<Rightarrow> (int \<times> u32 \<times> dma_buf_t) option" where
  "dma_buf_next buf addr =
    (case buf of
       DMA_TYPE_ADDR dma len \<Rightarrow> Some (0, addr, buf)
     | DMA_TYPE_SG s \<Rightarrow>
         if cur_i s < buf_cnt s then
           (case tl (cur_sg s) of
              [] \<Rightarrow> None
            | sg # sgs \<Rightarrow>
                let res = sg_min sg (cur_len s)
                in Some (res, sg_dma_address sg,
                     DMA_TYPE_SG (s\<lparr>cur_sg := sg # sgs, cur_i := cur_i s + 1,
                                     cur_len := cur_len s - res\<rparr>)))
         else Some (0, addr, buf))"

section \<open>The walk visits the pieces of the buffer\<close>

text \<open>The pieces of the first \<open>sz\<close> bytes of a scatter list.\<close>

fun pieces :: "sg_entry list \<Rightarrow> int \<Rightarrow> (u32 \<times> int) list" where
  "pieces [] sz = []"
| "pieces (sg # sgs) sz =
    (if sz \<le> 0 then [] else (sg_dma_address sg, sg_min sg sz) # pieces sgs (sz - sg_min sg sz))"

definition sg_total :: "sg_entry list \<Rightarrow> int" where
  "sg_total sgs = sum_list (map (\<lambda>sg. sint (sg_dma_len sg)) sgs)"

definition sg_positive :: "sg_entry list \<Rightarrow> bool" where
  "sg_positive sgs \<longleftrightarrow> list_all (\<lambda>sg. 0 < sint (sg_dma_len sg)) sgs"

lemma sg_positive_Cons [simp]:
  "sg_positive (sg # sgs) \<longleftrightarrow> 0 < sint (sg_dma_len sg) \<and> sg_positive sgs"
  by (simp add: sg_positive_def)

lemma sg_total_Cons [simp]:
  "sg_total (sg # sgs) = sint (sg_dma_len sg) + sg_total sgs" "sg_total [] = 0"
  by (simp_all add: sg_total_def)

lemma sg_total_nonneg: "sg_positive sgs \<Longrightarrow> 0 \<le> sg_total sgs"
  by (induction sgs) (simp_all add: sg_total_def sg_positive_def)

lemma pieces_sum:
  "sg_positive sgs \<Longrightarrow> 0 \<le> sz \<Longrightarrow> sum_list (map snd (pieces sgs sz)) = min sz (sg_total sgs)"
proof (induction sgs sz rule: pieces.induct)
  case (2 sg sgs sz)
  then show ?case
    using sg_total_nonneg [of sgs] by (auto simp: sg_min_def min_def)
qed simp

lemma pieces_positive: "sg_positive sgs \<Longrightarrow> p \<in> set (pieces sgs sz) \<Longrightarrow> 0 < snd p"
  by (induction sgs sz rule: pieces.induct) (auto simp: sg_min_def split: if_splits)

lemma sg_cnt_loop_pieces:
  "sg_positive sgs \<Longrightarrow> 0 < sz \<Longrightarrow> sg_cnt_loop sgs sz j = j + int (length (pieces sgs sz))"
proof (induction sgs arbitrary: sz j)
  case (Cons sg sgs)
  have "pieces sgs 0 = []"
    by (cases sgs) auto
  then show ?case
    using Cons by (auto simp: Let_def sg_min_def min_def)
qed simp

lemma pieces_length: "length (pieces sgs sz) \<le> length sgs"
  by (induction sgs sz rule: pieces.induct) auto

lemma pieces_take: "length (pieces sgs sz) \<le> k \<Longrightarrow> pieces (take k sgs) sz = pieces sgs sz"
proof (induction sgs arbitrary: sz k)
  case (Cons sg sgs)
  then show ?case
    by (cases k) (auto split: if_splits)
qed simp

text \<open>The cursor before the piece at position \<open>k\<close>.\<close>

definition walk_at :: "sg_entry list \<Rightarrow> int \<Rightarrow> nat \<Rightarrow> dma_buf_t" where
  "walk_at sgs sz k = DMA_TYPE_SG \<lparr>buf_sg = sgs, buf_cnt = int (length sgs), buf_sz = sz,
     cur_sg = drop k sgs, cur_i = int k + 1,
     cur_len = sz - sum_list (map snd (take (Suc k) (pieces sgs sz)))\<rparr>"

lemma pieces_nth:
  "k < length (pieces sgs sz) \<Longrightarrow> pieces sgs sz ! k
    = (sg_dma_address (sgs ! k), sg_min (sgs ! k) (sz - sum_list (map snd (take k (pieces sgs sz)))))"
proof (induction sgs arbitrary: sz k)
  case (Cons sg sgs)
  then show ?case
    by (cases k) (auto simp: algebra_simps split: if_splits)
qed simp

text \<open>A description whose pieces use every entry of its list.\<close>

definition full_buf :: "sg_entry list \<Rightarrow> int \<Rightarrow> bool" where
  "full_buf sgs sz \<longleftrightarrow> sg_positive sgs \<and> sgs \<noteq> [] \<and> length (pieces sgs sz) = length sgs"

lemma dma_buf_first_walk:
  assumes "full_buf sgs sz"
  shows "dma_buf_first (DMA_TYPE_SG \<lparr>buf_sg = sgs, buf_cnt = int (length sgs), buf_sz = sz,
      cur_sg = c, cur_i = i, cur_len = l\<rparr>)
    = Some (snd (pieces sgs sz ! 0), fst (pieces sgs sz ! 0), walk_at sgs sz 0)"
proof -
  have "pieces sgs sz \<noteq> []" "sgs \<noteq> []"
    using assms by (auto simp: full_buf_def)
  then show ?thesis
    using pieces_nth [of 0 sgs sz]
    by (cases sgs) (auto simp: dma_buf_first_def walk_at_def Let_def take_Suc hd_conv_nth)
qed

lemma dma_buf_next_walk:
  assumes "full_buf sgs sz" and "Suc k < length sgs"
  shows "dma_buf_next (walk_at sgs sz k) a
    = Some (snd (pieces sgs sz ! Suc k), fst (pieces sgs sz ! Suc k), walk_at sgs sz (Suc k))"
proof -
  have len: "Suc k < length (pieces sgs sz)"
    using assms by (simp add: full_buf_def)
  have "tl (drop k sgs) = sgs ! Suc k # drop (Suc (Suc k)) sgs"
    using assms(2) by (metis Cons_nth_drop_Suc drop_Suc tl_drop)
  moreover have "drop (Suc k) sgs = sgs ! Suc k # drop (Suc (Suc k)) sgs"
    using assms(2) by (simp add: Cons_nth_drop_Suc)
  ultimately show ?thesis
    using pieces_nth [OF len] assms(2) len
    by (simp add: dma_buf_next_def walk_at_def Let_def take_Suc_conv_app_nth [of "Suc k"])
qed

lemma dma_buf_next_end:
  assumes "Suc k = length sgs"
  shows "dma_buf_next (walk_at sgs sz k) a = Some (0, a, walk_at sgs sz k)"
  using assms by (simp add: dma_buf_next_def walk_at_def)

text \<open>\<^verbatim>\<open>dma_buf_sg_init\<close> takes exactly the entries that the first \<open>sz\<close> bytes need.\<close>

lemma sg_init_full:
  assumes "sg_positive sgs" and "0 < sz" and "sgs \<noteq> []" and "cnt = int (length sgs)"
  shows "dma_buf_sg_init True b sgs cnt sz
    = (let k = length (pieces sgs sz) in (0, DMA_TYPE_SG \<lparr>buf_sg = take k sgs, buf_cnt = int k,
        buf_sz = sz, cur_sg = [], cur_i = 0, cur_len = 0\<rparr>))"
    and "full_buf (take (length (pieces sgs sz)) sgs) sz"
    and "pieces (take (length (pieces sgs sz)) sgs) sz = pieces sgs sz"
proof -
  show "dma_buf_sg_init True b sgs cnt sz
    = (let k = length (pieces sgs sz) in (0, DMA_TYPE_SG \<lparr>buf_sg = take k sgs, buf_cnt = int k,
        buf_sz = sz, cur_sg = [], cur_i = 0, cur_len = 0\<rparr>))"
    using assms sg_cnt_loop_pieces [of sgs sz 0] by (simp add: dma_buf_sg_init_def sg_cnt_update_def Let_def)
  show p: "pieces (take (length (pieces sgs sz)) sgs) sz = pieces sgs sz"
    by (rule pieces_take) simp
  have "pieces sgs sz \<noteq> []"
    using assms(2,3) by (cases sgs) auto
  then show "full_buf (take (length (pieces sgs sz)) sgs) sz"
    using assms(1,3) p pieces_length [of sgs sz]
    by (auto simp: full_buf_def sg_positive_def list_all_iff dest: in_set_takeD)
qed

end
