(* ===== verification/Kernel.thy ===== *)
theory Kernel
  imports Prelude
begin

text \<open>
  What the drivers use of the kernel's vocabulary: the direction of a mapping and the clock.
\<close>

datatype dma_dir = DMA_TO_DEVICE | DMA_FROM_DEVICE

text \<open>\<^verbatim>\<open>HZ\<close>, the current \<^verbatim>\<open>jiffies\<close> and the rounding function are parameters.\<close>

record kernel_time =
  HZ :: u32
  jiffies :: u32
  round_jiffies_up :: "u32 \<Rightarrow> u32"

text \<open>\<^verbatim>\<open>time_before(a, b)\<close> is \<^verbatim>\<open>(long)a - (long)b < 0\<close>.\<close>

definition time_before :: "u32 \<Rightarrow> u32 \<Rightarrow> bool" where
  "time_before a b \<longleftrightarrow> sint (a - b) < 0"

end
