(* ===== verification/Aesdma.thy ===== *)
theory Aesdma
  imports Dma_Buf Axidma Kernel
begin

unbundle bit_operations_syntax

text \<open>
  The AES engine driver, \<^verbatim>\<open>linux-drv/aesdma.c\<close>. Its request objects (\<^verbatim>\<open>struct aes_desc\<close>, from a slab
  cache) are a map from addresses; descriptors of the rings are in memory. The spin locks make
  each function below atomic with respect to the ring and the lists it works on. The driver
  supports one device, so that the global lists \<^verbatim>\<open>tx_head\<close> and \<^verbatim>\<open>rx_head\<close> are empty or hold it.
  Completed callbacks and released mappings are logged in order.
\<close>

section \<open>State\<close>

abbreviation (input) TX_BD_NUM :: int where "TX_BD_NUM \<equiv> 65536"
abbreviation (input) RX_BD_NUM :: int where "RX_BD_NUM \<equiv> 65536"

record aes_desc =
  sw_tx_BdPtr :: ptr
  sw_rx_BdPtr :: ptr
  sw_kref :: int
  sw_src_buf :: dma_buf_t
  sw_dst_buf :: dma_buf_t
  sw_priv :: ptr
  sw_cb :: ptr
  sw_deadline :: u32
  sw_jiffies :: u32

definition zero_desc :: aes_desc where
  "zero_desc = \<lparr>sw_tx_BdPtr = NULL, sw_rx_BdPtr = NULL, sw_kref = 0, sw_src_buf = zero_buf,
     sw_dst_buf = zero_buf, sw_priv = NULL, sw_cb = NULL, sw_deadline = 0, sw_jiffies = 0\<rparr>"

record aes_dev =
  ad_reg :: u32
  ad_AxiDma :: XAxiDma
  ad_tx_bd_v :: ptr
  ad_tx_bd_p :: u32
  ad_tx_bd_size :: int
  ad_rx_bd_v :: ptr
  ad_rx_bd_p :: u32
  ad_rx_bd_size :: int
  ad_desc_head :: "ptr list"
  ad_desc_free :: int
  ad_timer_expires :: u32
  ad_timer_pending :: bool
  ad_poll_expires :: u32
  ad_poll_pending :: bool
  ad_hw_head :: "ptr list"

record 'd aes_state =
  as_dma :: aes_dev
  as_sw :: "ptr \<Rightarrow> aes_desc"
  as_tx_head :: bool
  as_rx_head :: bool
  as_called :: "(ptr \<times> ptr) list"
  as_unmapped :: "(dma_buf_t \<times> dma_dir) list"
  as_world :: "'d world"

definition mod_timer :: "u32 \<Rightarrow> aes_dev \<Rightarrow> aes_dev" where
  "mod_timer expires dma = dma\<lparr>ad_timer_expires := expires, ad_timer_pending := True\<rparr>"

definition del_timer :: "aes_dev \<Rightarrow> aes_dev" where
  "del_timer dma = dma\<lparr>ad_timer_pending := False\<rparr>"

definition upd_sw :: "ptr \<Rightarrow> (aes_desc \<Rightarrow> aes_desc) \<Rightarrow> 'd aes_state \<Rightarrow> 'd aes_state" where
  "upd_sw sw f s = s\<lparr>as_sw := (as_sw s)(sw := f (as_sw s sw))\<rparr>"

definition upd_dma :: "(aes_dev \<Rightarrow> aes_dev) \<Rightarrow> 'd aes_state \<Rightarrow> 'd aes_state" where
  "upd_dma f s = s\<lparr>as_dma := f (as_dma s)\<rparr>"

definition aes_tx_ring :: "'d aes_state \<Rightarrow> XAxiDma_BdRing" where
  "aes_tx_ring s = TxBdRing (ad_AxiDma (as_dma s))"

definition aes_rx_ring :: "'d aes_state \<Rightarrow> XAxiDma_BdRing" where
  "aes_rx_ring s = XAxiDma_GetRxRing (ad_AxiDma (as_dma s)) 0"

definition set_tx_ring :: "XAxiDma_BdRing \<Rightarrow> 'd aes_state \<Rightarrow> 'd aes_state" where
  "set_tx_ring r = upd_dma (\<lambda>dma. dma\<lparr>ad_AxiDma := (ad_AxiDma dma)\<lparr>TxBdRing := r\<rparr>\<rparr>)"

definition set_rx_ring :: "XAxiDma_BdRing \<Rightarrow> 'd aes_state \<Rightarrow> 'd aes_state" where
  "set_rx_ring r = upd_dma (\<lambda>dma. dma\<lparr>ad_AxiDma := set_RxRing (ad_AxiDma dma) 0 r\<rparr>)"

section \<open>Requests and their reference count\<close>

text \<open>\<^verbatim>\<open>aes_alloc_desc\<close>; \<open>fresh\<close> is what \<^verbatim>\<open>kmem_cache_alloc\<close> would return, and \<open>None\<close> the access through
  the null pointer, which the code does not check for.\<close>

definition aes_alloc_desc :: "ptr \<Rightarrow> 'd aes_state \<Rightarrow> (ptr \<times> 'd aes_state) option" where
  "aes_alloc_desc fresh s =
    (let (sw, s) =
       (case ad_desc_head (as_dma s) of
          [] \<Rightarrow> (fresh, s)
        | sw # rest \<Rightarrow> (sw, upd_dma (\<lambda>dma. dma\<lparr>ad_desc_head := rest, ad_desc_free := ad_desc_free dma - 1\<rparr>) s))
     in if sw = NULL then None
        else Some (sw, upd_sw sw (\<lambda>_. zero_desc\<lparr>sw_kref := 1\<rparr>) s))"

definition aes_clean_desc :: "aes_dev \<Rightarrow> aes_dev" where
  "aes_clean_desc dma = dma\<lparr>ad_desc_head := []\<rparr>"

text \<open>Unmap a buffer and release its table (\<^verbatim>\<open>dma_buf_clean\<close>): one entry of the log stands for both.\<close>

definition aes_unmap_buf :: "dma_buf_t \<Rightarrow> dma_dir \<Rightarrow> 'd aes_state \<Rightarrow> 'd aes_state" where
  "aes_unmap_buf buf dir s = s\<lparr>as_unmapped := as_unmapped s @ [(buf, dir)]\<rparr>"

text \<open>The list and timer work of \<^verbatim>\<open>aes_free_desc\<close> under \<^verbatim>\<open>hw_lock\<close>.\<close>

definition free_desc_lists :: "ptr \<Rightarrow> 'd aes_state \<Rightarrow> 'd aes_state" where
  "free_desc_lists sw s =
    (let s = upd_dma (\<lambda>dma. dma\<lparr>ad_hw_head := remove1 sw (ad_hw_head dma)\<rparr>) s;
         s = (case ad_hw_head (as_dma s) of
                next_sw # _ \<Rightarrow>
                  if time_before (ad_timer_expires (as_dma s)) (sw_deadline (as_sw s next_sw))
                  then upd_dma (mod_timer (sw_deadline (as_sw s next_sw))) s else s
              | [] \<Rightarrow> upd_dma del_timer s)
     in upd_dma (\<lambda>dma. dma\<lparr>ad_desc_head := ad_desc_head dma @ [sw], ad_desc_free := ad_desc_free dma + 1\<rparr>) s)"

definition aes_free_desc :: "ptr \<Rightarrow> 'd aes_state \<Rightarrow> 'd aes_state" where
  "aes_free_desc sw s =
    (let s = free_desc_lists sw s;
         s = aes_unmap_buf (sw_src_buf (as_sw s sw)) DMA_TO_DEVICE s;
         s = aes_unmap_buf (sw_dst_buf (as_sw s sw)) DMA_FROM_DEVICE s
     in if sw_cb (as_sw s sw) \<noteq> NULL
        then upd_sw sw (\<lambda>d. d\<lparr>sw_cb := NULL\<rparr>)
               (s\<lparr>as_called := as_called s @ [(sw_cb (as_sw s sw), sw_priv (as_sw s sw))]\<rparr>)
        else s)"

definition kref_put :: "ptr \<Rightarrow> 'd aes_state \<Rightarrow> 'd aes_state" where
  "kref_put sw s =
    (let s = upd_sw sw (\<lambda>d. d\<lparr>sw_kref := sw_kref d - 1\<rparr>) s
     in if sw_kref (as_sw s sw) = 0 then aes_free_desc sw s else s)"

section \<open>Submitting a request\<close>

text \<open>The remaining steps of the walk, for the termination of the loop.\<close>

definition buf_left :: "dma_buf_t \<Rightarrow> nat" where
  "buf_left buf = (case buf of DMA_TYPE_ADDR dma len \<Rightarrow> 0 | DMA_TYPE_SG s \<Rightarrow> nat (buf_cnt s - cur_i s))"

lemma dma_buf_next_left:
  "dma_buf_next buf addr = Some (len, addr', buf') \<Longrightarrow> 0 < len \<Longrightarrow> buf_left buf' < buf_left buf"
  by (auto simp: dma_buf_next_def buf_left_def Let_def split: dma_buf_t.splits if_splits list.splits)

text \<open>The four setters on one descriptor. Their status results are ignored, as in the code.\<close>

definition desc_fill_bd :: "XAxiDma_BdRing \<Rightarrow> ptr \<Rightarrow> ptr \<Rightarrow> u32 \<Rightarrow> int \<Rightarrow> memory \<Rightarrow> memory" where
  "desc_fill_bd ring sw bd_ptr addr len m =
    (let m = snd (XAxiDma_BdSetBufAddr m bd_ptr addr);
         m = snd (XAxiDma_BdSetLength m bd_ptr (word_of_int len) (MaxTransferLen ring));
         m = XAxiDma_BdSetCtrl m bd_ptr 0
     in XAxiDma_BdSetId m bd_ptr sw)"

text \<open>The loop \<^verbatim>\<open>do ... while (len > 0)\<close>; the results are memory, description, last descriptor and
  \<^verbatim>\<open>tcnt\<close>, which is also the number of references taken.\<close>

function desc_fill ::
  "XAxiDma_BdRing \<Rightarrow> ptr \<Rightarrow> dma_buf_t \<Rightarrow> ptr \<Rightarrow> u32 \<Rightarrow> int \<Rightarrow> memory \<Rightarrow> nat
    \<Rightarrow> (memory \<times> dma_buf_t \<times> ptr \<times> nat) option" where
  "desc_fill ring sw buf bd_ptr addr len m tcnt =
    (let last_bd_ptr = bd_ptr;
         m = desc_fill_bd ring sw bd_ptr addr len m;
         tcnt = tcnt + 1
     in case dma_buf_next buf addr of
          None \<Rightarrow> None
        | Some (len, addr, buf) \<Rightarrow>
            if len > 0 then desc_fill ring sw buf (XAxiDma_mBdRingNext ring bd_ptr) addr len m tcnt
            else Some (m, buf, last_bd_ptr, tcnt))"
  by pat_completeness auto
termination
  by (relation "measure (\<lambda>(ring, sw, buf, bd_ptr, addr, len, m, tcnt). buf_left buf)")
    (auto dest: dma_buf_next_left)

declare desc_fill.simps [simp del]

text \<open>\<^verbatim>\<open>_aes_desc_to_hw\<close> on one ring. The results are the status, ring, description, \<^verbatim>\<open>*bd\<close> (where it is
  assigned), the number of references taken and the world.\<close>

definition aes_ring_to_hw ::
  "'d bus \<Rightarrow> dma_buf_t \<Rightarrow> XAxiDma_BdRing \<Rightarrow> ptr \<Rightarrow> 'd world
    \<Rightarrow> (status \<times> XAxiDma_BdRing \<times> dma_buf_t \<times> ptr option \<times> nat \<times> 'd world) option" where
  "aes_ring_to_hw B dbuf ring sw w =
    (let cnt = dma_buf_cnt dbuf;
         (res, ring, bd) = XAxiDma_BdRingAlloc ring cnt
     in case bd of
          None \<Rightarrow> Some (res, ring, dbuf, None, 0, w)
        | Some first_bd_ptr \<Rightarrow>
            (case dma_buf_first dbuf of
               None \<Rightarrow> None
             | Some (len, addr, dbuf) \<Rightarrow>
                 (case desc_fill ring sw dbuf first_bd_ptr addr len (ram w) 0 of
                    None \<Rightarrow> None
                  | Some (m, dbuf, last_bd_ptr, tcnt) \<Rightarrow>
                      let (sts, m) =
                            (if first_bd_ptr = last_bd_ptr
                             then (XAXIDMA_BD_CTRL_TXSOF_MASK OR XAXIDMA_BD_CTRL_TXEOF_MASK, m)
                             else (XAXIDMA_BD_CTRL_TXSOF_MASK,
                                   XAxiDma_BdSetCtrl m last_bd_ptr XAXIDMA_BD_CTRL_TXEOF_MASK));
                          m = XAxiDma_BdSetCtrl m first_bd_ptr sts;
                          (res, ring, w) = XAxiDma_BdRingToHw B ring (int tcnt) first_bd_ptr 0 (w\<lparr>ram := m\<rparr>)
                      in Some (res, ring, dbuf, Some first_bd_ptr, tcnt, w))))"

definition bd_or :: "ptr option \<Rightarrow> ptr \<Rightarrow> ptr" where
  "bd_or bd old = (case bd of None \<Rightarrow> old | Some b \<Rightarrow> b)"

text \<open>The timer and list work at the start of \<^verbatim>\<open>aes_desc_to_hw\<close>; \<^verbatim>\<open>AES_TIMEOUT\<close> is ten seconds.\<close>

definition desc_to_hw_timer :: "kernel_time \<Rightarrow> ptr \<Rightarrow> 'd aes_state \<Rightarrow> 'd aes_state" where
  "desc_to_hw_timer T sw s =
    (let deadline = jiffies T + 10 * HZ T;
         s = upd_sw sw (\<lambda>d. d\<lparr>sw_deadline := deadline, sw_jiffies := jiffies T\<rparr>) s;
         expiry = round_jiffies_up T deadline;
         s = (if \<not> ad_timer_pending (as_dma s) \<or> time_before deadline (ad_timer_expires (as_dma s))
              then upd_dma (mod_timer expiry) s else s)
     in upd_dma (\<lambda>dma. dma\<lparr>ad_hw_head := ad_hw_head dma @ [sw]\<rparr>) s)"

definition desc_to_hw_rx :: "'d bus \<Rightarrow> ptr \<Rightarrow> 'd aes_state \<Rightarrow> (status \<times> 'd aes_state) option" where
  "desc_to_hw_rx B sw s =
    (case aes_ring_to_hw B (sw_dst_buf (as_sw s sw)) (aes_rx_ring s) sw (as_world s) of
       None \<Rightarrow> None
     | Some (res, ring, buf, bd, gets, w) \<Rightarrow>
         Some (res, set_rx_ring ring (upd_sw sw (\<lambda>d. d\<lparr>sw_dst_buf := buf, sw_rx_BdPtr := bd_or bd (sw_rx_BdPtr d),
           sw_kref := sw_kref d + int gets\<rparr>) (s\<lparr>as_world := w\<rparr>))))"

definition desc_to_hw_tx :: "'d bus \<Rightarrow> ptr \<Rightarrow> 'd aes_state \<Rightarrow> (status \<times> 'd aes_state) option" where
  "desc_to_hw_tx B sw s =
    (case aes_ring_to_hw B (sw_src_buf (as_sw s sw)) (aes_tx_ring s) sw (as_world s) of
       None \<Rightarrow> None
     | Some (res, ring, buf, bd, gets, w) \<Rightarrow>
         Some (res, set_tx_ring ring (upd_sw sw (\<lambda>d. d\<lparr>sw_src_buf := buf, sw_tx_BdPtr := bd_or bd (sw_tx_BdPtr d),
           sw_kref := sw_kref d + int gets\<rparr>) (s\<lparr>as_world := w\<rparr>))))"

definition aes_desc_to_hw ::
  "'d bus \<Rightarrow> kernel_time \<Rightarrow> ptr \<Rightarrow> 'd aes_state \<Rightarrow> (status \<times> 'd aes_state) option" where
  "aes_desc_to_hw B T sw s =
    (case desc_to_hw_rx B sw (desc_to_hw_timer T sw s) of
       None \<Rightarrow> None
     | Some (res, s) \<Rightarrow>
         if res \<noteq> 0 then Some (res, s)
         else (case desc_to_hw_tx B sw s of
                 None \<Rightarrow> None
               | Some (res, s) \<Rightarrow> if res \<noteq> 0 then Some (res, s) else Some (0, kref_put sw s)))"

text \<open>What the kernel answers during \<^verbatim>\<open>aes_submit\<close>: whether \<^verbatim>\<open>_dma\<close> is set, the results of the two
  \<^verbatim>\<open>dma_map_sg\<close> and \<^verbatim>\<open>sg_alloc_table\<close> calls, and a fresh object of the slab cache.\<close>

record submit_env =
  se_dma :: bool
  se_map_src :: int
  se_map_dst :: int
  se_table_src :: bool
  se_table_dst :: bool
  se_fresh :: ptr

definition aes_submit ::
  "'d bus \<Rightarrow> kernel_time \<Rightarrow> submit_env \<Rightarrow> sg_entry list \<Rightarrow> int \<Rightarrow> int \<Rightarrow> sg_entry list \<Rightarrow> int \<Rightarrow> int
    \<Rightarrow> ptr \<Rightarrow> ptr \<Rightarrow> 'd aes_state \<Rightarrow> (int \<times> 'd aes_state) option" where
  "aes_submit B T E src_sg src_cnt src_sz dst_sg dst_cnt dst_sz cb priv s =
    (if \<not> se_dma E then Some (- ENODEV, s)
     else if se_map_src E = 0 then Some (- ENOMEM, s)
     else if se_map_dst E = 0 then Some (- ENOMEM, s)
     else case aes_alloc_desc (se_fresh E) s of
       None \<Rightarrow> None
     | Some (sw, s) \<Rightarrow>
         let s = upd_sw sw (\<lambda>d. d\<lparr>sw_cb := cb, sw_priv := priv\<rparr>) s;
             s = upd_sw sw (\<lambda>d. d\<lparr>sw_src_buf :=
                   snd (dma_buf_sg_init (se_table_src E) (sw_src_buf d) src_sg src_cnt src_sz)\<rparr>) s;
             s = upd_sw sw (\<lambda>d. d\<lparr>sw_dst_buf :=
                   snd (dma_buf_sg_init (se_table_dst E) (sw_dst_buf d) dst_sg dst_cnt dst_sz)\<rparr>) s
         in aes_desc_to_hw B T sw s)"

text \<open>\<^verbatim>\<open>aes_self_test\<close> up to where it waits for the completion: one page, at mapped addresses
  \<open>src_dma\<close> and \<open>dst_dma\<close>.\<close>

definition aes_self_test ::
  "'d bus \<Rightarrow> kernel_time \<Rightarrow> bool \<Rightarrow> ptr \<Rightarrow> u32 \<Rightarrow> u32 \<Rightarrow> ptr \<Rightarrow> ptr \<Rightarrow> 'd aes_state \<Rightarrow> (int \<times> 'd aes_state) option" where
  "aes_self_test B T alloc_ok fresh src_dma dst_dma cb priv s =
    (if \<not> alloc_ok then Some (- ENOMEM, s)
     else case aes_alloc_desc fresh s of
       None \<Rightarrow> None
     | Some (sw, s) \<Rightarrow>
         let s = upd_sw sw (\<lambda>d. d\<lparr>sw_cb := cb, sw_priv := priv,
                   sw_src_buf := snd (dma_buf_addr_init src_dma 4096),
                   sw_dst_buf := snd (dma_buf_addr_init dst_dma 4096)\<rparr>) s
         in map_option (\<lambda>(_, s). (0, s)) (aes_desc_to_hw B T sw s))"

text \<open>\<^verbatim>\<open>aes_perf_test\<close> up to where it waits: 2048 entries of 64 KiB each. \<open>E\<close> answers the kernel calls as
  in \<open>aes_submit\<close>, \<open>alloc_ok\<close> says whether both tables could be allocated.\<close>

definition aes_perf_test ::
  "'d bus \<Rightarrow> kernel_time \<Rightarrow> bool \<Rightarrow> submit_env \<Rightarrow> sg_entry list \<Rightarrow> sg_entry list \<Rightarrow> ptr \<Rightarrow> ptr \<Rightarrow> 'd aes_state
    \<Rightarrow> (int \<times> 'd aes_state) option" where
  "aes_perf_test B T alloc_ok E src_sgt dst_sgt cb priv s =
    (let sg_cnt = 2048; mem_size = sg_cnt * 65536 in
     if \<not> alloc_ok then Some (- ENOMEM, s)
     else if se_map_src E = 0 then Some (- ENOMEM, s)
     else if se_map_dst E = 0 then Some (- ENOMEM, s)
     else case aes_alloc_desc (se_fresh E) s of
       None \<Rightarrow> None
     | Some (sw, s) \<Rightarrow>
         let s = upd_sw sw (\<lambda>d. d\<lparr>sw_cb := cb, sw_priv := priv\<rparr>) s;
             s = upd_sw sw (\<lambda>d. d\<lparr>sw_src_buf :=
                   snd (dma_buf_sg_init (se_table_src E) (sw_src_buf d) src_sgt sg_cnt mem_size)\<rparr>) s;
             s = upd_sw sw (\<lambda>d. d\<lparr>sw_dst_buf :=
                   snd (dma_buf_sg_init (se_table_dst E) (sw_dst_buf d) dst_sgt sg_cnt mem_size)\<rparr>) s
         in map_option (\<lambda>(_, s). (0, s)) (aes_desc_to_hw B T sw s))"

text \<open>\<open>None\<close> is a division by zero.\<close>

definition aes_perf_speed :: "u32 \<Rightarrow> 64 word \<Rightarrow> 64 word \<Rightarrow> 64 word option" where
  "aes_perf_speed cpu_khz cycle sz =
    (if drop_bit 20 cycle = 0 then None else Some ((ucast cpu_khz div drop_bit 20 cycle) * sz))"

section \<open>Setting up the rings\<close>

text \<open>\<open>tmpl\<close> is the uninitialised local \<^verbatim>\<open>BdTemplate\<close>.\<close>

definition aes_init_channel ::
  "memory \<Rightarrow> XAxiDma_BdRing \<Rightarrow> u32 \<Rightarrow> u32 \<Rightarrow> int \<Rightarrow> memory \<Rightarrow> int \<times> XAxiDma_BdRing \<times> memory" where
  "aes_init_channel tmpl ring phy virt cnt m =
    (let (res, ring, m) = XAxiDma_BdRingCreate ring phy virt XAXIDMA_BD_MINIMUM_ALIGNMENT cnt m in
     if res \<noteq> XST_SUCCESS then (- ENOMEM, ring, m)
     else let BdTemplate = XAxiDma_BdClear tmpl 0;
              (res, m) = XAxiDma_BdRingClone ring BdTemplate m
     in if res \<noteq> XST_SUCCESS then (- ENOMEM, ring, m) else (0, ring, m))"

text \<open>The coherent memory and the slab objects that \<^verbatim>\<open>aes_desc_init\<close> obtains.\<close>

record aes_mem =
  am_tx_v :: ptr
  am_tx_p :: u32
  am_rx_v :: ptr
  am_rx_p :: u32
  am_objs :: "nat \<Rightarrow> ptr"
  am_tmpl :: memory

definition aes_desc_init :: "aes_mem \<Rightarrow> 'd aes_state \<Rightarrow> int \<times> 'd aes_state" where
  "aes_desc_init M s =
    (let sendsize = XAxiDma_mBdRingMemCalc XAXIDMA_BD_MINIMUM_ALIGNMENT TX_BD_NUM;
         recvsize = XAxiDma_mBdRingMemCalc XAXIDMA_BD_MINIMUM_ALIGNMENT RX_BD_NUM;
         s = upd_dma (\<lambda>dma. dma\<lparr>ad_tx_bd_v := am_tx_v M, ad_tx_bd_p := am_tx_p M, ad_tx_bd_size := sendsize,
               ad_rx_bd_v := am_rx_v M, ad_rx_bd_p := am_rx_p M, ad_rx_bd_size := recvsize\<rparr>) s
     in if am_tx_v M = NULL \<or> am_rx_v M = NULL then (- ENOMEM, s)
     else let
       (res, ring, m) = aes_init_channel (am_tmpl M) (aes_tx_ring s) (am_tx_p M) (am_tx_v M) TX_BD_NUM (ram (as_world s));
       s = set_tx_ring ring (s\<lparr>as_world := (as_world s)\<lparr>ram := m\<rparr>\<rparr>)
     in if res \<noteq> 0 then (res, s)
     else let
       (res, ring, m) = aes_init_channel (am_tmpl M) (aes_rx_ring s) (am_rx_p M) (am_rx_v M) RX_BD_NUM (ram (as_world s));
       s = set_rx_ring ring (s\<lparr>as_world := (as_world s)\<lparr>ram := m\<rparr>\<rparr>)
     in if res \<noteq> 0 then (res, s)
     else (0, upd_dma (\<lambda>dma. dma\<lparr>ad_hw_head := [], ad_timer_pending := False, ad_poll_pending := False,
             ad_desc_head := map (am_objs M) [0..<nat TX_BD_NUM], ad_desc_free := TX_BD_NUM\<rparr>) s))"

section \<open>Interrupts\<close>

definition AxiDma_Stop :: "'d bus \<Rightarrow> u32 \<Rightarrow> 'd world \<Rightarrow> 'd world" where
  "AxiDma_Stop B base w =
    (let (reg, w) = XAxiDma_ReadReg B base (XAXIDMA_TX_OFFSET + XAXIDMA_CR_OFFSET) w;
         w = XAxiDma_WriteReg B base (XAXIDMA_TX_OFFSET + XAXIDMA_CR_OFFSET) (reg AND NOT XAXIDMA_CR_RUNSTOP_MASK) w;
         (reg, w) = XAxiDma_ReadReg B base (XAXIDMA_RX_OFFSET + XAXIDMA_CR_OFFSET) w
     in XAxiDma_WriteReg B base (XAXIDMA_RX_OFFSET + XAXIDMA_CR_OFFSET) (reg AND NOT XAXIDMA_CR_RUNSTOP_MASK) w)"

text \<open>The register reads of \<^verbatim>\<open>aes_ring_dump\<close>, which otherwise prints.\<close>

definition aes_ring_dump :: "'d bus \<Rightarrow> XAxiDma_BdRing \<Rightarrow> 'd world \<Rightarrow> 'd world" where
  "aes_ring_dump B ring w =
    (let w = snd (XAxiDma_ReadReg B (ChanBase ring) XAXIDMA_CR_OFFSET w);
         w = snd (XAxiDma_ReadReg B (ChanBase ring) XAXIDMA_SR_OFFSET w);
         w = snd (XAxiDma_ReadReg B (ChanBase ring) XAXIDMA_CDESC_OFFSET w)
     in snd (XAxiDma_ReadReg B (ChanBase ring) XAXIDMA_TDESC_OFFSET w))"

text \<open>\<^verbatim>\<open>aes_freeze\<close> reads the 32 debug registers of the AES core, then dumps both rings.\<close>

fun freeze_regs :: "'d bus \<Rightarrow> u32 \<Rightarrow> nat \<Rightarrow> nat \<Rightarrow> 'd world \<Rightarrow> 'd world" where
  "freeze_regs B reg i 0 w = w"
| "freeze_regs B reg i (Suc n) w =
    freeze_regs B reg (i + 1) n (snd (XIo_In32 B (reg + 0x80000 + of_nat i * 4) w))"

definition aes_freeze :: "'d bus \<Rightarrow> 'd aes_state \<Rightarrow> 'd aes_state" where
  "aes_freeze B s =
    s\<lparr>as_world := aes_ring_dump B (aes_tx_ring s) (aes_ring_dump B (aes_rx_ring s)
       (freeze_regs B (ad_reg (as_dma s)) 0 32 (as_world s)))\<rparr>"

definition aes_timeout :: "'d bus \<Rightarrow> 'd aes_state \<Rightarrow> 'd aes_state" where
  "aes_timeout B s = upd_dma del_timer (aes_freeze B s)"

definition aes_tx_isr :: "'d bus \<Rightarrow> 'd aes_state \<Rightarrow> irqreturn_t \<times> 'd aes_state" where
  "aes_tx_isr B s =
    (let ring = aes_tx_ring s;
         (sts, w) = XAxiDma_ReadReg B (ChanBase ring) XAXIDMA_SR_OFFSET (as_world s);
         w = XAxiDma_mBdRingAckIrq B ring sts w
     in if sts AND XAXIDMA_ERR_ALL_MASK \<noteq> 0
        then (IRQ_HANDLED, s\<lparr>as_world := aes_ring_dump B ring (aes_ring_dump B (aes_rx_ring s) w)\<rparr>)
        else if sts AND (XAXIDMA_IRQ_DELAY_MASK OR XAXIDMA_IRQ_IOC_MASK) \<noteq> 0 \<and> \<not> as_tx_head s
        then (IRQ_HANDLED, s\<lparr>as_tx_head := True,
               as_world := XAxiDma_mBdRingIntDisable B ring XAXIDMA_IRQ_ALL_MASK w\<rparr>)
        else (IRQ_HANDLED, s\<lparr>as_world := w\<rparr>))"

definition aes_rx_isr :: "'d bus \<Rightarrow> 'd aes_state \<Rightarrow> irqreturn_t \<times> 'd aes_state" where
  "aes_rx_isr B s =
    (let ring = aes_rx_ring s;
         (sts, w) = XAxiDma_ReadReg B (ChanBase ring) XAXIDMA_SR_OFFSET (as_world s);
         w = XAxiDma_mBdRingAckIrq B ring sts w
     in if sts AND XAXIDMA_ERR_ALL_MASK \<noteq> 0
        then (IRQ_HANDLED, s\<lparr>as_world := aes_ring_dump B (aes_tx_ring s) (aes_ring_dump B ring w)\<rparr>)
        else if sts AND (XAXIDMA_IRQ_DELAY_MASK OR XAXIDMA_IRQ_IOC_MASK) \<noteq> 0 \<and> \<not> as_rx_head s
        then (IRQ_HANDLED, s\<lparr>as_rx_head := True,
               as_world := XAxiDma_mBdRingIntDisable B ring XAXIDMA_IRQ_ALL_MASK w\<rparr>)
        else (IRQ_HANDLED, s\<lparr>as_world := w\<rparr>))"

definition aes_isr :: "'d bus \<Rightarrow> 'd aes_state \<Rightarrow> irqreturn_t \<times> 'd aes_state" where
  "aes_isr B s =
    (let (IrqStsTx, w) = XAxiDma_ReadReg B (ChanBase (aes_tx_ring s)) XAXIDMA_SR_OFFSET (as_world s);
         (IrqStsRx, w) = XAxiDma_ReadReg B (ChanBase (aes_rx_ring s)) XAXIDMA_SR_OFFSET w;
         s = s\<lparr>as_world := w\<rparr>
     in if (IrqStsTx OR IrqStsRx) AND XAXIDMA_IRQ_ALL_MASK = 0 then (IRQ_NONE, s)
        else let
          (res, s) = (if IrqStsTx AND XAXIDMA_IRQ_ALL_MASK \<noteq> 0 then aes_tx_isr B s else (IRQ_NONE, s))
        in if IrqStsRx AND XAXIDMA_IRQ_ALL_MASK \<noteq> 0 then aes_rx_isr B s else (res, s))"

definition aes_poll_isr :: "'d bus \<Rightarrow> kernel_time \<Rightarrow> 'd aes_state \<Rightarrow> 'd aes_state" where
  "aes_poll_isr B T s =
    upd_dma (\<lambda>dma. dma\<lparr>ad_poll_expires := jiffies T + 1, ad_poll_pending := True\<rparr>) (snd (aes_isr B s))"

section \<open>Bottom halves\<close>

text \<open>\<^verbatim>\<open>_aes_tx_clean_bh\<close> and \<^verbatim>\<open>_aes_rx_clean_bh\<close>: drop the reference of the descriptor's request.\<close>

definition aes_clean_bh :: "ptr \<Rightarrow> 'd aes_state \<Rightarrow> 'd aes_state" where
  "aes_clean_bh bd s = kref_put (XAxiDma_BdGetId (ram (as_world s)) bd) s"

definition bh_set_id :: "ptr \<Rightarrow> 'd aes_state \<Rightarrow> 'd aes_state" where
  "bh_set_id bd s = s\<lparr>as_world := (as_world s)\<lparr>ram := XAxiDma_BdSetId (ram (as_world s)) bd NULL\<rparr>\<rparr>"

text \<open>The inner loop \<^verbatim>\<open>do ... while (bd_processed > 0)\<close>.\<close>

fun bh_clean_loop :: "nat \<Rightarrow> XAxiDma_BdRing \<Rightarrow> ptr \<Rightarrow> 'd aes_state \<Rightarrow> 'd aes_state" where
  "bh_clean_loop 0 ring BdCurPtr s = s"
| "bh_clean_loop (Suc bd_processed) ring BdCurPtr s =
    bh_clean_loop bd_processed ring (XAxiDma_mBdRingNext ring BdCurPtr) (bh_set_id BdCurPtr (aes_clean_bh BdCurPtr s))"

text \<open>The outer loop \<^verbatim>\<open>while ((bd_processed = XAxiDma_BdRingFromHw(...)) > 0)\<close>.\<close>

function bh_drain :: "XAxiDma_BdRing \<Rightarrow> 'd aes_state \<Rightarrow> XAxiDma_BdRing \<times> 'd aes_state" where
  "bh_drain ring s =
    (let (bd_processed, ring, BdPtr) = XAxiDma_BdRingFromHw ring TX_BD_NUM (ram (as_world s)) in
     if bd_processed > 0 then
       let s = bh_clean_loop (nat bd_processed) ring BdPtr s;
           (res, ring) = XAxiDma_BdRingFree ring bd_processed BdPtr
       in bh_drain ring s
     else (ring, s))"
  by pat_completeness auto
termination
proof (relation "measure (\<lambda>(ring, s). nat (HwCnt ring))", simp)
  fix ring :: XAxiDma_BdRing and s :: "'d aes_state" and x n y r' b s' st res r''
  assume "x = XAxiDma_BdRingFromHw ring 65536 (ram (as_world s))" "(n, y) = x" "(r', b) = y" "0 < n"
    "st = XAxiDma_BdRingFree r' n b" "(res, r'') = st"
  then have "HwCnt r'' = HwCnt r'" "XAxiDma_BdRingFromHw ring 65536 (ram (as_world s)) = (n, r', b)"
    using free_hwcnt [of r' n b] by (auto dest: sym)
  then show "((r'', s'), ring, s) \<in> measure (\<lambda>(ring, s). nat (HwCnt ring))"
    using fromhw_hwcnt [of ring 65536 "ram (as_world s)" n r' b] \<open>0 < n\<close> by simp
qed

declare bh_drain.simps [simp del]

text \<open>One activation of the tasklet; the device, if queued, is taken off the list, its ring drained
  and its interrupts enabled again, after which the list is empty.\<close>

definition tx_handle_bh :: "'d bus \<Rightarrow> 'd aes_state \<Rightarrow> 'd aes_state" where
  "tx_handle_bh B s =
    (if \<not> as_tx_head s then s
     else let
       s = s\<lparr>as_tx_head := False\<rparr>;
       (ring, s) = bh_drain (aes_tx_ring s) s;
       s = set_tx_ring ring s
     in s\<lparr>as_world := XAxiDma_mBdRingIntEnable B ring XAXIDMA_IRQ_ALL_MASK (as_world s)\<rparr>)"

definition rx_handle_bh :: "'d bus \<Rightarrow> 'd aes_state \<Rightarrow> 'd aes_state" where
  "rx_handle_bh B s =
    (if \<not> as_rx_head s then s
     else let
       s = s\<lparr>as_rx_head := False\<rparr>;
       (ring, s) = bh_drain (aes_rx_ring s) s;
       s = set_rx_ring ring s
     in s\<lparr>as_world := XAxiDma_mBdRingIntEnable B ring XAXIDMA_IRQ_ALL_MASK (as_world s)\<rparr>)"

section \<open>Probe and remove\<close>

definition aes_config :: "u32 \<Rightarrow> XAxiDma_Config" where
  "aes_config reg = \<lparr>Cfg_DeviceId = 0xe001, Cfg_BaseAddr = reg, Cfg_HasStsCntrlStrm = 1, Cfg_HasMm2S = 1,
     Cfg_HasMm2SDRE = 0, Cfg_Mm2SDataWidth = 128, Cfg_HasS2Mm = 1, Cfg_HasS2MmDRE = 0,
     Cfg_S2MmDataWidth = 128, Cfg_HasSg = 1, Cfg_Mm2sNumChannels = 1, Cfg_S2MmNumChannels = 1\<rparr>"

definition zero_aes_dev :: aes_dev where
  "zero_aes_dev = \<lparr>ad_reg = 0, ad_AxiDma = zero_XAxiDma, ad_tx_bd_v = NULL, ad_tx_bd_p = 0, ad_tx_bd_size = 0,
     ad_rx_bd_v = NULL, ad_rx_bd_p = 0, ad_rx_bd_size = 0, ad_desc_head = [], ad_desc_free = 0,
     ad_timer_expires = 0, ad_timer_pending = False, ad_poll_expires = 0, ad_poll_pending = False,
     ad_hw_head = []\<rparr>"

text \<open>The part both probes share before they request the interrupt: reset, initialise the engine,
  set up the rings. The first component is \<^verbatim>\<open>err\<close>.\<close>

definition aes_bring_up :: "'d bus \<Rightarrow> aes_mem \<Rightarrow> u32 \<Rightarrow> 'd aes_state \<Rightarrow> int \<times> 'd aes_state" where
  "aes_bring_up B M reg s =
    (let s = upd_dma (\<lambda>dma. dma\<lparr>ad_reg := reg\<rparr>) s;
         w = XAxiDma_WriteReg B reg (XAXIDMA_TX_OFFSET + XAXIDMA_CR_OFFSET) XAXIDMA_CR_RESET_MASK (as_world s);
         w = XAxiDma_WriteReg B reg (XAXIDMA_RX_OFFSET + XAXIDMA_CR_OFFSET) XAXIDMA_CR_RESET_MASK w;
         (err, I, w) = XAxiDma_CfgInitialize B (ad_AxiDma (as_dma s)) (Some (aes_config reg)) w;
         s = upd_dma (\<lambda>dma. dma\<lparr>ad_AxiDma := I\<rparr>) (s\<lparr>as_world := w\<rparr>)
     in if err \<noteq> XST_SUCCESS then (err, s) else aes_desc_init M s)"

text \<open>The part after it: enable the interrupts, start both rings, set the coalescing and arm the
  poll timer. \<open>None\<close> is a start that does not return.\<close>

definition aes_start :: "'d bus \<Rightarrow> kernel_time \<Rightarrow> 'd aes_state \<Rightarrow> (int \<times> 'd aes_state) option" where
  "aes_start B T s =
    (let w = XAxiDma_mBdRingIntEnable B (aes_rx_ring s) XAXIDMA_IRQ_ALL_MASK (as_world s);
         w = XAxiDma_mBdRingIntEnable B (aes_tx_ring s) XAXIDMA_IRQ_ALL_MASK w
     in case XAxiDma_BdRingStart B (aes_rx_ring s) 0 w of
          None \<Rightarrow> None
        | Some (err, ring, w) \<Rightarrow>
            let s = set_rx_ring ring (s\<lparr>as_world := w\<rparr>) in
            if err \<noteq> XST_SUCCESS then Some (err, s)
            else (case XAxiDma_BdRingStart B (aes_tx_ring s) 0 w of
                    None \<Rightarrow> None
                  | Some (err, ring, w) \<Rightarrow>
                      let s = set_tx_ring ring (s\<lparr>as_world := w\<rparr>) in
                      if err \<noteq> XST_SUCCESS then Some (err, s)
                      else let
                        w = snd (XAxiDma_BdRingSetCoalesce B (aes_tx_ring s) 24 254 w);
                        w = snd (XAxiDma_BdRingSetCoalesce B (aes_rx_ring s) 12 254 w)
                      in Some (0, upd_dma (\<lambda>dma. dma\<lparr>ad_poll_expires := jiffies T + HZ T, ad_poll_pending := True\<rparr>)
                                    (s\<lparr>as_world := w\<rparr>))))"

text \<open>What the PCI core answers during \<^verbatim>\<open>aes_probe\<close>.\<close>

record aes_pci =
  ap_enable :: int
  ap_mask64 :: int
  ap_cmask64 :: int
  ap_mask32 :: int
  ap_cmask32 :: int
  ap_regions :: int
  ap_kzalloc :: bool
  ap_ioremap :: ptr
  ap_request_irq :: int

definition aes_dma_mask :: "aes_pci \<Rightarrow> int" where
  "aes_dma_mask P =
    (if ap_mask64 P = 0 then ap_cmask64 P
     else if ap_mask32 P = 0 then ap_cmask32 P else ap_mask32 P)"

definition new_aes_state :: "'d world \<Rightarrow> 'd aes_state" where
  "new_aes_state w = \<lparr>as_dma = zero_aes_dev, as_sw = (\<lambda>_. zero_desc), as_tx_head = False, as_rx_head = False,
     as_called = [], as_unmapped = [], as_world = w\<rparr>"

text \<open>\<^verbatim>\<open>aes_probe\<close> up to the self tests, which submit requests and wait. The first component is the
  returned \<^verbatim>\<open>err\<close>; the second the device, \<open>None\<close> where it was not allocated or has been freed.\<close>

definition aes_probe ::
  "'d bus \<Rightarrow> kernel_time \<Rightarrow> aes_pci \<Rightarrow> aes_mem \<Rightarrow> 'd world \<Rightarrow> (int \<times> 'd aes_state option) option" where
  "aes_probe B T P M w =
    (if ap_enable P \<noteq> 0 then Some (ap_enable P, None)
     else if aes_dma_mask P \<noteq> 0 then Some (aes_dma_mask P, None)
     else let err = ap_regions P in
     if err \<noteq> 0 then Some (err, None)
     else if \<not> ap_kzalloc P then Some (err, None)
     else if ap_ioremap P = NULL then Some (err, None)
     else let (err, s) = aes_bring_up B M (ap_ioremap P + 0x10000) (new_aes_state w) in
     if err \<noteq> 0 then Some (err, None)
     else let err = ap_request_irq P in
     if err \<noteq> 0 then Some (err, None)
     else case aes_start B T s of
       None \<Rightarrow> None
     | Some (err, s) \<Rightarrow> if err \<noteq> 0 then Some (err, None) else Some (0, Some s))"

text \<open>\<^verbatim>\<open>aes_remove\<close> up to the calls that release kernel resources.\<close>

definition aes_remove :: "'d bus \<Rightarrow> 'd aes_state \<Rightarrow> 'd aes_state" where
  "aes_remove B s =
    (let w = XAxiDma_mBdRingIntDisable B (aes_tx_ring s) XAXIDMA_IRQ_ALL_MASK (as_world s);
         w = XAxiDma_mBdRingIntDisable B (aes_rx_ring s) XAXIDMA_IRQ_ALL_MASK w;
         s = upd_dma (\<lambda>dma. del_timer (dma\<lparr>ad_poll_pending := False\<rparr>)) s;
         w = AxiDma_Stop B (ad_reg (as_dma s)) w
     in upd_dma aes_clean_desc (s\<lparr>as_world := w\<rparr>))"

text \<open>The probe on the virtual bus, for slot \<open>p\<close> of the card; \<open>isr\<close> are the addresses of the two
  interrupt handlers and \<open>self\<close> that of the device structure. \<^verbatim>\<open>err |= ...\<close> makes the second
  request even when the first fails. \<open>None\<close> is also the return of the uninitialised \<^verbatim>\<open>err\<close> when the
  allocation fails.\<close>

definition aes_platform_probe ::
  "'d bus \<Rightarrow> kernel_time \<Rightarrow> bool \<Rightarrow> aes_mem \<Rightarrow> ptr \<times> ptr \<Rightarrow> ptr \<Rightarrow> nat \<Rightarrow> virt_device \<Rightarrow> vpci_device \<Rightarrow> 'd world
    \<Rightarrow> (int \<times> 'd aes_state option \<times> vpci_device) option" where
  "aes_platform_probe B T alloc_ok M isr self p vd vp w =
    (if \<not> alloc_ok then None
     else let (err, s) = aes_bring_up B M (vd_mmio vd) (new_aes_state w) in
     if err \<noteq> 0 then Some (err, None, vp)
     else let
       (err0, vp, w) = vpci_request_irq B vp p vd 0 (fst isr) self (as_world s);
       vd = (case vp_vd vp ! p of None \<Rightarrow> vd | Some vd \<Rightarrow> vd);
       (err1, vp, w) = vpci_request_irq B vp p vd 1 (snd isr) self w;
       s = s\<lparr>as_world := w\<rparr>;
       err = err0 OR err1
     in if err \<noteq> 0 then Some (err, None, vp)
     else case aes_start B T s of
       None \<Rightarrow> None
     | Some (err, s) \<Rightarrow> if err \<noteq> 0 then Some (err, None, vp) else Some (0, Some s, vp))"

definition aes_platform_remove ::
  "'d bus \<Rightarrow> 'd aes_state \<Rightarrow> nat \<Rightarrow> virt_device \<Rightarrow> vpci_device \<Rightarrow> 'd aes_state \<times> vpci_device" where
  "aes_platform_remove B s p vd vp =
    (let s = aes_remove B s;
         (vp, w) = vpci_free_irq B vp p vd 0 (as_world s);
         vd = (case vp_vd vp ! p of None \<Rightarrow> vd | Some vd \<Rightarrow> vd);
         (vp, w) = vpci_free_irq B vp p vd 1 w
     in (s\<lparr>as_world := w\<rparr>, vp))"

end
