(* ===== verification/Ring_Client.thy ===== *)
theory Ring_Client
  imports Ring_Machine Axidma "HOL-Library.Multiset"
begin

unbundle bit_operations_syntax

text \<open>
  What the drivers rely on when they work with a descriptor ring: the words of its descriptors in
  memory, changes that stay inside a ring, filling and handing over sets of descriptors, and taking
  completed sets back.
\<close>

section \<open>Words of descriptors\<close>

definition bd_off :: "u32 \<Rightarrow> bool" where
  "bd_off off \<longleftrightarrow> unat off mod 4 = 0 \<and> unat off \<le> 60"

lemma bd_off_separate:
  assumes "bd_off a" and "bd_off b" and "a \<noteq> b"
  shows "separate4 a b"
proof -
  have "unat a \<noteq> unat b"
    using assms(3) unsigned_word_eqI [of a b] by auto
  then have "unat a + 4 \<le> unat b \<or> unat b + 4 \<le> unat a"
    using assms(1,2) unfolding bd_off_def by presburger
  then show ?thesis
    using assms(1,2) by (intro separate4_unat) (auto simp: bd_off_def)
qed

lemma bd_read_write:
  assumes "ring_geom r" and "i < ring_size r" and "j < ring_size r" and "bd_off a" and "bd_off b"
  shows "XAxiDma_BdRead (XAxiDma_BdWrite m (ring_at r i) a v) (ring_at r j) b
    = (if i = j \<and> a = b then v else XAxiDma_BdRead m (ring_at r j) b)"
proof (cases "i = j \<and> a = b")
  case True
  then show ?thesis
    by (simp only: BdRead_BdWrite_same if_True simp_thms)
next
  case False
  have "unat a + 4 \<le> 64" "unat b + 4 \<le> 64"
    using assms(4,5) by (simp_all add: bd_off_def)
  then have "separate4 (ring_at r i + a) (ring_at r j + b)"
    using False assms(1-3) bd_words_separate [of r i j a b] bd_off_separate [OF assms(4,5)]
      separate4_offset [of "ring_at r i" a b] by metis
  then show ?thesis
    using False by (simp only: BdRead_BdWrite_far if_False)
qed

definition bd_words :: "memory \<Rightarrow> ptr \<Rightarrow> u32 \<Rightarrow> u32" where
  "bd_words m b off = XAxiDma_BdRead m b off"

lemma bd_words_write:
  assumes "ring_geom r" and "i < ring_size r" and "j < ring_size r" and "bd_off a" and "bd_off b"
  shows "bd_words (XAxiDma_BdWrite m (ring_at r i) a v) (ring_at r j) b
    = (if i = j \<and> a = b then v else bd_words m (ring_at r j) b)"
  using bd_read_write [OF assms] by (simp add: bd_words_def)

text \<open>The results of the setters, from the words \<open>old\<close> before.\<close>

definition addr_refused :: "(u32 \<Rightarrow> u32) \<Rightarrow> u32 \<Rightarrow> bool" where
  "addr_refused old a \<longleftrightarrow>
    a AND (ucast (ucast (old 0x3C AND XAXIDMA_BD_WORDLEN_MASK) :: u8) - 1) \<noteq> 0
      \<and> old 0x3C AND XAXIDMA_BD_HAS_DRE_MASK = 0"

definition len_word :: "u32 \<Rightarrow> u32 \<Rightarrow> u32 \<Rightarrow> u32" where
  "len_word lmax old l = (if l \<le> 0 \<or> l > lmax then old else (old AND NOT lmax) OR l)"

definition ctrl_word :: "u32 \<Rightarrow> u32 \<Rightarrow> u32" where
  "ctrl_word old c = (old AND NOT XAXIDMA_BD_CTRL_ALL_MASK) OR (c AND XAXIDMA_BD_CTRL_ALL_MASK)"

lemma set_ctrl_words:
  assumes "ring_geom r" and "i < ring_size r" and "j < ring_size r" and "bd_off off"
  shows "bd_words (XAxiDma_BdSetCtrl m (ring_at r i) c) (ring_at r j) off
    = (if i = j \<and> off = 0x18 then ctrl_word (bd_words m (ring_at r j) 0x18) c
       else bd_words m (ring_at r j) off)"
proof -
  have "XAxiDma_BdSetCtrl m (ring_at r i) c
      = XAxiDma_BdWrite m (ring_at r i) 0x18 (ctrl_word (bd_words m (ring_at r i) 0x18) c)"
    by (simp add: XAxiDma_BdSetCtrl_def ctrl_word_def bd_words_def Let_def)
  moreover have "bd_off 0x18"
    by (simp add: bd_off_def)
  ultimately show ?thesis
    using bd_words_write [OF assms(1-3) _ assms(4)] by auto
qed

lemma ctrl_word_fields:
  assumes "k \<le> 26"
  shows "ctrl_word v c AND mask k = v AND mask k" and "ctrl_word v c AND 0x0C000000 = c AND 0x0C000000"
proof -
  have eq: "(0x0C000000 :: u32) = push_bit 26 3" by simp
  have low: "\<not> bit (0x0C000000 :: u32) n" if "n < 26" for n
    using that unfolding eq by (simp add: bit_push_bit_iff del: push_bit_numeral)
  define c0 where "c0 = (0x0C000000 :: u32)"
  have "ctrl_word v c = (v AND NOT c0) OR (c AND c0)"
    by (simp add: ctrl_word_def c0_def)
  then show "ctrl_word v c AND mask k = v AND mask k"
    using assms low [folded c0_def]
    by (auto intro!: bit_word_eqI simp: bit_and_iff bit_or_iff bit_not_iff bit_mask_iff)
  show "ctrl_word v c AND 0x0C000000 = c AND 0x0C000000"
    by (simp add: ctrl_word_def bit.conj_disj_distrib2 and.assoc)
qed

lemma len_word_field:
  assumes "0 < l" and "l \<le> uint (mask k :: u32)"
  shows "len_word (mask k) old (word_of_int l) AND mask k = word_of_int l"
    and "(word_of_int l :: u32) \<noteq> 0"
proof -
  have u: "uint (word_of_int l :: u32) = l"
    using assms uint_bounded [of "mask k :: u32"]
    by (simp add: unsigned_of_int take_bit_int_eq_self)
  then show nz: "(word_of_int l :: u32) \<noteq> 0"
    using assms(1) by (metis less_irrefl unsigned_0)
  have le: "(word_of_int l :: u32) \<le> mask k"
    using assms(2) u by (simp add: word_le_def)
  have "\<not> (word_of_int l :: u32) \<le> 0"
    using nz by simp
  then have "len_word (mask k) old (word_of_int l) = (old AND NOT (mask k)) OR word_of_int l"
    using leD [OF le] by (simp add: len_word_def)
  moreover have "(old AND NOT (mask k) OR x) AND mask k = x" if "x \<le> mask k" for x :: u32
    using bit_low_mask [OF that] by (intro bit_word_eqI) (auto simp: bit_simps not_le [symmetric])
  ultimately show "len_word (mask k) old (word_of_int l) AND mask k = word_of_int l"
    using le by simp
qed

lemma clear_complete_words:
  assumes g: "ring_geom r" and j: "j < ring_size r" and xs: "set xs \<subseteq> ring_at r ` {..<ring_size r}"
  shows "bd_off off \<Longrightarrow> off \<noteq> 0x1C \<Longrightarrow> bd_words (clear_complete m xs) (ring_at r j) off = bd_words m (ring_at r j) off"
    and "bd_done (clear_complete m xs) (ring_at r j) \<Longrightarrow> bd_done m (ring_at r j) \<and> ring_at r j \<notin> set xs"
proof -
  have off: "bd_off 0x1C" by (simp add: bd_off_def)
  show "bd_off off \<Longrightarrow> off \<noteq> 0x1C \<Longrightarrow> bd_words (clear_complete m xs) (ring_at r j) off = bd_words m (ring_at r j) off"
    using xs by (induction m xs rule: clear_complete.induct) (auto simp: bd_words_write [OF g _ j off])
  have upd: "bd_done (XAxiDma_BdWrite m (ring_at r i) 0x1C (XAxiDma_BdRead m (ring_at r i) 0x1C AND NOT 0x80000000)) (ring_at r j)
      \<longleftrightarrow> bd_done m (ring_at r j) \<and> ring_at r i \<noteq> ring_at r j" if "i < ring_size r" for m i
    using bd_read_write [OF g that j off off, of m] ring_at_inj [OF g that j]
    by (auto simp: bd_done_def XAxiDma_BdHwCompleted_def and.assoc)
  show "bd_done (clear_complete m xs) (ring_at r j) \<Longrightarrow> bd_done m (ring_at r j) \<and> ring_at r j \<notin> set xs"
    using xs
  proof (induction m xs rule: clear_complete.induct)
    case (2 m b bs)
    then obtain i where "b = ring_at r i" "i < ring_size r" by auto
    then show ?case
      using 2 upd [of i m] by auto
  qed simp
qed

lemma tohw_mem_words:
  assumes g: "ring_geom r" and j: "j < ring_size r" and xs: "set xs \<subseteq> ring_at r ` {..<ring_size r}"
  shows "bd_off off \<Longrightarrow> off \<noteq> 0x1C \<Longrightarrow> bd_words (tohw_mem m xs) (ring_at r j) off = bd_words m (ring_at r j) off"
    and "ring_at r j \<in> set xs \<Longrightarrow> \<not> bd_done (tohw_mem m xs) (ring_at r j)"
proof -
  have off: "bd_off 0x1C" by (simp add: bd_off_def)
  show "bd_off off \<Longrightarrow> off \<noteq> 0x1C \<Longrightarrow> bd_words (tohw_mem m xs) (ring_at r j) off = bd_words m (ring_at r j) off"
    using xs by (cases xs) (auto simp: bd_words_write [OF g _ j off] clear_complete_words(1) [OF g j])
  show "\<not> bd_done (tohw_mem m xs) (ring_at r j)" if "ring_at r j \<in> set xs"
  proof (cases xs)
    case (Cons b bs)
    then obtain i where i: "b = ring_at r i" "i < ring_size r"
      using xs by auto
    have "\<not> bd_done (XAxiDma_BdWrite m b 0x1C (XAxiDma_BdGetSts m b AND NOT 0x80000000)) b"
      by (simp add: bd_done_def XAxiDma_BdHwCompleted_def and.assoc)
    then show ?thesis
      using that xs Cons i clear_complete_words(2) [OF g j, of bs] by (cases "ring_at r j = b") auto
  qed (use that in simp)
qed

section \<open>Memory outside a ring\<close>

text \<open>\<open>m'\<close> differs from \<open>m\<close> only in words of the ring's descriptors.\<close>

definition ring_local :: "XAxiDma_BdRing \<Rightarrow> memory \<Rightarrow> memory \<Rightarrow> bool" where
  "ring_local r m m' \<longleftrightarrow> (\<forall>p. (\<forall>j<ring_size r. \<forall>off. bd_off off \<longrightarrow> separate4 (ring_at r j + off) p)
     \<longrightarrow> load32 m' p = load32 m p)"

definition rings_apart :: "XAxiDma_BdRing \<Rightarrow> XAxiDma_BdRing \<Rightarrow> bool" where
  "rings_apart r r2 \<longleftrightarrow> (\<forall>i<ring_size r. \<forall>j<ring_size r2. \<forall>a b. bd_off a \<longrightarrow> bd_off b \<longrightarrow>
     separate4 (ring_at r i + a) (ring_at r2 j + b))"

lemma ring_local_refl [simp]: "ring_local r m m"
  by (simp add: ring_local_def)

lemma ring_local_trans: "ring_local r m m' \<Longrightarrow> ring_local r m' m'' \<Longrightarrow> ring_local r m m''"
  by (simp add: ring_local_def)

lemma ring_local_write: "i < ring_size r \<Longrightarrow> bd_off off \<Longrightarrow> ring_local r m (XAxiDma_BdWrite m (ring_at r i) off v)"
  by (auto simp: ring_local_def XAxiDma_BdWrite_def load32_store32_other)

lemma ring_local_apart:
  assumes "ring_local r m m'" and "rings_apart r r2" and "j < ring_size r2" and "bd_off off"
  shows "bd_words m' (ring_at r2 j) off = bd_words m (ring_at r2 j) off"
  using assms by (simp add: ring_local_def rings_apart_def bd_words_def XAxiDma_BdRead_def)

lemma ring_local_same:
  "ring_at r' = ring_at r \<Longrightarrow> ring_size r' = ring_size r \<Longrightarrow> ring_local r' = ring_local r"
  "ring_at r' = ring_at r \<Longrightarrow> ring_size r' = ring_size r \<Longrightarrow> rings_apart r' = rings_apart r"
  by (simp_all add: ring_local_def rings_apart_def fun_eq_iff)

lemma ring_local_ctrl:
  "i < ring_size r \<Longrightarrow> ring_local r m (XAxiDma_BdSetCtrl m (ring_at r i) c)"
  using ring_local_write [of i r "0x18"] by (simp add: XAxiDma_BdSetCtrl_def Let_def bd_off_def)

lemma ring_local_tohw:
  assumes "ring_geom r" and "set xs \<subseteq> ring_at r ` {..<ring_size r}"
  shows "ring_local r m (tohw_mem m xs)"
proof -
  have off: "bd_off 0x1C" by (simp add: bd_off_def)
  have "ring_local r m (clear_complete m ys)" if "set ys \<subseteq> ring_at r ` {..<ring_size r}" for ys m
    using that
  proof (induction m ys rule: clear_complete.induct)
    case (2 m b bs)
    then obtain i where "b = ring_at r i" "i < ring_size r" "set bs \<subseteq> ring_at r ` {..<ring_size r}"
      by auto
    then show ?case
      using 2(1) ring_local_trans [OF ring_local_write [OF _ off]] by (simp only: clear_complete.simps) metis
  qed simp
  note clear = this
  show ?thesis
  proof (cases xs)
    case (Cons b bs)
    then obtain i where "b = ring_at r i" "i < ring_size r" "set bs \<subseteq> ring_at r ` {..<ring_size r}"
      using assms(2) by auto
    then show ?thesis
      unfolding Cons tohw_mem.simps by (metis ring_local_trans [OF ring_local_write [OF _ off] clear])
  qed simp
qed

section \<open>Identifiers with the hardware\<close>

definition hw_ids :: "memory \<Rightarrow> XAxiDma_BdRing \<Rightarrow> ptr list" where
  "hw_ids m r = map (XAxiDma_BdGetId m) (g_hw (groups r))"

definition flight :: "memory \<Rightarrow> XAxiDma_BdRing \<Rightarrow> ptr multiset" where
  "flight m r = mset (hw_ids m r)"

lemma hw_ids_cong:
  assumes "ring_inv r" and "\<forall>j<ring_size r. bd_words m' (ring_at r j) 0x34 = bd_words m (ring_at r j) 0x34"
  shows "hw_ids m' r = hw_ids m r"
proof -
  obtain i q h p f where v: "ring_view r i q h p f"
    using assms(1) by (rule ring_inv_view)
  have "set (g_hw (groups r)) \<subseteq> ring_at r ` {..<ring_size r}"
    using set_ring_seg [of r "i + q" h] v by (simp add: view_groups [OF v] ring_view_def)
  then show ?thesis
    using assms(2) by (auto simp: hw_ids_def XAxiDma_BdGetId_def bd_words_def)
qed

lemma flight_none: "g_hw (groups r) = [] \<Longrightarrow> flight m r = {#}"
  by (simp add: flight_def hw_ids_def)

lemma hw_length: "ring_inv r \<Longrightarrow> length (g_hw (groups r)) \<le> ring_size r"
  by (auto elim!: ring_inv_view simp: view_groups) (simp add: ring_view_def)

text \<open>Clearing the identifiers of the first descriptors keeps those of the others.\<close>

lemma hw_ids_rest:
  assumes inv: "ring_inv r"
    and keep: "\<forall>j<ring_size r. ring_at r j \<notin> set (take k (g_hw (groups r))) \<longrightarrow>
      bd_words m' (ring_at r j) 0x34 = bd_words m (ring_at r j) 0x34"
  shows "map (XAxiDma_BdGetId m') (drop k (g_hw (groups r))) = map (XAxiDma_BdGetId m) (drop k (g_hw (groups r)))"
proof -
  obtain i q h p f where v: "ring_view r i q h p f"
    using inv by (rule ring_inv_view)
  have "distinct (g_hw (groups r))" "set (g_hw (groups r)) \<subseteq> ring_at r ` {..<ring_size r}"
    using view_partition [OF v] by (auto simp: all_bds_def)
  then have "b \<notin> set (take k (g_hw (groups r)))" "\<exists>j<ring_size r. b = ring_at r j"
    if "b \<in> set (drop k (g_hw (groups r)))" for b
    using that set_take_disj_set_drop_if_distinct [of "g_hw (groups r)" k k] by (auto dest: in_set_dropD)
  then show ?thesis
    using keep by (auto simp: XAxiDma_BdGetId_def bd_words_def)
qed

lemma flight_cong:
  assumes "ring_inv r" and "\<forall>j<ring_size r. bd_words m' (ring_at r j) 0x34 = bd_words m (ring_at r j) 0x34"
  shows "flight m' r = flight m r"
  by (simp add: flight_def hw_ids_cong [OF assms])

text \<open>The fields of a ring that no operation after its creation changes.\<close>

definition ring_static :: "XAxiDma_BdRing \<Rightarrow> u32 \<times> int \<times> u32" where
  "ring_static r = (ChanBase r, IsRxChannel r, MaxTransferLen r)"

lemma ring_static_ops:
  "XAxiDma_BdRingFromHw r n m = (k, r', b) \<Longrightarrow> ring_static r' = ring_static r"
  "XAxiDma_BdRingFree r n b = (st, r') \<Longrightarrow> ring_static r' = ring_static r"
  by (auto simp: XAxiDma_BdRingFromHw_def XAxiDma_BdRingFree_def ring_static_def Let_def split: if_splits prod.splits)

lemma ring_static_submit:
  "XAxiDma_BdRingAlloc r n = (st, r', b) \<Longrightarrow> ring_static r' = ring_static r"
  "XAxiDma_BdRingToHw B r n x ri w = (st, r', w') \<Longrightarrow> ring_static r' = ring_static r"
  by (auto simp: XAxiDma_BdRingAlloc_def XAxiDma_BdRingToHw_def ring_static_def Let_def
      split: if_splits prod.splits option.splits)

text \<open>Only the software words of descriptors change.\<close>

definition ids_only :: "XAxiDma_BdRing \<Rightarrow> memory \<Rightarrow> memory \<Rightarrow> bool" where
  "ids_only r m m' \<longleftrightarrow> (\<forall>j<ring_size r. \<forall>off. bd_off off \<longrightarrow> off \<noteq> 0x34 \<longrightarrow>
     bd_words m' (ring_at r j) off = bd_words m (ring_at r j) off)"

definition ring_idle :: "XAxiDma_BdRing \<Rightarrow> bool" where
  "ring_idle r \<longleftrightarrow> ring_inv r \<and> g_post (groups r) = [] \<and> g_pre (groups r) = []
     \<and> MaxTransferLen r = XAXIDMA_MAX_TRANSFER_LEN \<and> ring_size r \<le> 65536"

lemma same_bds_rings:
  "same_bds r r' \<Longrightarrow> rings_apart r' = rings_apart r" "same_bds r r' \<Longrightarrow> rings_apart a r' = rings_apart a r"
  "same_bds r r' \<Longrightarrow> ring_local r' = ring_local r"
  by (simp_all add: same_bds_def rings_apart_def ring_local_def fun_eq_iff)

lemma same_bds_size: "same_bds r r' \<Longrightarrow> ring_size r' = ring_size r"
  by (simp add: same_bds_def)

lemma hw_ids_apart:
  assumes "ring_inv r2" and "ring_local r m m'" and "rings_apart r r2"
  shows "hw_ids m' r2 = hw_ids m r2"
  using assms by (intro hw_ids_cong) (simp_all add: ring_local_apart bd_off_def)

lemma flight_apart:
  assumes "ring_inv r2" and "ring_local r m m'" and "rings_apart r r2"
  shows "flight m' r2 = flight m r2"
  by (simp add: flight_def hw_ids_apart [OF assms])

section \<open>Filling descriptors\<close>

text \<open>The interface of a routine that fills one descriptor from a value: it rewrites the words of that
  descriptor by a function of the words before, and touches nothing outside the ring.\<close>

locale bd_filler =
  fixes fill :: "'a \<Rightarrow> ptr \<Rightarrow> memory \<Rightarrow> memory"
    and new :: "'a \<Rightarrow> (u32 \<Rightarrow> u32) \<Rightarrow> u32 \<Rightarrow> u32"
  assumes fill_words: "ring_geom r \<Longrightarrow> i < ring_size r \<Longrightarrow> j < ring_size r \<Longrightarrow> bd_off off \<Longrightarrow>
      bd_words (fill a (ring_at r i) m) (ring_at r j) off
        = (if i = j then new a (bd_words m (ring_at r i)) off else bd_words m (ring_at r j) off)"
    and fill_local: "i < ring_size r \<Longrightarrow> ring_local r m (fill a (ring_at r i) m)"
    and new_cong: "(\<And>off. bd_off off \<Longrightarrow> old off = old' off) \<Longrightarrow> bd_off off \<Longrightarrow> new a old off = new a old' off"

primrec fill_seq :: "('a \<Rightarrow> ptr \<Rightarrow> memory \<Rightarrow> memory) \<Rightarrow> XAxiDma_BdRing \<Rightarrow> nat \<Rightarrow> 'a list \<Rightarrow> memory \<Rightarrow> memory" where
  "fill_seq fill r s [] m = m"
| "fill_seq fill r s (a # as) m = fill_seq fill r (Suc s) as (fill a (ring_at r (s mod ring_size r)) m)"

lemma fill_seq_same: "same_bds r r' \<Longrightarrow> fill_seq fill r' s as m = fill_seq fill r s as m"
  by (induction as arbitrary: s m) (simp_all add: same_bds_def)

context bd_filler
begin

lemma seq_local: "ring_geom r \<Longrightarrow> ring_local r m (fill_seq fill r s as m)"
proof (induction as arbitrary: s m)
  case (Cons a as)
  then show ?case
    using ring_local_trans [OF fill_local [OF bdptr.idx_less] Cons.IH] by simp
qed simp

lemma seq_other:
  assumes "ring_geom r" and "j < ring_size r" and "bd_off off"
  shows "\<forall>u<length as. j \<noteq> (s + u) mod ring_size r \<Longrightarrow>
    bd_words (fill_seq fill r s as m) (ring_at r j) off = bd_words m (ring_at r j) off"
proof (induction as arbitrary: s m)
  case (Cons a as)
  have "s mod ring_size r \<noteq> j" "\<forall>u<length as. j \<noteq> (Suc s + u) mod ring_size r"
    using Cons.prems by (auto dest: spec [of _ 0] spec [of _ "Suc u" for u])
  then show ?case
    using Cons.IH fill_words [OF assms(1) bdptr.idx_less [OF assms(1)] assms(2,3)] by simp
qed simp

lemma seq_words:
  assumes g: "ring_geom r" and off: "bd_off off"
  shows "length as \<le> ring_size r \<Longrightarrow> u < length as \<Longrightarrow>
    bd_words (fill_seq fill r s as m) (ring_at r ((s + u) mod ring_size r)) off
      = new (as ! u) (bd_words m (ring_at r ((s + u) mod ring_size r))) off"
proof (induction as arbitrary: s u m)
  case (Cons a as)
  note idx = bdptr.idx_less [OF g]
  let ?m = "fill a (ring_at r (s mod ring_size r)) m"
  have new: "s mod ring_size r \<noteq> (s + Suc t) mod ring_size r" if "t < length as" for t
    using mod_add_inj [of s 0 "ring_size r" "Suc t"] that Cons.prems(1) by auto
  show ?case
  proof (cases u)
    case 0
    have "\<forall>t<length as. s mod ring_size r \<noteq> (Suc s + t) mod ring_size r"
      using new by simp
    from seq_other [OF g idx off this] show ?thesis
      using 0 fill_words [OF g idx idx off] by simp
  next
    case (Suc t)
    have keep: "bd_words ?m (ring_at r ((s + u) mod ring_size r)) off' = bd_words m (ring_at r ((s + u) mod ring_size r)) off'"
      if "bd_off off'" for off'
      using fill_words [OF g idx idx that, of a s m "s + u"] new [of t] Cons.prems(2) Suc by simp
    have "bd_words (fill_seq fill r (Suc s) as ?m) (ring_at r ((Suc s + t) mod ring_size r)) off
        = new (as ! t) (bd_words ?m (ring_at r ((Suc s + t) mod ring_size r))) off"
      using Cons.prems Suc by (intro Cons.IH) auto
    also have "\<dots> = new (as ! t) (bd_words m (ring_at r ((Suc s + t) mod ring_size r))) off"
      using keep Suc by (intro new_cong off) simp
    finally show ?thesis
      using Suc by simp
  qed
qed simp

end

text \<open>Routines that fill a descriptor in steps are composed of these.\<close>

lemma filler_compose:
  assumes f: "bd_filler f u" and g: "bd_filler g v"
  shows "bd_filler (\<lambda>a b m. g a b (f a b m)) (\<lambda>a old. v a (u a old))"
proof (unfold_locales, goal_cases)
  case (1 r i j off a m)
  have "bd_words (f a (ring_at r i) m) (ring_at r i) off' = u a (bd_words m (ring_at r i)) off'" if "bd_off off'" for off'
    using bd_filler.fill_words [OF f 1(1,2,2) that] by simp
  then have "v a (bd_words (f a (ring_at r i) m) (ring_at r i)) off = v a (u a (bd_words m (ring_at r i))) off"
    by (rule bd_filler.new_cong [OF g _ 1(4)])
  then show ?case
    unfolding bd_filler.fill_words [OF g 1] bd_filler.fill_words [OF f 1] by (cases "i = j") simp_all
next
  case (2 i r m a)
  then show ?case
    using bd_filler.fill_local [OF f] bd_filler.fill_local [OF g] ring_local_trans by blast
next
  case (3 old old' off a)
  show ?case
    using 3 by (intro bd_filler.new_cong [OF g] bd_filler.new_cong [OF f]) auto
qed

lemma filler_if:
  assumes f: "bd_filler f u" and g: "bd_filler g v"
    and c: "\<And>a old old'. (\<And>off. bd_off off \<Longrightarrow> old off = old' off) \<Longrightarrow> c a old = c a old'"
  shows "bd_filler (\<lambda>a b m. if c a (bd_words m b) then f a b m else g a b m) (\<lambda>a old. if c a old then u a old else v a old)"
proof (unfold_locales, goal_cases)
  case (1 r i j off a m)
  show ?case
    using bd_filler.fill_words [OF f 1, of a m] bd_filler.fill_words [OF g 1, of a m] by (cases "i = j") auto
next
  case (2 i r m a)
  then show ?case
    using bd_filler.fill_local [OF f] bd_filler.fill_local [OF g] by simp
next
  case (3 old old' off a)
  have "c a old = c a old'"
    by (rule c) (rule 3)
  moreover have "u a old off = u a old' off"
    by (rule bd_filler.new_cong [OF f 3])
  moreover have "v a old off = v a old' off"
    by (rule bd_filler.new_cong [OF g 3])
  ultimately show ?case
    by simp
qed

lemma filler_write:
  assumes "bd_off o'" and c: "\<And>a old old'. (\<And>off. bd_off off \<Longrightarrow> old off = old' off) \<Longrightarrow> v a old = v a old'"
  shows "bd_filler (\<lambda>a b m. XAxiDma_BdWrite m b o' (v a (bd_words m b)))
    (\<lambda>a old off. if off = o' then v a old else old off)"
proof (unfold_locales, goal_cases)
  case (1 r i j off a m)
  then show ?case
    using bd_words_write [OF 1(1-3) assms(1) 1(4)] by auto
next
  case (2 i r m a)
  then show ?case
    using ring_local_write assms(1) by blast
next
  case (3 old old' off a)
  have "v a old = v a old'"
    by (rule c) (rule 3)
  then show ?case
    using 3 by simp
qed

lemma filler_eq:
  assumes "bd_filler f u" and "\<And>a b m. g a b m = f a b m" and "\<And>a old off. v a old off = u a old off"
  shows "bd_filler g v"
proof -
  have "g = f" "v = u"
    using assms(2,3) by (auto simp: fun_eq_iff)
  then show ?thesis
    using assms(1) by simp
qed

lemma filler_skip: "bd_filler (\<lambda>a b m. m) (\<lambda>a old. old)"
  by unfold_locales auto

text \<open>The setters of \<^verbatim>\<open>xaxidma_bd.c\<close> in this form.\<close>

lemma filler_addr: "bd_filler (\<lambda>a b m. snd (XAxiDma_BdSetBufAddr m b (A a)))
    (\<lambda>a old off. if off = 8 \<and> \<not> addr_refused old (A a) then A a else old off)"
proof -
  have off: "bd_off 8" "bd_off 0x3C"
    by (simp_all add: bd_off_def)
  have "addr_refused old x = addr_refused old' x" if "\<And>off. bd_off off \<Longrightarrow> old off = old' off" for old old' x
    using that [OF off(2)] by (simp add: addr_refused_def)
  from filler_if [OF filler_skip filler_write [OF off(1), where v = "\<lambda>a old. A a"],
      where c = "\<lambda>a old. addr_refused old (A a)", OF _ this]
  have "bd_filler (\<lambda>a b m. if addr_refused (bd_words m b) (A a) then m else XAxiDma_BdWrite m b 8 (A a))
      (\<lambda>a old. if addr_refused old (A a) then old else (\<lambda>off. if off = 8 then A a else old off))"
    by simp
  moreover have "(\<lambda>a b m. if addr_refused (bd_words m b) (A a) then m else XAxiDma_BdWrite m b 8 (A a))
      = (\<lambda>a b m. snd (XAxiDma_BdSetBufAddr m b (A a)))"
    by (auto simp: fun_eq_iff XAxiDma_BdSetBufAddr_def addr_refused_def bd_words_def Let_def)
  moreover have "(\<lambda>a old. if addr_refused old (A a) then old else (\<lambda>off. if off = 8 then A a else old off))
      = (\<lambda>a old off. if off = 8 \<and> \<not> addr_refused old (A a) then A a else old off)"
    by (auto simp: fun_eq_iff)
  ultimately show ?thesis
    by simp
qed

lemma filler_len: "bd_filler (\<lambda>a b m. snd (XAxiDma_BdSetLength m b (L a) lmax))
    (\<lambda>a old off. if off = 0x18 then len_word lmax (old 0x18) (L a) else old off)"
proof -
  have off: "bd_off 0x18"
    by (simp add: bd_off_def)
  have "bd_filler (\<lambda>a b m. if L a \<le> 0 \<or> L a > lmax then m
        else XAxiDma_BdWrite m b 0x18 (len_word lmax (bd_words m b 0x18) (L a)))
      (\<lambda>a old. if L a \<le> 0 \<or> L a > lmax then old
        else (\<lambda>off. if off = 0x18 then len_word lmax (old 0x18) (L a) else old off))"
    by (rule filler_if [OF filler_skip filler_write [OF off, where v = "\<lambda>a old. len_word lmax (old 0x18) (L a)"],
        where c = "\<lambda>a old. L a \<le> 0 \<or> L a > lmax"]) (simp_all add: off)
  moreover have "(\<lambda>a b m. if L a \<le> 0 \<or> L a > lmax then m
        else XAxiDma_BdWrite m b 0x18 (len_word lmax (bd_words m b 0x18) (L a)))
      = (\<lambda>a b m. snd (XAxiDma_BdSetLength m b (L a) lmax))"
    by (auto simp: fun_eq_iff XAxiDma_BdSetLength_def len_word_def bd_words_def Let_def)
  moreover have "(\<lambda>a (old :: u32 \<Rightarrow> u32). if L a \<le> 0 \<or> L a > lmax then old
        else (\<lambda>off. if off = 0x18 then len_word lmax (old 0x18) (L a) else old off))
      = (\<lambda>a old off. if off = 0x18 then len_word lmax (old 0x18) (L a) else old off)"
    by (auto simp: fun_eq_iff len_word_def)
  ultimately show ?thesis
    by (simp only:)
qed

lemma filler_id: "bd_filler (\<lambda>a b m. XAxiDma_BdSetId m b (I a)) (\<lambda>a old off. if off = 0x34 then I a else old off)"
  using filler_write [of "0x34" "\<lambda>a old. I a"] by (simp add: XAxiDma_BdSetId_def bd_off_def)

lemma filler_ctrl: "bd_filler (\<lambda>a b m. XAxiDma_BdSetCtrl m b (c a))
    (\<lambda>a old off. if off = 0x18 then ctrl_word (old 0x18) (c a) else old off)"
  using filler_write [of "0x18" "\<lambda>a old. ctrl_word (old 0x18) (c a)"]
  by (simp add: XAxiDma_BdSetCtrl_def ctrl_word_def bd_words_def bd_off_def Let_def)

text \<open>The flags of a frame: start of frame on the first descriptor, end of frame on the last, set in either
  order.\<close>

definition frame_flags :: "ptr \<Rightarrow> ptr \<Rightarrow> memory \<Rightarrow> memory \<Rightarrow> bool" where
  "frame_flags x y m m' \<longleftrightarrow>
    (if x = y then m' = XAxiDma_BdSetCtrl m x XAXIDMA_BD_CTRL_ALL_MASK
     else m' = XAxiDma_BdSetCtrl (XAxiDma_BdSetCtrl m x XAXIDMA_BD_CTRL_TXSOF_MASK) y XAXIDMA_BD_CTRL_TXEOF_MASK
       \<or> m' = XAxiDma_BdSetCtrl (XAxiDma_BdSetCtrl m y XAXIDMA_BD_CTRL_TXEOF_MASK) x XAXIDMA_BD_CTRL_TXSOF_MASK)"

lemma frame_flags_word:
  assumes g: "ring_geom r" "i < ring_size r" "e < ring_size r" and fl: "frame_flags (ring_at r i) (ring_at r e) m m'"
    and j: "j < ring_size r" "bd_off off"
  shows "bd_words m' (ring_at r j) off = (if off = 0x18 \<and> (j = i \<or> j = e)
    then ctrl_word (bd_words m (ring_at r j) 0x18) ((if j = i then 0x08000000 else 0) OR (if j = e then 0x04000000 else 0))
    else bd_words m (ring_at r j) off)"
proof -
  have off: "bd_off 0x18" by (simp add: bd_off_def)
  have eq: "ring_at r i = ring_at r e \<longleftrightarrow> i = e"
    using ring_at_inj [OF g] by auto
  note c = set_ctrl_words [OF g(1,2) j] set_ctrl_words [OF g(1,3) j] set_ctrl_words [OF g(1,2) j(1) off]
    set_ctrl_words [OF g(1,3) j(1) off] set_ctrl_words [OF g(1) j(1) j(1) off]
  show ?thesis
  proof (cases "i = e")
    case True
    then show ?thesis
      using fl eq c by (auto simp: frame_flags_def)
  next
    case False
    then have "m' = XAxiDma_BdSetCtrl (XAxiDma_BdSetCtrl m (ring_at r i) 0x08000000) (ring_at r e) 0x04000000
       \<or> m' = XAxiDma_BdSetCtrl (XAxiDma_BdSetCtrl m (ring_at r e) 0x04000000) (ring_at r i) 0x08000000"
      using fl eq by (simp add: frame_flags_def)
    then show ?thesis
      using False by (elim disjE) (auto simp: c)
  qed
qed

lemma frame_flags_words:
  assumes g: "ring_geom r" "i < ring_size r" "e < ring_size r" and fl: "frame_flags (ring_at r i) (ring_at r e) m m'"
  shows "j < ring_size r \<Longrightarrow> bd_off off \<Longrightarrow> off \<noteq> 0x18 \<or> j \<noteq> i \<and> j \<noteq> e \<Longrightarrow>
      bd_words m' (ring_at r j) off = bd_words m (ring_at r j) off"
    and "j < ring_size r \<Longrightarrow> k \<le> 26 \<Longrightarrow> bd_words m' (ring_at r j) 0x18 AND mask k = bd_words m (ring_at r j) 0x18 AND mask k"
    and "bd_words m' (ring_at r i) 0x18 AND 0x08000000 \<noteq> 0"
    and "bd_words m' (ring_at r e) 0x18 AND 0x04000000 \<noteq> 0"
    and "ring_local r m m'"
proof -
  note w = frame_flags_word [OF g fl]
  have off: "bd_off 0x18" by (simp add: bd_off_def)
  show "bd_words m' (ring_at r j) off = bd_words m (ring_at r j) off"
    if "j < ring_size r" "bd_off off" "off \<noteq> 0x18 \<or> j \<noteq> i \<and> j \<noteq> e"
    using w [OF that(1,2)] that(3) by auto
  show "bd_words m' (ring_at r j) 0x18 AND mask k = bd_words m (ring_at r j) 0x18 AND mask k"
    if "j < ring_size r" "k \<le> 26"
    using w [OF that(1) off] ctrl_word_fields(1) [OF that(2)] by auto
  have sub: "x AND 0x08000000 = (x AND 0x0C000000) AND (0x08000000 :: u32)"
    "x AND 0x04000000 = (x AND 0x0C000000) AND (0x04000000 :: u32)" for x
    by (simp_all add: and.assoc)
  have "ctrl_word v c AND 0x0C000000 = c AND 0x0C000000" for v c
    using ctrl_word_fields(2) [of 0] by simp
  then have "ctrl_word v c AND 0x08000000 = c AND 0x08000000" "ctrl_word v c AND 0x04000000 = c AND 0x04000000" for v c
    using sub [of "ctrl_word v c"] sub [of c] by simp_all
  then show "bd_words m' (ring_at r i) 0x18 AND 0x08000000 \<noteq> 0" "bd_words m' (ring_at r e) 0x18 AND 0x04000000 \<noteq> 0"
    using w [OF g(2) off] w [OF g(3) off] by (simp_all add: split: if_splits)
  note l = ring_local_ctrl [OF g(2)] ring_local_ctrl [OF g(3)]
  show "ring_local r m m'"
    using fl l ring_local_trans [OF l(1) l(2)] ring_local_trans [OF l(2) l(1)]
    by (auto simp: frame_flags_def split: if_splits)
qed

text \<open>When a set passes the checks of \<^verbatim>\<open>XAxiDma_BdRingToHw\<close>.\<close>

lemma tohw_okI:
  assumes n: "0 < n" and max: "MaxTransferLen r = mask k"
    and len: "\<And>u. u < n \<Longrightarrow> bd_words m (ring_at r ((s + u) mod ring_size r)) 0x18 AND mask k \<noteq> 0"
    and sof: "bd_words m (ring_at r (s mod ring_size r)) 0x18 AND 0x08000000 \<noteq> 0"
    and eof: "bd_words m (ring_at r ((s + (n - 1)) mod ring_size r)) 0x18 AND 0x04000000 \<noteq> 0"
  shows "tohw_ok r m (ring_seg r s n)"
proof -
  obtain e where e: "n = Suc e"
    using n by (cases n) auto
  have "list_all (bd_len_ok r m) (ring_seg r s n)"
    using len by (simp add: list_all_length ring_seg_def bd_len_ok_def XAxiDma_BdGetLength_def max bd_words_def)
  moreover have "hd (ring_seg r s n) = ring_at r (s mod ring_size r)"
    "last (ring_seg r s n) = ring_at r ((s + (n - 1)) mod ring_size r)"
    using ring_seg_Suc [of r s e] last_ring_seg [of r s e] by (simp_all add: e)
  ultimately show ?thesis
    using sof eof unfolding tohw_ok_def ctrl_masks bd_words_def by simp
qed

section \<open>Handing sets over and taking them back\<close>

lemma free_cnt: "ring_inv r \<Longrightarrow> FreeCnt r = int (length (g_free (groups r)))"
  by (metis ring_inv_view view_lengths ring_view_def)

text \<open>The next \<open>n\<close> free descriptors are those from position \<open>s\<close> on, and none of them is with the hardware.\<close>

definition set_at :: "XAxiDma_BdRing \<Rightarrow> nat \<Rightarrow> nat \<Rightarrow> bool" where
  "set_at r s n \<longleftrightarrow> n \<le> ring_size r \<and> take n (g_free (groups r)) = ring_seg r s n
    \<and> (\<forall>b\<in>set (g_hw (groups r)). \<exists>j<ring_size r. b = ring_at r j \<and> (\<forall>u<n. j \<noteq> (s + u) mod ring_size r))"

lemma set_at_view:
  assumes v: "ring_view r i q h 0 f" and n: "n \<le> f"
  shows "set_at r (i + q + h) n"
proof -
  have g: "ring_geom r" and sum: "q + h + f = ring_size r"
    using v by (auto simp: ring_view_def)
  have "(i + q + t) mod ring_size r \<noteq> (i + q + h + u) mod ring_size r" if "t < h" "u < n" for t u
    using that n sum mod_add_inj [of "i + q" t "ring_size r" "h + u"] by (auto simp: add.assoc)
  then have "\<forall>b\<in>set (g_hw (groups r)). \<exists>j<ring_size r. b = ring_at r j \<and> (\<forall>u<n. j \<noteq> (i + q + h + u) mod ring_size r)"
    using bdptr.idx_less [OF g] by (fastforce simp: view_groups [OF v] ring_seg_def in_set_conv_nth)
  then show ?thesis
    using n sum by (simp add: set_at_def view_groups [OF v] take_ring_seg)
qed

lemma room_view:
  assumes "ring_inv r" and "g_pre (groups r) = []" and "n \<le> length (g_free (groups r))"
  obtains i q h f where "ring_view r i q h 0 (n + f)"
proof -
  obtain i q h p f where v: "ring_view r i q h p f"
    using assms(1) by (rule ring_inv_view)
  then show ?thesis
    using that [of i q h "f - n"] assms view_lengths [OF v] by simp
qed

lemma alloc_set:
  assumes inv: "ring_inv r" "g_pre (groups r) = []" and n: "0 < n" "n \<le> length (g_free (groups r))"
  obtains s r1 where "XAxiDma_BdRingAlloc r (int n) = (XST_SUCCESS, r1, Some (ring_at r (s mod ring_size r)))"
    and "set_at r s n" and "same_bds r r1" and "ring_geom r1" and "ring_static r1 = ring_static r"
proof -
  obtain i q h f where v: "ring_view r i q h 0 (n + f)"
    using inv n(2) by (rule room_view)
  from alloc_view [OF v n(1)] obtain r1 where
    alloc: "XAxiDma_BdRingAlloc r (int n) = (XST_SUCCESS, r1, Some (ring_at r ((i + q + h) mod ring_size r)))"
    and v1: "ring_view r1 i q h n f" "ring_at r1 = ring_at r" "ring_size r1 = ring_size r"
    by auto
  show ?thesis
    by (rule that [OF alloc set_at_view [OF v] _ _ ring_static_submit(1) [OF alloc]])
      (use v1 in \<open>simp_all add: ring_view_def same_bds_def\<close>)
qed

text \<open>A set that was filled so that it passes the checks is moved to the end of the work group.\<close>

lemma hand_over:
  assumes inv: "ring_inv r" "g_pre (groups r) = []" and n: "0 < n" "n \<le> length (g_free (groups r))"
    and alloc: "XAxiDma_BdRingAlloc r (int n) = (XST_SUCCESS, r1, Some b)" and at: "set_at r s n"
    and ok: "tohw_ok r (ram w) (ring_seg r s n)"
  obtains r' w' where "XAxiDma_BdRingToHw B r1 (int n) b 0 w = (XST_SUCCESS, r', w')"
    and "ring_inv r'" and "same_bds r r'" and "ring_static r' = ring_static r"
    and "groups r' = (groups r)\<lparr>g_hw := g_hw (groups r) @ ring_seg r s n, g_free := drop n (g_free (groups r))\<rparr>"
    and "ram w' = tohw_mem (ram w) (ring_seg r s n)"
proof -
  obtain i q h f where v: "ring_view r i q h 0 (n + f)"
    using inv n(2) by (rule room_view)
  define s' where "s' = i + q + h"
  have seg_s: "ring_seg r s n = ring_seg r s' n"
    using at set_at_view [OF v, of n] by (simp add: set_at_def s'_def)
  from alloc_view [OF v n(1)] alloc have v1: "ring_view r1 i q h (n + 0) f"
    and same: "ring_at r1 = ring_at r" "ring_size r1 = ring_size r" and b: "b = ring_at r (s' mod ring_size r)"
    by (auto simp: s'_def)
  have seg: "ring_seg r' = ring_seg r" if "ring_at r' = ring_at r" "ring_size r' = ring_size r" for r'
    using that by (simp add: fun_eq_iff ring_seg_def)
  have static: "ring_static r1 = ring_static r"
    by (rule ring_static_submit(1) [OF alloc])
  have pre1: "PreHead r1 = b"
    using v1 same by (simp add: ring_view_def b s'_def)
  have "tohw_ok r1 (ram w) (ring_seg r1 (i + q + h) n)"
    using ok static seg [OF same] seg_s by (simp add: tohw_ok_def bd_len_ok_def [abs_def] ring_static_def s'_def)
  from tohw_success [OF v1 n(1) this, of B 0] obtain r' w' where
    hw: "XAxiDma_BdRingToHw B r1 (int n) b 0 w = (XST_SUCCESS, r', w')"
    and v': "ring_view r' i q (h + n) 0 f" and m': "ram w' = tohw_mem (ram w) (ring_seg r1 (i + q + h) n)"
    and same': "ring_at r' = ring_at r" "ring_size r' = ring_size r"
    using same pre1 by metis
  have gr: "groups r' = (groups r)\<lparr>g_hw := g_hw (groups r) @ ring_seg r s n, g_free := drop n (g_free (groups r))\<rparr>"
    unfolding view_groups [OF v] view_groups [OF v'] seg [OF same'] seg_s
    by (simp add: ring_seg_append [symmetric] drop_ring_seg add.assoc s'_def)
  show ?thesis
    by (rule that [OF hw view_inv [OF v'] _ _ gr])
      (use same' static ring_static_submit(2) [OF hw] m' seg [OF same] seg_s in \<open>simp_all add: same_bds_def s'_def\<close>)
qed

text \<open>The identifiers with the hardware after a set was handed over, from those before and those of the set.\<close>

lemma hw_ids_hand_over:
  assumes g: "ring_geom r"
    and hw: "set_at r s n"
    and gr: "g_hw (groups r') = g_hw (groups r) @ ring_seg r s n"
    and keep: "\<And>j. j < ring_size r \<Longrightarrow> \<forall>u<n. j \<noteq> (s + u) mod ring_size r \<Longrightarrow>
      bd_words m1 (ring_at r j) 0x34 = bd_words m (ring_at r j) 0x34"
    and ids: "length xs = n" "\<And>u. u < n \<Longrightarrow> bd_words m1 (ring_at r ((s + u) mod ring_size r)) 0x34 = xs ! u"
  shows "hw_ids (tohw_mem m1 (ring_seg r s n)) r' = hw_ids m r @ xs"
proof -
  have off: "bd_off 0x34" by (simp add: bd_off_def)
  let ?m = "tohw_mem m1 (ring_seg r s n)"
  have w: "bd_words ?m (ring_at r j) 0x34 = bd_words m1 (ring_at r j) 0x34" if "j < ring_size r" for j
    using tohw_mem_words(1) [OF g that set_ring_seg [OF g] off] by simp
  have "XAxiDma_BdGetId ?m b = XAxiDma_BdGetId m b" if b: "b \<in> set (g_hw (groups r))" for b
  proof -
    obtain j where j: "j < ring_size r" "b = ring_at r j" "\<forall>u<n. j \<noteq> (s + u) mod ring_size r"
      using hw b unfolding set_at_def by blast
    show ?thesis
      using w [OF j(1)] keep [OF j(1,3)] j(2) by (simp add: XAxiDma_BdGetId_def bd_words_def)
  qed
  then have "map (XAxiDma_BdGetId ?m) (g_hw (groups r)) = hw_ids m r"
    by (simp add: hw_ids_def)
  moreover have "map (XAxiDma_BdGetId ?m) (ring_seg r s n) = xs"
    using ids w bdptr.idx_less [OF g]
    by (intro nth_equalityI) (simp_all add: XAxiDma_BdGetId_def bd_words_def ring_seg_def)
  ultimately show ?thesis
    by (simp add: hw_ids_def [of _ r'] gr)
qed

text \<open>A completed set at the head of the work group is taken back and freed.\<close>

lemma take_back:
  assumes inv: "ring_inv r" and post: "g_post (groups r) = []"
    and op: "XAxiDma_BdRingFromHw r N m = (n, r1, b)" and n: "0 < n"
  obtains a r2 where "b = ring_at r (a mod ring_size r)" and "nat n \<le> length (g_hw (groups r))"
    and "g_hw (groups r) = ring_seg r a (length (g_hw (groups r)))" and "same_bds r r1" and "ring_geom r1"
    and "ring_static r1 = ring_static r"
    and "XAxiDma_BdRingFree r1 n b = (XST_SUCCESS, r2)" and "ring_inv r2" and "same_bds r r2"
    and "ring_static r2 = ring_static r"
    and "groups r2 = (groups r)\<lparr>g_hw := drop (nat n) (g_hw (groups r)),
        g_free := g_free (groups r) @ take (nat n) (g_hw (groups r))\<rparr>"
proof -
  obtain i q h p f where v: "ring_view r i q h p f"
    using inv by (rule ring_inv_view)
  have q: "q = 0" and i: "i < ring_size r"
    using post view_lengths [OF v] v by (auto simp: ring_view_def)
  have hw: "g_hw (groups r) = ring_seg r i h"
    by (simp add: view_groups [OF v] q)
  note c = fromhw_cases [OF inv op]
  have nh: "nat n \<le> h" and same1: "same_bds r r1" and inv1: "ring_inv r1"
    and gr1: "groups r1 = spec_fromhw (nat n) (groups r)"
    using c hw by auto
  have b: "b = ring_at r (i mod ring_size r)"
    using c n nh hw ring_seg_Suc [of r i "h - 1"] by (cases h) auto
  have post1: "g_post (groups r1) = take (nat n) (g_hw (groups r))"
    by (simp add: gr1 spec_fromhw_def post)
  obtain i1 q1 h1 p1 f1 where v1: "ring_view r1 i1 q1 h1 p1 f1"
    using inv1 by (rule ring_inv_view)
  have len: "length (g_post (groups r1)) = nat n"
    using post1 hw nh by simp
  then have "PostHead r1 = hd (g_post (groups r1))"
    using view_heads(1) [OF v1] view_lengths [OF v1] n by simp
  also have "\<dots> = b"
    using c n post1 nh hw by (simp add: hd_take)
  finally have head: "PostHead r1 = b" .
  obtain st r2 where fr: "XAxiDma_BdRingFree r1 n b = (st, r2)"
    by (metis surj_pair)
  have r2: "st = XST_SUCCESS" "ring_inv r2" "same_bds r1 r2" "groups r2 = spec_free (nat n) (groups r1)"
    using free_cases [OF inv1 fr] n len head by auto
  have g1: "ring_geom r1"
    using v1 by (simp add: ring_view_def)
  show ?thesis
  proof (rule that [OF b _ _ same1 g1 ring_static_ops(1) [OF op] fr [unfolded r2(1)] r2(2)])
    show "groups r2 = (groups r)\<lparr>g_hw := drop (nat n) (g_hw (groups r)), g_free := g_free (groups r) @ take (nat n) (g_hw (groups r))\<rparr>"
      using r2(4) gr1 post by (simp add: spec_free_def spec_fromhw_def)
  qed (use nh hw same1 r2(3) ring_static_ops(1) [OF op] ring_static_ops(2) [OF fr] in \<open>simp_all add: same_bds_def\<close>)
qed

text \<open>The identifiers of a set that is taken back are cleared one by one.\<close>

interpretation unset: bd_filler "\<lambda>_ b m. XAxiDma_BdSetId m b NULL" "\<lambda>_ old off. if off = 0x34 then NULL else old off"
  by (rule filler_id)

definition unset_ids :: "XAxiDma_BdRing \<Rightarrow> nat \<Rightarrow> nat \<Rightarrow> memory \<Rightarrow> memory" where
  "unset_ids r a k m = fill_seq (\<lambda>_ b m. XAxiDma_BdSetId m b NULL) r a (replicate k ()) m"

lemma unset_ids_simps:
  "unset_ids r a 0 m = m"
  "unset_ids r a (Suc k) m = unset_ids r (Suc a) k (XAxiDma_BdSetId m (ring_at r (a mod ring_size r)) NULL)"
  by (simp_all add: unset_ids_def)

lemma unset_ids_local: "ring_geom r \<Longrightarrow> ring_local r m (unset_ids r a k m)"
  unfolding unset_ids_def by (rule unset.seq_local)

lemma unset_ids_other:
  assumes g: "ring_geom r" and j: "j < ring_size r" "ring_at r j \<notin> set (ring_seg r a k)" and off: "bd_off off"
  shows "bd_words (unset_ids r a k m) (ring_at r j) off = bd_words m (ring_at r j) off"
proof -
  have "\<forall>u<length (replicate k ()). j \<noteq> (a + u) mod ring_size r"
    using j(2) by (auto simp: ring_seg_def cyc_def)
  then show ?thesis
    unfolding unset_ids_def by (rule unset.seq_other [OF g j(1) off])
qed

lemma unset_ids_only:
  assumes g: "ring_geom r"
  shows "ids_only r m (unset_ids r a k m)"
proof -
  have "bd_words (unset_ids r a k m) (ring_at r j) off = bd_words m (ring_at r j) off"
    if "j < ring_size r" "bd_off off" "off \<noteq> 0x34" for j off
  proof (induction k arbitrary: a m)
    case (Suc k)
    then show ?case
      using unset.fill_words [OF g bdptr.idx_less [OF g] that(1,2)] that(3) by (simp add: unset_ids_simps)
  qed (simp add: unset_ids_simps)
  then show ?thesis
    by (simp add: ids_only_def)
qed

lemma ids_after_unset:
  assumes g: "ring_geom r" and k: "Suc k \<le> ring_size r"
  shows "map (XAxiDma_BdGetId (XAxiDma_BdSetId m (ring_at r (a mod ring_size r)) NULL)) (ring_seg r (Suc a) k)
    = map (XAxiDma_BdGetId m) (ring_seg r (Suc a) k)"
proof (rule nth_equalityI)
  fix u
  let ?m = "XAxiDma_BdSetId m (ring_at r (a mod ring_size r)) NULL"
  assume "u < length (map (XAxiDma_BdGetId ?m) (ring_seg r (Suc a) k))"
  then have u: "u < k" by simp
  have "a mod ring_size r \<noteq> (Suc a + u) mod ring_size r"
    using mod_add_inj [of a 0 "ring_size r" "Suc u"] u k by auto
  then have "bd_words ?m (ring_at r ((Suc a + u) mod ring_size r)) 0x34 = bd_words m (ring_at r ((Suc a + u) mod ring_size r)) 0x34"
    using bd_words_write [OF g bdptr.idx_less [OF g, of a] bdptr.idx_less [OF g, of "Suc a + u"], of "0x34" "0x34" m 0]
    by (simp add: XAxiDma_BdSetId_def bd_off_def)
  then show "map (XAxiDma_BdGetId ?m) (ring_seg r (Suc a) k) ! u = map (XAxiDma_BdGetId m) (ring_seg r (Suc a) k) ! u"
    using u by (simp add: XAxiDma_BdGetId_def bd_words_def ring_seg_def)
qed simp

text \<open>What taking sets back leaves of a ring and its memory: a tail of the descriptors that were with the hardware,
  and no change but of the identifiers.\<close>

definition taken_back :: "XAxiDma_BdRing \<Rightarrow> memory \<Rightarrow> XAxiDma_BdRing \<Rightarrow> memory \<Rightarrow> bool" where
  "taken_back r m r' m' \<longleftrightarrow> ring_inv r' \<and> same_bds r r' \<and> ring_static r' = ring_static r
     \<and> g_post (groups r') = [] \<and> g_pre (groups r') = g_pre (groups r)
     \<and> ring_local r m m' \<and> ids_only r m m' \<and> (\<exists>n. g_hw (groups r') = drop n (g_hw (groups r)))"

lemma taken_back_trans:
  assumes "taken_back r m r1 m1" and "taken_back r1 m1 r' m'"
  shows "taken_back r m r' m'"
proof -
  have "ring_local r1 = ring_local r" "same_bds r r1"
    using assms(1) same_bds_rings(3) by (auto simp: taken_back_def)
  moreover have "\<exists>n. g_hw (groups r') = drop n (g_hw (groups r))"
    using assms by (metis taken_back_def drop_drop)
  ultimately show ?thesis
    using assms by (auto simp: taken_back_def ids_only_def same_bds_def intro: ring_local_trans)
qed

lemma taken_back_idle: "ring_idle r \<Longrightarrow> taken_back r m r' m' \<Longrightarrow> ring_idle r'"
  by (auto simp: taken_back_def ring_idle_def ring_static_def same_bds_def)

text \<open>The hardware has completed no packet among the first \<open>N\<close> descriptors it holds.\<close>

definition nothing_done :: "nat \<Rightarrow> XAxiDma_BdRing \<Rightarrow> memory \<Rightarrow> bool" where
  "nothing_done N r m \<longleftrightarrow> whole_packets (bd_done m) (bd_eof r m) (take N (g_hw (groups r))) = 0"

lemma eof_static: "ring_static r' = ring_static r \<Longrightarrow> bd_eof r' = bd_eof r"
  by (auto simp: ring_static_def bd_eof_def BdRing_is_eof_def fun_eq_iff)

lemma nothing_taken:
  assumes inv: "ring_inv r" and post: "g_post (groups r) = []"
    and op: "XAxiDma_BdRingFromHw r N m = (n, r1, b)" and n: "\<not> 0 < n"
  shows "n = 0" and "groups r1 = groups r" and "taken_back r m r1 m" and "nothing_done (nat N) r1 m"
proof -
  note c = fromhw_cases [OF inv op]
  show n0: "n = 0" and gr: "groups r1 = groups r"
    using c n by (auto simp: spec_fromhw_def)
  show "taken_back r m r1 m" "nothing_done (nat N) r1 m"
    using c n0 gr post ring_static_ops(1) [OF op] eof_static [OF ring_static_ops(1) [OF op]]
    by (simp_all add: taken_back_def nothing_done_def ids_only_def exI [of _ 0])
qed

text \<open>A completed set that is taken back, freed and cleared: its identifiers leave the ring in order.\<close>

lemma take_back_ids:
  assumes inv: "ring_inv r" and post: "g_post (groups r) = []"
    and op: "XAxiDma_BdRingFromHw r N m = (n, r1, b)" and n: "0 < n"
  obtains a r2 where "ring_geom r1" and "b = ring_at r1 (a mod ring_size r1)" and "nat n \<le> ring_size r1"
    and "XAxiDma_BdRingFree r1 n b = (XST_SUCCESS, r2)" and "taken_back r m r2 (unset_ids r1 a (nat n) m)"
    and "FreeCnt r2 = FreeCnt r + n"
    and "hw_ids m r = map (XAxiDma_BdGetId m) (ring_seg r1 a (nat n)) @ hw_ids (unset_ids r1 a (nat n) m) r2"
proof -
  let ?hw = "g_hw (groups r)"
  obtain a r2 where b: "b = ring_at r (a mod ring_size r)" and nh: "nat n \<le> length ?hw"
    and hw: "?hw = ring_seg r a (length ?hw)" and r1: "same_bds r r1" "ring_geom r1"
    and fr: "XAxiDma_BdRingFree r1 n b = (XST_SUCCESS, r2)" and r2: "ring_inv r2" "same_bds r r2" "ring_static r2 = ring_static r"
      "groups r2 = (groups r)\<lparr>g_hw := drop (nat n) ?hw, g_free := g_free (groups r) @ take (nat n) ?hw\<rparr>"
    using take_back [OF assms] by metis
  have at: "ring_at r1 = ring_at r" "ring_size r1 = ring_size r"
    using r1(1) by (simp_all add: same_bds_def)
  have taken: "ring_seg r1 a (nat n) = take (nat n) ?hw"
    using hw nh take_ring_seg by (metis at ring_seg_def)
  let ?m = "unset_ids r1 a (nat n) m"
  have "map (XAxiDma_BdGetId ?m) (drop (nat n) ?hw) = map (XAxiDma_BdGetId m) (drop (nat n) ?hw)"
    using unset_ids_other [OF r1(2), of _ a "nat n" "0x34" m] at taken
    by (intro hw_ids_rest [OF inv]) (simp add: bd_off_def)
  then have "hw_ids ?m r2 = map (XAxiDma_BdGetId m) (drop (nat n) ?hw)"
    unfolding hw_ids_def by (simp add: r2(4))
  moreover have "hw_ids m r = map (XAxiDma_BdGetId m) (take (nat n) ?hw) @ map (XAxiDma_BdGetId m) (drop (nat n) ?hw)"
    unfolding hw_ids_def by (metis append_take_drop_id map_append)
  ultimately have "hw_ids m r = map (XAxiDma_BdGetId m) (ring_seg r1 a (nat n)) @ hw_ids ?m r2"
    by (simp only: taken)
  moreover have "taken_back r m r2 ?m"
    using unset_ids_local [OF r1(2)] same_bds_rings(3) [OF r1(1)] unset_ids_only [OF r1(2)] r2 post
    by (auto simp: taken_back_def ids_only_def at)
  ultimately show ?thesis
    using that [OF r1(2) b [folded at] _ fr] r2(4) nh n hw_length [OF inv]
      free_cnt [OF inv] free_cnt [OF r2(1)] by (simp add: at)
qed

section \<open>Starting and resetting\<close>

lemma start_ring:
  assumes "XAxiDma_BdRingStart B r i w = Some (st, r', w')"
  shows "\<exists>c. r' = r\<lparr>RunState := c\<rparr>"
  using assms unfolding XAxiDma_BdRingStart_def XAxiDma_StartBdRingHw_def
  by (cases r) (auto simp: Let_def split: prod.splits if_splits option.splits)

lemma same_bds_RunState: "same_bds r (r\<lparr>RunState := c\<rparr>)"
  by (simp add: same_bds_def ring_at_def ring_size_def fun_eq_iff)

text \<open>Two rings that differ at most in the running state and the restart address.\<close>

definition same_queue :: "XAxiDma_BdRing \<Rightarrow> XAxiDma_BdRing \<Rightarrow> bool" where
  "same_queue r r' \<longleftrightarrow> r'\<lparr>RunState := 0, BdaRestart := 0\<rparr> = r\<lparr>RunState := 0, BdaRestart := 0\<rparr>"

lemma same_queue_refl [simp]: "same_queue r r"
  by (simp add: same_queue_def)

lemma same_queue_trans: "same_queue r r' \<Longrightarrow> same_queue r' r'' \<Longrightarrow> same_queue r r''"
  by (simp add: same_queue_def)

lemma same_queue_ring:
  assumes "same_queue r r'"
  shows "groups r' = groups r" and "same_bds r r'" and "ring_static r' = ring_static r" and "ring_inv r' = ring_inv r"
    and "ring_idle r' = ring_idle r" and "FreeCnt r' = FreeCnt r"
proof -
  note e = assms [unfolded same_queue_def]
  show gr: "groups r' = groups r"
    using arg_cong [OF e, of groups] by simp
  show same: "same_bds r r'"
    using arg_cong [OF e, of ring_at] arg_cong [OF e, of ring_size] by (simp add: same_bds_def)
  show static: "ring_static r' = ring_static r"
    using arg_cong [OF e, of ring_static] by (simp add: ring_static_def)
  show inv: "ring_inv r' = ring_inv r"
    using arg_cong [OF e, of ring_inv] by simp
  show "ring_idle r' = ring_idle r"
    using gr same static inv by (simp add: ring_idle_def ring_static_def same_bds_def)
  show "FreeCnt r' = FreeCnt r"
    using arg_cong [OF e, of FreeCnt] by simp
qed

lemma start_queue: "XAxiDma_BdRingStart B r i w = Some (st, r', w') \<Longrightarrow> same_queue r r'"
  by (auto dest!: start_ring simp: same_queue_def)

section \<open>Completed rings\<close>

text \<open>The hardware has completed all that was handed over in a ring.\<close>

definition ring_finished :: "memory \<Rightarrow> XAxiDma_BdRing \<Rightarrow> bool" where
  "ring_finished m r \<longleftrightarrow> list_all (bd_done m) (g_hw (groups r))
     \<and> (g_hw (groups r) \<noteq> [] \<longrightarrow> bd_eof r m (last (g_hw (groups r))))"

lemma whole_packets_all:
  assumes "list_all fin bds" and "bds \<noteq> [] \<longrightarrow> eof (last bds)"
  shows "whole_packets fin eof bds = length bds"
  using assms by (cases bds rule: rev_cases) (simp_all add: whole_packets_def list_all_iff)

lemma ring_finished_cong:
  assumes r: "ring_inv r" and same: "\<forall>j<ring_size r. \<forall>off. bd_off off \<longrightarrow> off \<noteq> 0x34 \<longrightarrow>
      bd_words m' (ring_at r j) off = bd_words m (ring_at r j) off"
  shows "x \<in> set (g_hw (groups r)) \<Longrightarrow> bd_done m' x = bd_done m x \<and> bd_eof r m' x = bd_eof r m x"
    and "ring_finished m' r = ring_finished m r"
proof -
  show *: "x \<in> set (g_hw (groups r)) \<Longrightarrow> bd_done m' x = bd_done m x \<and> bd_eof r m' x = bd_eof r m x" for x
    using inv_partition [OF r] same
    by (auto simp: all_bds_def bd_done_def bd_eof_def XAxiDma_BdHwCompleted_def bd_words_def bd_off_def)
  show "ring_finished m' r = ring_finished m r"
    using * last_in_set by (auto simp: ring_finished_def list_all_iff)
qed

text \<open>Memory in which every descriptor of a ring is completed and ends a packet.\<close>

definition finish_bd :: "ptr \<Rightarrow> memory \<Rightarrow> memory" where
  "finish_bd b m = XAxiDma_BdWrite (XAxiDma_BdWrite m b XAXIDMA_BD_STS_OFFSET (- 1)) b XAXIDMA_BD_CTRL_LEN_OFFSET (- 1)"

definition finish_ring :: "XAxiDma_BdRing \<Rightarrow> nat \<Rightarrow> memory \<Rightarrow> memory" where
  "finish_ring r n m = fold (\<lambda>j. finish_bd (ring_at r j)) [0..<n] m"

lemma finish_ring_words:
  assumes g: "ring_geom r"
  shows "n \<le> ring_size r \<Longrightarrow> j < ring_size r \<Longrightarrow> bd_off off \<Longrightarrow>
    bd_words (finish_ring r n m) (ring_at r j) off
      = (if j < n \<and> (off = 0x18 \<or> off = 0x1C) then - 1 else bd_words m (ring_at r j) off)"
proof (induction n)
  case (Suc n)
  have o: "bd_off 0x18" "bd_off 0x1C"
    by (simp_all add: bd_off_def)
  let ?m = "finish_ring r n m"
  have "finish_ring r (Suc n) m = finish_bd (ring_at r n) ?m"
    by (simp add: finish_ring_def)
  moreover have "bd_words (finish_bd (ring_at r n) ?m) (ring_at r j) off
      = (if n = j \<and> 0x18 = off then - 1 else if n = j \<and> 0x1C = off then - 1 else bd_words ?m (ring_at r j) off)"
    unfolding finish_bd_def bd_words_write [OF g Suc_le_lessD [OF Suc.prems(1)] Suc.prems(2) o(1) Suc.prems(3)]
      bd_words_write [OF g Suc_le_lessD [OF Suc.prems(1)] Suc.prems(2) o(2) Suc.prems(3)] ..
  ultimately show ?case
    using Suc by (simp add: less_Suc_eq) blast
qed (simp add: finish_ring_def)

lemma finish_ring_local:
  assumes g: "ring_geom r"
  shows "n \<le> ring_size r \<Longrightarrow> ring_local r m (finish_ring r n m)"
proof (induction n)
  case (Suc n)
  have "ring_local r (finish_ring r n m) (finish_bd (ring_at r n) (finish_ring r n m))"
    using Suc.prems unfolding finish_bd_def
    by (intro ring_local_trans [OF ring_local_write ring_local_write]) (simp_all add: bd_off_def)
  then show ?case
    using Suc by (simp add: finish_ring_def) (blast intro: ring_local_trans)
qed (simp add: finish_ring_def)

lemma finish_ring_finished:
  assumes "ring_inv r"
  shows "ring_finished (finish_ring r (ring_size r) m) r"
    and "\<forall>j<ring_size r. XAxiDma_BdGetId (finish_ring r (ring_size r) m) (ring_at r j) = XAxiDma_BdGetId m (ring_at r j)"
proof -
  let ?m = "finish_ring r (ring_size r) m"
  have g: "ring_geom r"
    using assms by (simp add: ring_inv_def ring_view_def)
  note words = finish_ring_words [OF g order_refl]
  have "bd_done ?m b \<and> bd_eof r ?m b" if "b \<in> set (g_hw (groups r))" for b
  proof -
    obtain j where "b = ring_at r j" "j < ring_size r"
      using inv_partition [OF assms] \<open>b \<in> _\<close> by (auto simp: all_bds_def)
    then have "bd_words ?m b 0x18 = - 1" "bd_words ?m b 0x1C = - 1"
      using words by (simp_all add: bd_off_def)
    then show ?thesis
      by (simp add: bd_done_def bd_eof_def XAxiDma_BdHwCompleted_def BdRing_is_eof_def bd_words_def)
  qed
  then show "ring_finished ?m r"
    by (simp add: ring_finished_def list_all_iff)
  show "\<forall>j<ring_size r. XAxiDma_BdGetId ?m (ring_at r j) = XAxiDma_BdGetId m (ring_at r j)"
    using words by (simp add: XAxiDma_BdGetId_def bd_words_def bd_off_def)
qed

lemma finished_empty:
  assumes r: "ring_inv r" "ring_size r \<le> N" and d: "taken_back r m r' m'" "nothing_done N r' m'" and fin: "ring_finished m r"
  shows "g_hw (groups r') = []"
proof (rule ccontr)
  assume ne: "g_hw (groups r') \<noteq> []"
  obtain n where n: "g_hw (groups r') = drop n (g_hw (groups r))"
    using d by (auto simp: taken_back_def)
  have st: "ring_static r' = ring_static r" and "ids_only r m m'"
    using d by (simp_all add: taken_back_def)
  note cong = ring_finished_cong(1) [OF r(1) this(2) [unfolded ids_only_def]] and eof = eof_static [OF st]
  have last: "last (g_hw (groups r')) = last (g_hw (groups r))" "last (g_hw (groups r')) \<in> set (g_hw (groups r))"
    using ne n by (auto simp: last_drop intro!: last_in_set)
  have "list_all (bd_done m') (g_hw (groups r'))" "bd_eof r' m' (last (g_hw (groups r')))"
    using fin cong ne n last by (auto simp: ring_finished_def list_all_iff eof dest: in_set_dropD)
  then have "whole_packets (bd_done m') (bd_eof r' m') (g_hw (groups r')) = length (g_hw (groups r'))"
    by (simp add: whole_packets_all)
  moreover have "length (g_hw (groups r')) \<le> N"
    using hw_length [OF r(1)] r(2) n by simp
  ultimately show False
    using d(2) ne by (simp add: nothing_done_def)
qed

end
