(* ===== verification/Aes_Submit.thy ===== *)
theory Aes_Submit
  imports Aesdma Ring_Client
begin

unbundle bit_operations_syntax

text \<open>
  The effect of filling a set of descriptors from a scatter list and handing it to the hardware:
  \<^verbatim>\<open>_aes_desc_to_hw\<close> describes the buffer exactly, piece by piece.
\<close>

section \<open>Filling one descriptor\<close>

text \<open>The words of a descriptor after the four setters.\<close>

definition fill_word :: "u32 \<Rightarrow> ptr \<Rightarrow> u32 \<times> int \<Rightarrow> (u32 \<Rightarrow> u32) \<Rightarrow> u32 \<Rightarrow> u32" where
  "fill_word lmax sw p old off =
    (if off = 0x34 then sw
     else if off = 8 then (if addr_refused old (fst p) then old 8 else fst p)
     else if off = 0x18 then ctrl_word (len_word lmax (old 0x18) (word_of_int (snd p))) 0
     else old off)"

interpretation aes_fill: bd_filler "\<lambda>p b. desc_fill_bd R sw b (fst p) (snd p)" "fill_word (MaxTransferLen R) sw" for R sw
  by (rule filler_eq [OF filler_compose [OF filler_compose [OF filler_compose [OF
      filler_addr [of fst] filler_len [of "\<lambda>p. word_of_int (snd p)" "MaxTransferLen R"]]
      filler_ctrl [of "\<lambda>p. 0"]] filler_id [of "\<lambda>p. sw"]]])
    (auto simp: desc_fill_bd_def fill_word_def)

section \<open>Filling a set of descriptors\<close>

definition fill_from :: "XAxiDma_BdRing \<Rightarrow> ptr \<Rightarrow> nat \<Rightarrow> (u32 \<times> int) list \<Rightarrow> nat \<Rightarrow> memory \<Rightarrow> memory" where
  "fill_from r sw s ps k m = fill_seq (\<lambda>p b. desc_fill_bd r sw b (fst p) (snd p)) r (s + k) (drop k ps) m"

lemma fill_from_step: "k < length ps \<Longrightarrow> fill_from r sw s ps k m
    = fill_from r sw s ps (Suc k) (desc_fill_bd r sw (ring_at r ((s + k) mod ring_size r))
        (fst (ps ! k)) (snd (ps ! k)) m)"
  by (simp add: fill_from_def Cons_nth_drop_Suc [symmetric])

text \<open>The loop of \<^verbatim>\<open>_aes_desc_to_hw\<close> from the piece at position \<open>k\<close> on.\<close>

lemma desc_fill_walk:
  assumes g: "ring_geom r" and full: "full_buf sgs sz" and k: "k < length sgs"
  defines "ps \<equiv> pieces sgs sz" and "l \<equiv> length sgs - 1"
  shows "desc_fill r sw (walk_at sgs sz k) (ring_at r ((s + k) mod ring_size r)) (fst (ps ! k)) (snd (ps ! k)) m t
    = Some (fill_from r sw s ps k m, walk_at sgs sz l, ring_at r ((s + l) mod ring_size r), t + (length sgs - k))"
  using k
proof (induction "length sgs - k" arbitrary: k m t)
  case (Suc d)
  have len: "length ps = length sgs"
    using full by (simp add: ps_def full_buf_def)
  let ?m = "desc_fill_bd r sw (ring_at r ((s + k) mod ring_size r)) (fst (ps ! k)) (snd (ps ! k)) m"
  show ?case
  proof (cases "Suc k < length sgs")
    case True
    have nxt: "XAxiDma_mBdRingNext r (ring_at r ((s + k) mod ring_size r))
        = ring_at r ((s + Suc k) mod ring_size r)"
      using next_at [OF g bdptr.idx_less [OF g]] by (simp add: mod_Suc_eq)
    have "0 < snd (ps ! Suc k)"
      using pieces_positive [of sgs "ps ! Suc k" sz] full True len by (simp add: full_buf_def ps_def)
    then have "desc_fill r sw (walk_at sgs sz k) (ring_at r ((s + k) mod ring_size r)) (fst (ps ! k)) (snd (ps ! k)) m t
        = desc_fill r sw (walk_at sgs sz (Suc k)) (ring_at r ((s + Suc k) mod ring_size r))
            (fst (ps ! Suc k)) (snd (ps ! Suc k)) ?m (t + 1)"
      using dma_buf_next_walk [OF full True]
      by (subst desc_fill.simps) (simp add: ps_def nxt [unfolded ps_def])
    also have "\<dots> = Some (fill_from r sw s ps (Suc k) ?m, walk_at sgs sz l,
        ring_at r ((s + l) mod ring_size r), t + 1 + (length sgs - Suc k))"
      using Suc True by (intro Suc.hyps(1)) simp_all
    also have "t + 1 + (length sgs - Suc k) = t + (length sgs - k)"
      using True by simp
    finally show ?thesis
      using Suc.prems len by (simp add: fill_from_step)
  next
    case False
    with Suc.prems have e: "Suc k = length sgs" "k = l"
      by (simp_all add: l_def)
    then have "fill_from r sw s ps k m = ?m"
      using len by (simp add: fill_from_step) (simp add: fill_from_def)
    then show ?thesis
      using e dma_buf_next_end [OF e(1)] by (subst desc_fill.simps) simp
  qed
qed simp

section \<open>Handing the set to the hardware\<close>

text \<open>The memory when the set is handed over: all descriptors filled, the frame flags set.\<close>

definition submit_mem :: "XAxiDma_BdRing \<Rightarrow> ptr \<Rightarrow> nat \<Rightarrow> (u32 \<times> int) list \<Rightarrow> memory \<Rightarrow> memory" where
  "submit_mem r sw s ps m =
    (let fst_bd = ring_at r (s mod ring_size r);
         lst_bd = ring_at r ((s + (length ps - 1)) mod ring_size r);
         m = fill_from r sw s ps 0 m;
         (sts, m) = (if fst_bd = lst_bd then (XAXIDMA_BD_CTRL_TXSOF_MASK OR XAXIDMA_BD_CTRL_TXEOF_MASK, m)
                     else (XAXIDMA_BD_CTRL_TXSOF_MASK, XAxiDma_BdSetCtrl m lst_bd XAXIDMA_BD_CTRL_TXEOF_MASK))
     in XAxiDma_BdSetCtrl m fst_bd sts)"

lemma submit_mem_flags:
  assumes "0 < length ps"
  shows "frame_flags (ring_at r (s mod ring_size r)) (ring_at r ((s + (length ps - 1)) mod ring_size r))
    (fill_from r sw s ps 0 m) (submit_mem r sw s ps m)"
  by (simp add: submit_mem_def frame_flags_def split_beta Let_def)

lemma submit_mem_words:
  fixes s :: nat and m :: memory
  assumes g: "ring_geom r" and len: "0 < length ps" "length ps \<le> ring_size r" and u: "u < length ps"
    and max: "MaxTransferLen r = mask k" "k \<le> 26"
  defines "b \<equiv> ring_at r ((s + u) mod ring_size r)"
    and "old \<equiv> bd_words m (ring_at r ((s + u) mod ring_size r))"
  shows "bd_off off \<Longrightarrow> off \<noteq> 0x18 \<Longrightarrow> bd_words (submit_mem r sw s ps m) b off = fill_word (mask k) sw (ps ! u) old off"
    and "bd_words (submit_mem r sw s ps m) b 0x18 AND mask k
      = len_word (mask k) (old 0x18) (word_of_int (snd (ps ! u))) AND mask k"
proof -
  note idx = bdptr.idx_less [OF g]
  have fill: "bd_words (fill_from r sw s ps 0 m) b off = fill_word (mask k) sw (ps ! u) old off" if "bd_off off" for off
    using aes_fill.seq_words [OF g that len(2) u, of r sw s m] max(1) by (simp add: fill_from_def b_def old_def)
  note fl = frame_flags_words [OF g idx idx submit_mem_flags [OF len(1)]]
  show "bd_words (submit_mem r sw s ps m) b off = fill_word (mask k) sw (ps ! u) old off"
    if "bd_off off" "off \<noteq> 0x18" for off
    using fl(1) [OF idx [of "s + u"] that(1)] that(2) fill [OF that(1)] by (simp add: b_def)
  have "fill_word (mask k) sw (ps ! u) old 0x18 AND mask k
      = len_word (mask k) (old 0x18) (word_of_int (snd (ps ! u))) AND mask k"
    using ctrl_word_fields(1) [OF max(2)] by (simp add: fill_word_def)
  then show "bd_words (submit_mem r sw s ps m) b 0x18 AND mask k
      = len_word (mask k) (old 0x18) (word_of_int (snd (ps ! u))) AND mask k"
    using fl(2) [OF idx [of "s + u"] max(2)] fill [of "0x18"] by (simp add: b_def bd_off_def)
qed

text \<open>What one descriptor of the set says when it is with the hardware.\<close>

definition bd_describes :: "u32 \<Rightarrow> memory \<Rightarrow> ptr \<Rightarrow> ptr \<Rightarrow> u32 \<times> int \<Rightarrow> bool" where
  "bd_describes lmax m sw b p \<longleftrightarrow> XAxiDma_BdGetBufAddr m b = fst p
    \<and> XAxiDma_BdGetLength m b lmax = word_of_int (snd p) \<and> XAxiDma_BdGetId m b = sw \<and> \<not> bd_done m b"

lemma submit_mem_ok:
  assumes g: "ring_geom r" and len: "0 < length ps" "length ps \<le> ring_size r"
    and max: "MaxTransferLen r = mask k" "k \<le> 26"
    and lens: "\<forall>p\<in>set ps. 0 < snd p \<and> snd p \<le> uint (mask k :: u32)"
  shows "tohw_ok r (submit_mem r sw s ps m) (ring_seg r s (length ps))"
proof (rule tohw_okI [OF len(1) max(1)])
  fix u
  assume u: "u < length ps"
  then have "0 < snd (ps ! u)" "snd (ps ! u) \<le> uint (mask k :: u32)"
    using lens by auto
  then show "bd_words (submit_mem r sw s ps m) (ring_at r ((s + u) mod ring_size r)) 0x18 AND mask k \<noteq> 0"
    using submit_mem_words(2) [OF g len u max, where sw = sw and s = s and m = m] len_word_field [of "snd (ps ! u)" k]
    by simp
qed (use frame_flags_words(3,4) [OF g bdptr.idx_less [OF g] bdptr.idx_less [OF g] submit_mem_flags [OF len(1)]] in auto)

lemma submit_mem_describes:
  assumes g: "ring_geom r" and len: "0 < length ps" "length ps \<le> ring_size r" and u: "u < length ps"
    and max: "MaxTransferLen r = mask k" "k \<le> 26"
    and lens: "\<forall>p\<in>set ps. 0 < snd p \<and> snd p \<le> uint (mask k :: u32)"
    and addr: "\<not> addr_refused (bd_words m (ring_at r ((s + u) mod ring_size r))) (fst (ps ! u))"
  shows "bd_describes (mask k) (tohw_mem (submit_mem r sw s ps m) (ring_seg r s (length ps))) sw
    (ring_at r ((s + u) mod ring_size r)) (ps ! u)"
proof -
  let ?b = "ring_at r ((s + u) mod ring_size r)" and ?seg = "ring_seg r s (length ps)"
  let ?m = "submit_mem r sw s ps m"
  note idx = bdptr.idx_less [OF g]
  have "?b \<in> set ?seg"
    using u by (metis length_ring_seg nth_map nth_mem ring_seg_def length_cyc nth_cyc)
  note keep = tohw_mem_words [OF g idx [of "s + u"] set_ring_seg [OF g, of s "length ps"], where m = ?m]
  have offs: "bd_off 8" "bd_off 0x34" "bd_off 0x18"
    by (simp_all add: bd_off_def)
  have "0 < snd (ps ! u)" "snd (ps ! u) \<le> uint (mask k :: u32)"
    using lens u by auto
  then have "bd_words ?m ?b 0x18 AND mask k = word_of_int (snd (ps ! u))"
    using submit_mem_words(2) [OF g len u max, where sw = sw and s = s and m = m] len_word_field(1) by simp
  moreover have "bd_words ?m ?b 8 = fst (ps ! u)" "bd_words ?m ?b 0x34 = sw"
    using submit_mem_words(1) [OF g len u max, where sw = sw and s = s and m = m] offs addr by (simp_all add: fill_word_def)
  ultimately show ?thesis
    using keep offs \<open>?b \<in> set ?seg\<close>
    by (simp add: bd_describes_def XAxiDma_BdGetBufAddr_def XAxiDma_BdGetLength_def XAxiDma_BdGetId_def
        bd_words_def)
qed

lemma ring_submit:
  assumes inv: "ring_inv r" and pre: "g_pre (groups r) = []" and full: "full_buf sgs sz"
    and f: "length sgs \<le> length (g_free (groups r))" and max: "MaxTransferLen r = mask k" "k \<le> 26"
  defines "ps \<equiv> pieces sgs sz" and "L \<equiv> length sgs"
  assumes lens: "\<forall>p\<in>set ps. snd p \<le> uint (mask k :: u32)"
  obtains s r' w' where "aes_ring_to_hw B (DMA_TYPE_SG \<lparr>buf_sg = sgs, buf_cnt = int L, buf_sz = sz,
        cur_sg = c, cur_i = ci, cur_len = cl\<rparr>) r sw w
      = Some (XST_SUCCESS, r', walk_at sgs sz (L - 1), Some (ring_at r (s mod ring_size r)), L, w')"
    and "ring_inv r'" and "same_bds r r'" and "ring_static r' = ring_static r" and "set_at r s L"
    and "groups r' = (groups r)\<lparr>g_hw := g_hw (groups r) @ ring_seg r s L, g_free := drop L (g_free (groups r))\<rparr>"
    and "ram w' = tohw_mem (submit_mem r sw s ps (ram w)) (ring_seg r s L)"
proof -
  have L: "0 < L" "length ps = L" "L \<le> length (g_free (groups r))"
    using full f by (auto simp: L_def ps_def full_buf_def)
  have g: "ring_geom r"
    using inv by (simp add: ring_inv_def ring_view_def)
  obtain s r1 where alloc: "XAxiDma_BdRingAlloc r (int L) = (XST_SUCCESS, r1, Some (ring_at r (s mod ring_size r)))"
    and pos_s: "set_at r s L" and r1: "same_bds r r1" "ring_geom r1" "ring_static r1 = ring_static r"
    by (rule alloc_set [OF inv pre L(1,3)])
  have at: "ring_at r1 = ring_at r" "ring_size r1 = ring_size r"
    using r1(1) by (simp_all add: same_bds_def)
  have fill: "desc_fill_bd r1 = desc_fill_bd r"
    using r1(3) by (simp add: fun_eq_iff desc_fill_bd_def ring_static_def)
  have mem: "submit_mem r1 sw s ps m = submit_mem r sw s ps m" for m
    by (simp add: submit_mem_def fill_from_def fill at fill_seq_same [OF r1(1)])
  have pos: "\<forall>p\<in>set ps. 0 < snd p \<and> snd p \<le> uint (mask k :: u32)"
    using lens pieces_positive [of sgs _ sz] full by (auto simp: ps_def full_buf_def)
  let ?w = "w\<lparr>ram := submit_mem r sw s ps (ram w)\<rparr>"
  have "tohw_ok r (ram ?w) (ring_seg r s L)"
    using submit_mem_ok [OF g, of ps k sw s "ram w"] L pos_s pos max by (simp add: set_at_def)
  then obtain r' w' where
    op: "XAxiDma_BdRingToHw B r1 (int L) (ring_at r (s mod ring_size r)) 0 ?w = (XST_SUCCESS, r', w')"
    and r': "ring_inv r'" "same_bds r r'" "ring_static r' = ring_static r"
      "groups r' = (groups r)\<lparr>g_hw := g_hw (groups r) @ ring_seg r s L, g_free := drop L (g_free (groups r))\<rparr>"
      "ram w' = tohw_mem (ram ?w) (ring_seg r s L)"
    by (rule hand_over [OF inv pre L(1,3) alloc pos_s])
  have walk: "desc_fill r1 sw (walk_at sgs sz 0) (ring_at r (s mod ring_size r)) (fst (ps ! 0)) (snd (ps ! 0)) (ram w) 0
      = Some (fill_from r1 sw s ps 0 (ram w), walk_at sgs sz (L - 1), ring_at r ((s + (L - 1)) mod ring_size r), L)"
    using desc_fill_walk [OF r1(2) full, of 0 sw s "ram w" 0] L(1) by (simp add: at ps_def L_def)
  have "aes_ring_to_hw B (DMA_TYPE_SG \<lparr>buf_sg = sgs, buf_cnt = int L, buf_sz = sz,
      cur_sg = c, cur_i = ci, cur_len = cl\<rparr>) r sw w
    = Some (XST_SUCCESS, r', walk_at sgs sz (L - 1), Some (ring_at r (s mod ring_size r)), L, w')"
    using op [folded mem] dma_buf_first_walk [OF full, of c ci cl, folded ps_def L_def] walk
    by (cases "ring_at r (s mod ring_size r) = ring_at r ((s + (L - 1)) mod ring_size r)")
      (simp_all add: aes_ring_to_hw_def dma_buf_cnt_def alloc submit_mem_def at L(2) split_beta Let_def)
  from that [OF this r'(1-3) pos_s r'(4)] r'(5) show ?thesis
    by simp
qed

end
