(* ===== verification/Aes_Krefs.thy ===== *)
theory Aes_Krefs
  imports Aesdma "HOL-Library.Multiset"
begin

text \<open>
  The reference counts of the AES driver's requests. The descriptors that are with the hardware
  hold one reference each; \<open>M\<close> is the multiset of the requests they belong to, with the
  reference the submitting code holds while it works. A request is released, and its callback
  called, when the last reference is dropped.
\<close>

section \<open>The invariant\<close>

text \<open>The callbacks still to be called.\<close>

definition sw_call :: "'d aes_state \<Rightarrow> ptr \<Rightarrow> ptr \<times> ptr" where
  "sw_call s x = (sw_cb (as_sw s x), sw_priv (as_sw s x))"

definition pending_calls :: "'d aes_state \<Rightarrow> (ptr \<times> ptr) multiset" where
  "pending_calls s = image_mset (sw_call s) (mset (ad_hw_head (as_dma s)))"

text \<open>\<open>L\<close> are the callbacks of all requests so far.\<close>

definition krefs_ok :: "'d aes_state \<Rightarrow> ptr multiset \<Rightarrow> (ptr \<times> ptr) multiset \<Rightarrow> bool" where
  "krefs_ok s M L \<longleftrightarrow> set (ad_hw_head (as_dma s)) = set_mset M
    \<and> distinct (ad_hw_head (as_dma s) @ ad_desc_head (as_dma s)) \<and> NULL \<notin> set (ad_desc_head (as_dma s))
    \<and> NULL \<notin># M
    \<and> (\<forall>x\<in>#M. sw_kref (as_sw s x) = int (count M x) \<and> sw_cb (as_sw s x) \<noteq> NULL)
    \<and> L = mset (as_called s) + pending_calls s"

lemma upd_sw_simps [simp]:
  "as_dma (upd_sw x f s) = as_dma s" "as_called (upd_sw x f s) = as_called s"
  "as_world (upd_sw x f s) = as_world s" "as_tx_head (upd_sw x f s) = as_tx_head s"
  "as_rx_head (upd_sw x f s) = as_rx_head s"
  "as_sw (upd_sw x f s) y = (if y = x then f (as_sw s x) else as_sw s y)"
  by (simp_all add: upd_sw_def)

lemma upd_dma_simps [simp]:
  "as_dma (upd_dma g s) = g (as_dma s)" "as_called (upd_dma g s) = as_called s"
  "as_world (upd_dma g s) = as_world s" "as_sw (upd_dma g s) = as_sw s"
  "as_tx_head (upd_dma g s) = as_tx_head s" "as_rx_head (upd_dma g s) = as_rx_head s"
  by (simp_all add: upd_dma_def)

lemma timer_simps [simp]:
  "ad_hw_head (mod_timer e d) = ad_hw_head d" "ad_desc_head (mod_timer e d) = ad_desc_head d"
  "ad_AxiDma (mod_timer e d) = ad_AxiDma d" "ad_AxiDma (del_timer d) = ad_AxiDma d"
  "ad_hw_head (del_timer d) = ad_hw_head d" "ad_desc_head (del_timer d) = ad_desc_head d"
  by (simp_all add: mod_timer_def del_timer_def)

section \<open>Releasing a request\<close>

lemma free_desc_lists_simps:
  "ad_hw_head (as_dma (free_desc_lists x s)) = remove1 x (ad_hw_head (as_dma s))"
  "ad_desc_head (as_dma (free_desc_lists x s)) = ad_desc_head (as_dma s) @ [x]"
  "ad_AxiDma (as_dma (free_desc_lists x s)) = ad_AxiDma (as_dma s)"
  "as_sw (free_desc_lists x s) = as_sw s" "as_called (free_desc_lists x s) = as_called s"
  "as_world (free_desc_lists x s) = as_world s"
  "as_tx_head (free_desc_lists x s) = as_tx_head s" "as_rx_head (free_desc_lists x s) = as_rx_head s"
  by (simp_all add: free_desc_lists_def Let_def split: list.split)

lemma free_desc_simps:
  "ad_hw_head (as_dma (aes_free_desc x s)) = remove1 x (ad_hw_head (as_dma s))"
  "ad_desc_head (as_dma (aes_free_desc x s)) = ad_desc_head (as_dma s) @ [x]"
  "ad_AxiDma (as_dma (aes_free_desc x s)) = ad_AxiDma (as_dma s)"
  "as_world (aes_free_desc x s) = as_world s"
  "as_tx_head (aes_free_desc x s) = as_tx_head s" "as_rx_head (aes_free_desc x s) = as_rx_head s"
  "y \<noteq> x \<Longrightarrow> as_sw (aes_free_desc x s) y = as_sw s y"
  "as_called (aes_free_desc x s) = as_called s @
     (if sw_cb (as_sw s x) \<noteq> NULL then [sw_call s x] else [])"
  by (simp_all add: aes_free_desc_def aes_unmap_buf_def Let_def free_desc_lists_simps sw_call_def)

lemma kref_put_frame [simp]:
  "ad_AxiDma (as_dma (kref_put x s)) = ad_AxiDma (as_dma s)" "as_world (kref_put x s) = as_world s"
  "as_tx_head (kref_put x s) = as_tx_head s" "as_rx_head (kref_put x s) = as_rx_head s"
  by (simp_all add: kref_put_def Let_def free_desc_simps)

text \<open>Dropping one reference keeps the invariant for the remaining ones. The callback is called
  exactly when it was the last.\<close>

lemma kref_put_ok:
  assumes "krefs_ok s (add_mset x M) L"
  shows "krefs_ok (kref_put x s) M L"
proof -
  let ?s = "upd_sw x (\<lambda>d. d\<lparr>sw_kref := sw_kref d - 1\<rparr>) s"
  have kref: "sw_kref (as_sw ?s x) = int (count M x)"
    using assms by (simp add: krefs_ok_def)
  have call: "sw_call ?s = sw_call s"
    by (simp add: fun_eq_iff sw_call_def)
  show ?thesis
  proof (cases "x \<in># M")
    case True
    then have "kref_put x s = ?s"
      using kref by (simp add: kref_put_def Let_def count_eq_zero_iff)
    moreover have "pending_calls ?s = pending_calls s"
      by (simp add: pending_calls_def call)
    ultimately show ?thesis
      using assms True by (auto simp: krefs_ok_def insert_absorb)
  next
    case False
    then have put: "kref_put x s = aes_free_desc x ?s"
      using kref by (simp add: kref_put_def Let_def not_in_iff)
    have x: "x \<in> set (ad_hw_head (as_dma s))" "distinct (ad_hw_head (as_dma s))" "sw_cb (as_sw s x) \<noteq> NULL"
      using assms by (auto simp: krefs_ok_def)
    have other: "sw_call (kref_put x s) y = sw_call s y" if "y \<noteq> x" for y
      using that by (simp add: put sw_call_def free_desc_simps)
    have "mset (ad_hw_head (as_dma s)) = add_mset x (mset (remove1 x (ad_hw_head (as_dma s))))"
      using x(1) by simp
    moreover have "x \<notin> set (remove1 x (ad_hw_head (as_dma s)))"
      using x(2) by simp
    then have "image_mset (sw_call (kref_put x s)) (mset (remove1 x (ad_hw_head (as_dma s))))
        = image_mset (sw_call s) (mset (remove1 x (ad_hw_head (as_dma s))))"
      using other by (intro image_mset_cong) (metis set_mset_mset)
    ultimately have "pending_calls s = add_mset (sw_call s x) (pending_calls (kref_put x s))"
      unfolding pending_calls_def put free_desc_simps upd_sw_simps by (simp only: image_mset_add_mset)
    then have log: "L = mset (as_called (kref_put x s)) + pending_calls (kref_put x s)"
      using assms x(3) by (simp add: krefs_ok_def put free_desc_simps call)
    have sets: "set (remove1 x (ad_hw_head (as_dma s))) = set_mset M"
      using assms x(2) False by (auto simp: krefs_ok_def)
    have dist: "distinct (remove1 x (ad_hw_head (as_dma s)) @ ad_desc_head (as_dma s) @ [x])"
      using assms x by (auto simp: krefs_ok_def dest: notin_set_remove1)
    have "\<forall>y\<in>#M. sw_kref (as_sw (kref_put x s) y) = int (count M y) \<and> sw_cb (as_sw (kref_put x s) y) \<noteq> NULL"
    proof
      fix y
      assume "y \<in># M"
      then have "y \<noteq> x" using False by auto
      then show "sw_kref (as_sw (kref_put x s) y) = int (count M y) \<and> sw_cb (as_sw (kref_put x s) y) \<noteq> NULL"
        using assms \<open>y \<in># M\<close> by (simp add: krefs_ok_def put free_desc_simps)
    qed
    then show ?thesis
      using assms log sets dist by (simp add: krefs_ok_def put free_desc_simps)
  qed
qed

text \<open>Taking references for a request that already holds one.\<close>

lemma kref_get_ok:
  assumes "krefs_ok s (add_mset x M) L"
    and f: "\<And>d. sw_kref (f d) = sw_kref d + int k" "\<And>d. sw_cb (f d) = sw_cb d" "\<And>d. sw_priv (f d) = sw_priv d"
  shows "krefs_ok (upd_sw x f s) (add_mset x M + replicate_mset k x) L"
proof -
  have "sw_call (upd_sw x f s) = sw_call s"
    by (simp add: fun_eq_iff sw_call_def f)
  then have "pending_calls (upd_sw x f s) = pending_calls s"
    by (simp add: pending_calls_def)
  then show ?thesis
    using assms(1) by (auto simp: krefs_ok_def f)
qed

end
