(* ===== verification/Aes_Inv.thy ===== *)
theory Aes_Inv
  imports Aes_Submit Aes_Krefs
begin

text \<open>
  The invariant of the AES driver over its two rings, and that submitting a request and the two
  bottom halves keep it.
\<close>

section \<open>Memory outside a ring\<close>

lemma ring_local_submit:
  assumes "ring_geom r" and "0 < length ps"
  shows "ring_local r m (submit_mem r sw s ps m)"
  using ring_local_trans [OF aes_fill.seq_local [OF assms(1), of m r sw s ps, folded fill_from_def [of r sw s ps 0, simplified]]
    frame_flags_words(5) [OF assms(1) bdptr.idx_less [OF assms(1)] bdptr.idx_less [OF assms(1)] submit_mem_flags [OF assms(2)]]]
  by simp

section \<open>References held by descriptors\<close>

lemma krefs_ok_world [simp]: "krefs_ok (s\<lparr>as_world := w\<rparr>) M L = krefs_ok s M L"
  by (simp add: krefs_ok_def pending_calls_def sw_call_def [abs_def])

text \<open>The inner loop of a bottom half drops the references of the descriptors it visits.\<close>

lemma clean_loop_ok:
  assumes g: "ring_geom r"
  shows "k \<le> ring_size r \<Longrightarrow>
    krefs_ok s (mset (map (XAxiDma_BdGetId (ram (as_world s))) (ring_seg r a k)) + N) L \<Longrightarrow>
    (let s' = bh_clean_loop k r (ring_at r (a mod ring_size r)) s in krefs_ok s' N L
      \<and> ring_local r (ram (as_world s)) (ram (as_world s')) \<and> dev (as_world s') = dev (as_world s)
      \<and> ad_AxiDma (as_dma s') = ad_AxiDma (as_dma s) \<and> as_tx_head s' = as_tx_head s \<and> as_rx_head s' = as_rx_head s
      \<and> (\<forall>j<ring_size r. \<forall>off. bd_off off \<longrightarrow> off \<noteq> 0x34 \<or> ring_at r j \<notin> set (ring_seg r a k) \<longrightarrow>
           bd_words (ram (as_world s')) (ring_at r j) off = bd_words (ram (as_world s)) (ring_at r j) off))"
proof (induction k arbitrary: a s)
  case (Suc k)
  let ?b = "ring_at r (a mod ring_size r)"
  let ?s = "bh_set_id ?b (aes_clean_bh ?b s)" and ?m = "ram (as_world s)"
  note idx = bdptr.idx_less [OF g]
  have off: "bd_off 0x34" by (simp add: bd_off_def)
  have m: "ram (as_world ?s) = XAxiDma_BdWrite ?m ?b 0x34 0"
    by (simp add: bh_set_id_def aes_clean_bh_def XAxiDma_BdSetId_def)
  have words: "bd_words (ram (as_world ?s)) (ring_at r j) off' = (if a mod ring_size r = j \<and> off' = 0x34 then 0
      else bd_words ?m (ring_at r j) off')" if "j < ring_size r" "bd_off off'" for j off'
    using bd_words_write [OF g idx that(1) off that(2), of ?m a 0] unfolding m by auto
  have ids: "map (XAxiDma_BdGetId (ram (as_world ?s))) (ring_seg r (Suc a) k) = map (XAxiDma_BdGetId ?m) (ring_seg r (Suc a) k)"
    using ids_after_unset [OF g Suc.prems(1)] by (simp add: m XAxiDma_BdSetId_def)
  have "krefs_ok s (add_mset (XAxiDma_BdGetId ?m ?b) (mset (map (XAxiDma_BdGetId ?m) (ring_seg r (Suc a) k)) + N)) L"
    using Suc.prems(2) by (simp add: ring_seg_Suc)
  from kref_put_ok [OF this] have "krefs_ok ?s (mset (map (XAxiDma_BdGetId (ram (as_world ?s))) (ring_seg r (Suc a) k)) + N) L"
    unfolding ids by (simp add: bh_set_id_def aes_clean_bh_def)
  note ih = Suc.IH [OF _ this]
  have nxt: "XAxiDma_mBdRingNext r ?b = ring_at r (Suc a mod ring_size r)"
    using next_at [OF g idx] by (simp add: mod_Suc_eq)
  have "ring_local r ?m (ram (as_world ?s))"
    unfolding m by (rule ring_local_write [OF idx off])
  moreover have "dev (as_world ?s) = dev (as_world s)" "ad_AxiDma (as_dma ?s) = ad_AxiDma (as_dma s)"
    "as_tx_head ?s = as_tx_head s" "as_rx_head ?s = as_rx_head s"
    by (simp_all add: bh_set_id_def aes_clean_bh_def)
  ultimately show ?case
    using ih Suc.prems(1) words
    by (simp add: nxt Let_def ring_seg_Suc) (blast intro: ring_local_trans)
qed simp

section \<open>Draining a ring\<close>

text \<open>What a change of the state leaves alone besides the ring being worked on.\<close>

definition same_rest :: "'d aes_state \<Rightarrow> 'd aes_state \<Rightarrow> bool" where
  "same_rest s s' \<longleftrightarrow> dev (as_world s') = dev (as_world s) \<and> ad_AxiDma (as_dma s') = ad_AxiDma (as_dma s)
     \<and> as_tx_head s' = as_tx_head s \<and> as_rx_head s' = as_rx_head s"

text \<open>One round of the outer loop.\<close>

lemma drain_round:
  assumes inv: "ring_inv r" and post: "g_post (groups r) = []"
    and krefs: "krefs_ok s (flight (ram (as_world s)) r + N) L"
    and op: "XAxiDma_BdRingFromHw r n (ram (as_world s)) = (k, r1, b)" and k: "0 < k"
    and fr: "XAxiDma_BdRingFree r1 k b = (st, r2)"
  defines "s' \<equiv> bh_clean_loop (nat k) r1 b s"
  shows "taken_back r (ram (as_world s)) r2 (ram (as_world s'))
    \<and> krefs_ok s' (flight (ram (as_world s')) r2 + N) L \<and> same_rest s s'"
proof -
  let ?m = "ram (as_world s)" and ?hw = "g_hw (groups r)"
  obtain a where b: "b = ring_at r (a mod ring_size r)" and kh: "nat k \<le> length ?hw"
    and hw: "?hw = ring_seg r a (length ?hw)" and r1: "same_bds r r1" "ring_geom r1"
    and r2: "ring_inv r2" "same_bds r r2" "ring_static r2 = ring_static r"
      "groups r2 = (groups r)\<lparr>g_hw := drop (nat k) ?hw, g_free := g_free (groups r) @ take (nat k) ?hw\<rparr>"
    by (rule take_back [OF inv post op k]) (use fr in auto)
  have at: "ring_at r1 = ring_at r" "ring_size r1 = ring_size r"
    using r1(1) by (simp_all add: same_bds_def)
  then have seg: "ring_seg r1 = ring_seg r"
    by (simp add: fun_eq_iff ring_seg_def)
  have kn: "nat k \<le> ring_size r"
    using kh hw_length [OF inv] by simp
  have taken: "ring_seg r a (nat k) = take (nat k) ?hw"
    using hw kh take_ring_seg by metis
  have "krefs_ok s (mset (map (XAxiDma_BdGetId ?m) (ring_seg r1 a (nat k)))
      + (mset (map (XAxiDma_BdGetId ?m) (drop (nat k) ?hw)) + N)) L"
    using krefs unfolding seg taken flight_def hw_ids_def
    by (metis add.assoc append_take_drop_id map_append mset_append)
  note cl = clean_loop_ok [OF r1(2) _ this, folded b [folded at], folded s'_def, unfolded Let_def at seg taken]
  have clean: "krefs_ok s' (mset (map (XAxiDma_BdGetId ?m) (drop (nat k) ?hw)) + N) L"
    "ring_local r ?m (ram (as_world s'))" "same_rest s s'" "ids_only r ?m (ram (as_world s'))"
    "\<forall>j<ring_size r. ring_at r j \<notin> set (take (nat k) ?hw) \<longrightarrow>
       bd_words (ram (as_world s')) (ring_at r j) 0x34 = bd_words ?m (ring_at r j) 0x34"
    using cl kn ring_local_same(1) [OF at] by (auto simp: same_rest_def bd_off_def ids_only_def)
  have "map (XAxiDma_BdGetId (ram (as_world s'))) (drop (nat k) ?hw) = map (XAxiDma_BdGetId ?m) (drop (nat k) ?hw)"
    using hw_ids_rest [OF inv clean(5)] .
  moreover have "g_hw (groups r2) = drop (nat k) ?hw"
    by (simp add: r2(4))
  ultimately have "flight (ram (as_world s')) r2 = mset (map (XAxiDma_BdGetId ?m) (drop (nat k) ?hw))"
    by (simp only: flight_def hw_ids_def)
  then show ?thesis
    using r2 clean(1-4) post by (auto simp: taken_back_def)
qed

text \<open>What a bottom half leaves: nothing that is completed.\<close>

definition drained :: "XAxiDma_BdRing \<Rightarrow> 'd aes_state \<Rightarrow> XAxiDma_BdRing \<Rightarrow> 'd aes_state \<Rightarrow> bool" where
  "drained r s r' s' \<longleftrightarrow> taken_back r (ram (as_world s)) r' (ram (as_world s'))
    \<and> nothing_done 65536 r' (ram (as_world s')) \<and> same_rest s s'"

lemma bh_drain_ok:
  assumes "ring_inv r" and "g_post (groups r) = []" and "krefs_ok s (flight (ram (as_world s)) r + N) L"
    and "bh_drain r s = (r', s')"
  shows "drained r s r' s' \<and> krefs_ok s' (flight (ram (as_world s')) r' + N) L"
  using assms
proof (induction r s rule: bh_drain.induct)
  case (1 r s)
  obtain k r1 b where op: "XAxiDma_BdRingFromHw r 65536 (ram (as_world s)) = (k, r1, b)"
    by (metis prod_cases3)
  show ?case
  proof (cases "0 < k")
    case True
    obtain st r2 where fr: "XAxiDma_BdRingFree r1 k b = (st, r2)"
      by (metis surj_pair)
    let ?s = "bh_clean_loop (nat k) r1 b s"
    note round = drain_round [OF 1(2-4) op True fr]
    have step: "bh_drain r2 ?s = (r', s')"
      using 1(5) op True fr by (simp add: bh_drain.simps [of r s] Let_def)
    have "drained r2 ?s r' s' \<and> krefs_ok s' (flight (ram (as_world s')) r' + N) L"
      using 1(1) [OF op [symmetric] refl refl True refl fr [symmetric] refl _ _ _ step] round by (simp add: taken_back_def)
    then show ?thesis
      using round taken_back_trans by (auto simp: drained_def same_rest_def)
  next
    case False
    then have "r' = r1" "s' = s"
      using 1(5) op by (auto simp: bh_drain.simps [of r s])
    then show ?thesis
      using nothing_taken [OF 1(2,3) op False] 1(4) by (simp add: drained_def flight_def hw_ids_def same_rest_def)
  qed
qed

section \<open>Submitting on one ring\<close>

lemma submit_mem_other:
  assumes g: "ring_geom r" and len: "0 < length ps" "length ps \<le> ring_size r" and off: "bd_off off"
    and j: "j < ring_size r" "\<forall>u<length ps. j \<noteq> (s + u) mod ring_size r"
  shows "bd_words (submit_mem r sw s ps m) (ring_at r j) off = bd_words m (ring_at r j) off"
proof -
  note idx = bdptr.idx_less [OF g]
  have "j \<noteq> s mod ring_size r" "j \<noteq> (s + (length ps - 1)) mod ring_size r"
    using j(2) len(1) by (metis add.right_neutral, metis diff_less zero_less_one)
  then show ?thesis
    using frame_flags_words(1) [OF g idx idx submit_mem_flags [OF len(1)] j(1) off]
      aes_fill.seq_other [OF g j(1) off j(2), of r sw m] by (simp add: fill_from_def)
qed

text \<open>A buffer description that the driver can submit: built by \<^verbatim>\<open>dma_buf_sg_init\<close>, with pieces that fit
  the length field and the alignment the engine needs, and room for them in the ring.\<close>

definition buf_ready :: "nat \<Rightarrow> XAxiDma_BdRing \<Rightarrow> memory \<Rightarrow> dma_buf_t \<Rightarrow> bool" where
  "buf_ready k r m b \<longleftrightarrow> (case b of
     DMA_TYPE_ADDR a l \<Rightarrow> False
   | DMA_TYPE_SG d \<Rightarrow> full_buf (buf_sg d) (buf_sz d) \<and> buf_cnt d = int (length (buf_sg d))
       \<and> length (buf_sg d) \<le> length (g_free (groups r))
       \<and> list_all (\<lambda>p. snd p \<le> uint (mask k :: u32)) (pieces (buf_sg d) (buf_sz d))
       \<and> list_all2 (\<lambda>x p. \<not> addr_refused (bd_words m x) (fst p))
            (take (length (buf_sg d)) (g_free (groups r))) (pieces (buf_sg d) (buf_sz d)))"

lemma ring_static_to_hw:
  "aes_ring_to_hw B b r sw w = Some (res, r', b', bd, n, w') \<Longrightarrow> ring_static r' = ring_static r"
  by (auto simp: aes_ring_to_hw_def Let_def split: if_splits prod.splits option.splits
      dest!: ring_static_submit)

lemma ring_to_hw_ok:
  assumes inv: "ring_inv r" and pre: "g_pre (groups r) = []" and max: "MaxTransferLen r = mask k" "k \<le> 26"
    and ready: "buf_ready k r (ram w) b"
  defines "ps \<equiv> (case b of DMA_TYPE_SG d \<Rightarrow> pieces (buf_sg d) (buf_sz d) | _ \<Rightarrow> [])"
  defines "n \<equiv> length ps"
  obtains r' b' w' where "aes_ring_to_hw B b r sw w = Some (XST_SUCCESS, r', b', Some (hd (g_free (groups r))), n, w')"
    and "ring_inv r'" and "same_bds r r'" and "ring_static r' = ring_static r"
    and "groups r' = (groups r)\<lparr>g_hw := g_hw (groups r) @ take n (g_free (groups r)), g_free := drop n (g_free (groups r))\<rparr>"
    and "list_all2 (bd_describes (mask k) (ram w') sw) (take n (g_free (groups r))) ps"
    and "flight (ram w') r' = flight (ram w) r + replicate_mset n sw"
    and "ring_local r (ram w) (ram w')" and "0 < n"
proof -
  obtain d where d: "b = DMA_TYPE_SG d" "full_buf (buf_sg d) (buf_sz d)" "buf_cnt d = int (length (buf_sg d))"
    using ready by (auto simp: buf_ready_def split: dma_buf_t.splits)
  let ?sgs = "buf_sg d" and ?sz = "buf_sz d"
  have ps: "ps = pieces ?sgs ?sz" and n: "n = length ?sgs" "0 < n" "ps \<noteq> []"
    using d by (auto simp: ps_def n_def full_buf_def)
  have g: "ring_geom r"
    using inv by (simp add: ring_inv_def ring_view_def)
  have free: "length ?sgs \<le> length (g_free (groups r))" and lens: "\<forall>p\<in>set ps. snd p \<le> uint (mask k :: u32)"
    using ready d ps by (simp_all add: buf_ready_def list_all_iff)
  obtain s r' w' where hw': "aes_ring_to_hw B b r sw w
      = Some (XST_SUCCESS, r', walk_at ?sgs ?sz (n - 1), Some (ring_at r (s mod ring_size r)), n, w')"
    and r': "ring_inv r'" "same_bds r r'" "ring_static r' = ring_static r" and at: "set_at r s n"
    and gr: "groups r' = (groups r)\<lparr>g_hw := g_hw (groups r) @ ring_seg r s n, g_free := drop n (g_free (groups r))\<rparr>"
    and m': "ram w' = tohw_mem (submit_mem r sw s ps (ram w)) (ring_seg r s n)"
  proof -
    have b: "b = DMA_TYPE_SG \<lparr>buf_sg = ?sgs, buf_cnt = int (length ?sgs), buf_sz = ?sz,
        cur_sg = cur_sg d, cur_i = cur_i d, cur_len = cur_len d\<rparr>"
      using d(1,3) by (cases d) simp
    show thesis
      using that unfolding b n(1) ps
      by (rule ring_submit [OF inv pre d(2) free max lens [unfolded ps]])
  qed
  have taken: "take n (g_free (groups r)) = ring_seg r s n" and nr: "length ps \<le> ring_size r"
    using at by (simp_all add: set_at_def n_def)
  have pos: "\<forall>p\<in>set ps. 0 < snd p \<and> snd p \<le> uint (mask k :: u32)"
    using lens pieces_positive [of ?sgs _ ?sz] d(2) by (auto simp: ps full_buf_def)
  have refused: "\<not> addr_refused (bd_words (ram w) (ring_at r ((s + u) mod ring_size r))) (fst (ps ! u))" if "u < n" for u
  proof -
    have "list_all2 (\<lambda>x p. \<not> addr_refused (bd_words (ram w) x) (fst p)) (ring_seg r s n) ps"
      using ready d(1) taken n(1) ps by (simp add: buf_ready_def)
    from list_all2_nthD [OF this, of u] that show ?thesis
      by (simp add: ring_seg_def)
  qed
  have "bd_describes (mask k) (ram w') sw (ring_at r ((s + u) mod ring_size r)) (ps ! u)" if "u < n" for u
    using submit_mem_describes [OF g _ nr _ max pos refused [OF that], where sw = sw] n(3) that
    unfolding m' by (simp add: n_def)
  then have describes: "list_all2 (bd_describes (mask k) (ram w') sw) (take n (g_free (groups r))) ps"
    unfolding taken by (simp add: list_all2_conv_all_nth ring_seg_def n_def)
  have off: "bd_off 0x34" by (simp add: bd_off_def)
  have "hw_ids (ram w') r' = hw_ids (ram w) r @ replicate n sw"
    unfolding m'
    using submit_mem_other [OF g _ nr off] submit_mem_words(1) [OF g _ nr _ max off] n(3)
    by (intro hw_ids_hand_over [OF g at]) (simp_all add: gr n_def fill_word_def)
  then have "flight (ram w') r' = flight (ram w) r + replicate_mset n sw"
    by (simp add: flight_def)
  moreover have "ring_local r (ram w) (ram w')"
    unfolding m' by (rule ring_local_trans [OF ring_local_submit [OF g n(2) [unfolded n_def]] ring_local_tohw [OF g set_ring_seg [OF g]]])
  moreover have "hd (g_free (groups r)) = ring_at r (s mod ring_size r)"
    using taken n(2) ring_seg_Suc [of r s "n - 1"] hd_take [of n "g_free (groups r)"] by simp
  ultimately show ?thesis
    using that hw' r' gr taken describes n(2) by simp
qed

end
