(* ===== verification/Aes_Machine.thy ===== *)
theory Aes_Machine
  imports Aes_Inv
begin

text \<open>
  The AES driver as a state machine: requests, interrupts, bottom halves and the hardware, in any
  order. Every request that was accepted is called back exactly once.
\<close>

section \<open>The invariant\<close>

definition aes_flight :: "'d aes_state \<Rightarrow> ptr multiset" where
  "aes_flight s = flight (ram (as_world s)) (aes_tx_ring s) + flight (ram (as_world s)) (aes_rx_ring s)"

text \<open>The part that is about the rings.\<close>

definition aes_rings :: "'d aes_state \<Rightarrow> bool" where
  "aes_rings s \<longleftrightarrow> RxBdRing (ad_AxiDma (as_dma s)) \<noteq> [] \<and> ring_idle (aes_tx_ring s) \<and> ring_idle (aes_rx_ring s)
     \<and> rings_apart (aes_tx_ring s) (aes_rx_ring s) \<and> rings_apart (aes_rx_ring s) (aes_tx_ring s)"

text \<open>\<open>A\<close> are the callbacks of the accepted requests. \<open>K\<close> are the requests that \<^verbatim>\<open>aes_desc_to_hw\<close> refused
  after it had entered them into its list; the reference of the submitter is never dropped for them.\<close>

definition aes_inv :: "'d aes_state \<Rightarrow> ptr multiset \<Rightarrow> (ptr \<times> ptr) multiset \<Rightarrow> bool" where
  "aes_inv s K A \<longleftrightarrow> aes_rings s \<and> (\<forall>x. count K x \<le> 1)
     \<and> krefs_ok s (aes_flight s + K) (A + image_mset (sw_call s) K)"

text \<open>A request keeps its callback until it is back in the free list.\<close>

definition calls_kept :: "'d aes_state \<Rightarrow> 'd aes_state \<Rightarrow> bool" where
  "calls_kept s s' \<longleftrightarrow> set (ad_desc_head (as_dma s)) \<subseteq> set (ad_desc_head (as_dma s'))
     \<and> (\<forall>y. y \<notin> set (ad_desc_head (as_dma s')) \<longrightarrow> sw_call s' y = sw_call s y)"

lemma calls_kept_refl [simp]: "calls_kept s s"
  by (simp add: calls_kept_def)

lemma calls_kept_trans: "calls_kept s s' \<Longrightarrow> calls_kept s' s'' \<Longrightarrow> calls_kept s s''"
  by (auto simp: calls_kept_def)

lemma calls_kept_put: "calls_kept s (kref_put x s)"
  by (auto simp: calls_kept_def kref_put_def Let_def free_desc_simps sw_call_def)

lemma calls_kept_frame:
  "ad_desc_head (as_dma s') = ad_desc_head (as_dma s) \<Longrightarrow> sw_call s' = sw_call s \<Longrightarrow> calls_kept s s'"
  by (simp add: calls_kept_def)

lemma calls_kept_loop: "calls_kept s (bh_clean_loop k r b s)"
proof (induction k arbitrary: b s)
  case (Suc k)
  have "calls_kept (aes_clean_bh b s) (bh_set_id b (aes_clean_bh b s))"
    by (rule calls_kept_frame) (simp_all add: bh_set_id_def sw_call_def fun_eq_iff)
  then show ?case
    using calls_kept_put Suc.IH by (simp add: aes_clean_bh_def) (blast intro: calls_kept_trans)
qed simp

lemma calls_kept_drain: "calls_kept s (snd (bh_drain r s))"
proof (induction r s rule: bh_drain.induct)
  case (1 r s)
  show ?case
    by (subst bh_drain.simps)
      (auto simp: Let_def split: prod.splits intro: calls_kept_trans [OF calls_kept_loop 1])
qed

text \<open>What is left to show for a step that keeps all callbacks.\<close>

lemma aes_invI:
  assumes one: "\<forall>x. count K x \<le> 1" and kept: "calls_kept s s'" and rings: "aes_rings s'"
    and k: "krefs_ok s' (aes_flight s' + K) (A + image_mset (sw_call s) K)"
  shows "aes_inv s' K A"
proof -
  have "image_mset (sw_call s') K = image_mset (sw_call s) K"
  proof (rule image_mset_cong)
    fix y
    assume "y \<in># K"
    then have "y \<notin> set (ad_desc_head (as_dma s'))"
      using k by (auto simp: krefs_ok_def)
    then show "sw_call s' y = sw_call s y"
      using kept by (simp add: calls_kept_def)
  qed
  then show ?thesis
    using assms by (simp add: aes_inv_def)
qed

lemma set_ring_simps [simp]:
  "aes_tx_ring (set_tx_ring r s) = r" "aes_rx_ring (set_tx_ring r s) = aes_rx_ring s"
  "aes_tx_ring (set_rx_ring r s) = aes_tx_ring s"
  "RxBdRing (ad_AxiDma (as_dma s)) \<noteq> [] \<Longrightarrow> aes_rx_ring (set_rx_ring r s) = r"
  "as_world (set_tx_ring r s) = as_world s" "as_world (set_rx_ring r s) = as_world s"
  "as_sw (set_tx_ring r s) = as_sw s" "as_sw (set_rx_ring r s) = as_sw s"
  "ad_desc_head (as_dma (set_tx_ring r s)) = ad_desc_head (as_dma s)"
  "ad_desc_head (as_dma (set_rx_ring r s)) = ad_desc_head (as_dma s)"
  "ad_hw_head (as_dma (set_tx_ring r s)) = ad_hw_head (as_dma s)"
  "ad_hw_head (as_dma (set_rx_ring r s)) = ad_hw_head (as_dma s)"
  "as_called (set_tx_ring r s) = as_called s" "as_called (set_rx_ring r s) = as_called s"
  "RxBdRing (ad_AxiDma (as_dma (set_tx_ring r s))) = RxBdRing (ad_AxiDma (as_dma s))"
  "RxBdRing (ad_AxiDma (as_dma (set_rx_ring r s))) = (RxBdRing (ad_AxiDma (as_dma s)))[0 := r]"
  by (simp_all add: set_tx_ring_def set_rx_ring_def aes_tx_ring_def aes_rx_ring_def set_RxRing_def
      XAxiDma_GetRxRing_def)

lemma ring_world_simps [simp]:
  "aes_tx_ring (s\<lparr>as_world := w\<rparr>) = aes_tx_ring s" "aes_rx_ring (s\<lparr>as_world := w\<rparr>) = aes_rx_ring s"
  "aes_tx_ring (upd_sw x f s) = aes_tx_ring s" "aes_rx_ring (upd_sw x f s) = aes_rx_ring s"
  "aes_tx_ring (kref_put x s) = aes_tx_ring s" "aes_rx_ring (kref_put x s) = aes_rx_ring s"
  "aes_tx_ring (s\<lparr>as_tx_head := b\<rparr>) = aes_tx_ring s" "aes_rx_ring (s\<lparr>as_tx_head := b\<rparr>) = aes_rx_ring s"
  "aes_tx_ring (s\<lparr>as_rx_head := b\<rparr>) = aes_tx_ring s" "aes_rx_ring (s\<lparr>as_rx_head := b\<rparr>) = aes_rx_ring s"
  by (simp_all add: aes_tx_ring_def aes_rx_ring_def)

lemma krefs_ok_frame [simp]:
  "krefs_ok (set_tx_ring r s) M L = krefs_ok s M L" "krefs_ok (set_rx_ring r s) M L = krefs_ok s M L"
  "krefs_ok (s\<lparr>as_tx_head := b\<rparr>) M L = krefs_ok s M L" "krefs_ok (s\<lparr>as_rx_head := b\<rparr>) M L = krefs_ok s M L"
  by (simp_all add: krefs_ok_def pending_calls_def sw_call_def [abs_def] set_tx_ring_def set_rx_ring_def)

section \<open>Bottom halves\<close>

lemma tx_bh_drain:
  assumes inv: "aes_inv s K A" and queued: "as_tx_head s"
  obtains r' s' where "tx_handle_bh B s = (set_tx_ring r' s')\<lparr>as_world :=
      XAxiDma_mBdRingIntEnable B r' XAXIDMA_IRQ_ALL_MASK (as_world s')\<rparr>"
    and "bh_drain (aes_tx_ring s) (s\<lparr>as_tx_head := False\<rparr>) = (r', s')"
    and "drained (aes_tx_ring s) (s\<lparr>as_tx_head := False\<rparr>) r' s'" and "calls_kept s s'"
    and "krefs_ok s' (flight (ram (as_world s')) r' + (flight (ram (as_world s)) (aes_rx_ring s) + K))
      (A + image_mset (sw_call s) K)"
proof -
  let ?s0 = "s\<lparr>as_tx_head := False\<rparr>"
  obtain r' s' where d: "bh_drain (aes_tx_ring s) ?s0 = (r', s')"
    by (metis surj_pair)
  have k: "krefs_ok ?s0 (flight (ram (as_world ?s0)) (aes_tx_ring s)
      + (flight (ram (as_world s)) (aes_rx_ring s) + K)) (A + image_mset (sw_call s) K)"
    and r: "ring_inv (aes_tx_ring s)" "g_post (groups (aes_tx_ring s)) = []"
    using inv by (simp_all add: aes_inv_def aes_flight_def aes_rings_def ring_idle_def ac_simps)
  have "calls_kept s s'"
    using calls_kept_drain [of ?s0 "aes_tx_ring s"] d by (simp add: calls_kept_def sw_call_def)
  then show ?thesis
    using that [of r' s'] queued d bh_drain_ok [OF r k d] by (simp add: tx_handle_bh_def Let_def)
qed

lemma tx_bh_inv:
  assumes inv: "aes_inv s K A"
  shows "aes_inv (tx_handle_bh B s) K A"
proof (cases "as_tx_head s")
  case True
  let ?s0 = "s\<lparr>as_tx_head := False\<rparr>"
  obtain r' s' where s': "tx_handle_bh B s = (set_tx_ring r' s')\<lparr>as_world :=
      XAxiDma_mBdRingIntEnable B r' XAXIDMA_IRQ_ALL_MASK (as_world s')\<rparr>"
    and d: "drained (aes_tx_ring s) ?s0 r' s'" and kept: "calls_kept s s'"
    and k: "krefs_ok s' (flight (ram (as_world s')) r' + (flight (ram (as_world s)) (aes_rx_ring s) + K))
      (A + image_mset (sw_call s) K)"
    by (rule tx_bh_drain [OF inv True, of B])
  have rings: "aes_rings s" and one: "\<forall>x. count K x \<le> 1"
    using inv by (simp_all add: aes_inv_def)
  have ok: "ring_idle r'" "same_bds (aes_tx_ring s) r'" "ad_AxiDma (as_dma s') = ad_AxiDma (as_dma s)"
    using d rings by (auto simp: drained_def taken_back_def aes_rings_def ring_idle_def same_rest_def ring_static_def same_bds_def)
  have fl: "flight (ram (as_world s')) (aes_rx_ring s) = flight (ram (as_world s)) (aes_rx_ring s)"
    using rings d by (intro flight_apart) (auto simp: drained_def taken_back_def aes_rings_def ring_idle_def)
  have ring: "aes_rx_ring s' = aes_rx_ring s"
    using ok(3) by (simp add: aes_rx_ring_def)
  have "calls_kept s (tx_handle_bh B s)"
    using kept by (simp add: s' calls_kept_def sw_call_def)
  then show ?thesis
    using ok rings fl ring k
    by (intro aes_invI [OF one]) (simp_all add: s' aes_rings_def aes_flight_def same_bds_rings
        XAxiDma_mBdRingIntEnable_def split_beta ram_reg ac_simps)
qed (use inv in \<open>simp add: tx_handle_bh_def\<close>)

lemma rx_bh_drain:
  assumes inv: "aes_inv s K A" and queued: "as_rx_head s"
  obtains r' s' where "rx_handle_bh B s = (set_rx_ring r' s')\<lparr>as_world :=
      XAxiDma_mBdRingIntEnable B r' XAXIDMA_IRQ_ALL_MASK (as_world s')\<rparr>"
    and "bh_drain (aes_rx_ring s) (s\<lparr>as_rx_head := False\<rparr>) = (r', s')"
    and "drained (aes_rx_ring s) (s\<lparr>as_rx_head := False\<rparr>) r' s'" and "calls_kept s s'"
    and "krefs_ok s' (flight (ram (as_world s')) r' + (flight (ram (as_world s)) (aes_tx_ring s) + K))
      (A + image_mset (sw_call s) K)"
proof -
  let ?s0 = "s\<lparr>as_rx_head := False\<rparr>"
  obtain r' s' where d: "bh_drain (aes_rx_ring s) ?s0 = (r', s')"
    by (metis surj_pair)
  have k: "krefs_ok ?s0 (flight (ram (as_world ?s0)) (aes_rx_ring s)
      + (flight (ram (as_world s)) (aes_tx_ring s) + K)) (A + image_mset (sw_call s) K)"
    and r: "ring_inv (aes_rx_ring s)" "g_post (groups (aes_rx_ring s)) = []"
    using inv by (simp_all add: aes_inv_def aes_flight_def aes_rings_def ring_idle_def ac_simps)
  have "calls_kept s s'"
    using calls_kept_drain [of ?s0 "aes_rx_ring s"] d by (simp add: calls_kept_def sw_call_def)
  then show ?thesis
    using that [of r' s'] queued d bh_drain_ok [OF r k d] by (simp add: rx_handle_bh_def Let_def)
qed

lemma rx_bh_inv:
  assumes inv: "aes_inv s K A"
  shows "aes_inv (rx_handle_bh B s) K A"
proof (cases "as_rx_head s")
  case True
  let ?s0 = "s\<lparr>as_rx_head := False\<rparr>"
  obtain r' s' where s': "rx_handle_bh B s = (set_rx_ring r' s')\<lparr>as_world :=
      XAxiDma_mBdRingIntEnable B r' XAXIDMA_IRQ_ALL_MASK (as_world s')\<rparr>"
    and d: "drained (aes_rx_ring s) ?s0 r' s'" and kept: "calls_kept s s'"
    and k: "krefs_ok s' (flight (ram (as_world s')) r' + (flight (ram (as_world s)) (aes_tx_ring s) + K))
      (A + image_mset (sw_call s) K)"
    by (rule rx_bh_drain [OF inv True, of B])
  have rings: "aes_rings s" and one: "\<forall>x. count K x \<le> 1"
    using inv by (simp_all add: aes_inv_def)
  have ok: "ring_idle r'" "same_bds (aes_rx_ring s) r'" "ad_AxiDma (as_dma s') = ad_AxiDma (as_dma s)"
    using d rings by (auto simp: drained_def taken_back_def aes_rings_def ring_idle_def same_rest_def ring_static_def same_bds_def)
  have fl: "flight (ram (as_world s')) (aes_tx_ring s) = flight (ram (as_world s)) (aes_tx_ring s)"
    using rings d by (intro flight_apart) (auto simp: drained_def taken_back_def aes_rings_def ring_idle_def)
  have ring: "aes_tx_ring s' = aes_tx_ring s"
    using ok(3) by (simp add: aes_tx_ring_def)
  have "calls_kept s (rx_handle_bh B s)"
    using kept by (simp add: s' calls_kept_def sw_call_def)
  then show ?thesis
    using ok rings fl ring k
    by (intro aes_invI [OF one]) (simp_all add: s' aes_rings_def aes_flight_def same_bds_rings
        XAxiDma_mBdRingIntEnable_def split_beta ram_reg ac_simps)
qed (use inv in \<open>simp add: rx_handle_bh_def\<close>)

section \<open>Submitting a request\<close>

lemma buf_ready_cong:
  assumes "ring_inv r" and "\<forall>j<ring_size r. bd_words m' (ring_at r j) 0x3C = bd_words m (ring_at r j) 0x3C"
  shows "buf_ready k r m' b = buf_ready k r m b"
proof -
  obtain i q h p f where v: "ring_view r i q h p f"
    using assms(1) by (rule ring_inv_view)
  have "set (g_free (groups r)) \<subseteq> ring_at r ` {..<ring_size r}"
    using set_ring_seg [of r "i + q + h + p" f] v by (simp add: view_groups [OF v] ring_view_def)
  then have same: "addr_refused (bd_words m' x) = addr_refused (bd_words m x)" if "x \<in> set (g_free (groups r))" for x
    using assms(2) that by (auto simp: addr_refused_def fun_eq_iff)
  have "list_all2 (\<lambda>x p. \<not> addr_refused (bd_words m' x) (fst p)) (take n (g_free (groups r))) ps
      = list_all2 (\<lambda>x p. \<not> addr_refused (bd_words m x) (fst p)) (take n (g_free (groups r))) ps" for n and ps :: "(u32 \<times> int) list"
    by (rule list.rel_cong) (auto dest: in_set_takeD simp: same)
  then show ?thesis
    by (simp add: buf_ready_def split: dma_buf_t.split)
qed

lemma ring_to_hw_flight:
  assumes idle: "ring_idle r" and ready: "buf_ready 23 r (ram w) b"
  shows "\<exists>n r' b' bd w'. aes_ring_to_hw B b r x w = Some (XST_SUCCESS, r', b', bd, n, w') \<and> ring_idle r'
    \<and> same_bds r r' \<and> flight (ram w') r' = flight (ram w) r + replicate_mset n x \<and> ring_local r (ram w) (ram w')"
proof -
  have r: "ring_inv r" "g_pre (groups r) = []" "MaxTransferLen r = mask 23" "23 \<le> (26 :: nat)"
    using idle by (simp_all add: ring_idle_def mask_eq_exp_minus_1)
  define ps where "ps = (case b of DMA_TYPE_SG d \<Rightarrow> pieces (buf_sg d) (buf_sz d) | _ \<Rightarrow> [])"
  define n where "n = length ps"
  obtain r' b' w' where op: "aes_ring_to_hw B b r x w = Some (XST_SUCCESS, r', b', Some (hd (g_free (groups r))), n, w')"
    and r': "ring_inv r'" "same_bds r r'" "ring_static r' = ring_static r"
    and groups: "groups r' = (groups r)\<lparr>g_hw := g_hw (groups r) @ take n (g_free (groups r)), g_free := drop n (g_free (groups r))\<rparr>"
    and "list_all2 (bd_describes (mask 23) (ram w') x) (take n (g_free (groups r))) ps"
    and fl: "flight (ram w') r' = flight (ram w) r + replicate_mset n x"
    and loc: "ring_local r (ram w) (ram w')" and "0 < n"
    by (rule ring_to_hw_ok [OF r ready, of B x, folded ps_def, folded n_def])
  have "g_post (groups r') = []" "g_pre (groups r') = []"
    using idle groups by (simp_all add: ring_idle_def)
  then have "ring_idle r'"
    using idle r' by (simp add: ring_idle_def ring_static_def same_bds_def)
  then show ?thesis
    using op r'(2) fl loc by blast
qed

text \<open>The two halves of \<^verbatim>\<open>aes_desc_to_hw\<close>, for a request that holds the reference of its submitter.\<close>

lemma rx_submit_ok:
  assumes rings: "aes_rings s" and k: "krefs_ok s (add_mset x (aes_flight s + K)) L"
    and ready: "buf_ready 23 (aes_rx_ring s) (ram (as_world s)) (sw_dst_buf (as_sw s x))"
  obtains s' where "desc_to_hw_rx B x s = Some (XST_SUCCESS, s')" and "aes_rings s'"
    and "krefs_ok s' (add_mset x (aes_flight s' + K)) L" and "calls_kept s s'"
    and "aes_tx_ring s' = aes_tx_ring s" and "sw_src_buf (as_sw s' x) = sw_src_buf (as_sw s x)"
    and "ring_local (aes_rx_ring s) (ram (as_world s)) (ram (as_world s'))"
proof -
  have idle: "ring_idle (aes_rx_ring s)"
    and apart: "rings_apart (aes_rx_ring s) (aes_tx_ring s)" and other: "ring_inv (aes_tx_ring s)"
    and ne: "RxBdRing (ad_AxiDma (as_dma s)) \<noteq> []"
    using rings by (simp_all add: aes_rings_def ring_idle_def)
  from ring_to_hw_flight [OF idle ready, of B x]
  obtain n r' b' bd w' where op: "aes_ring_to_hw B (sw_dst_buf (as_sw s x)) (aes_rx_ring s) x (as_world s)
      = Some (XST_SUCCESS, r', b', bd, n, w')"
    and r': "ring_idle r'" "same_bds (aes_rx_ring s) r'"
    and fl: "flight (ram w') r' = flight (ram (as_world s)) (aes_rx_ring s) + replicate_mset n x"
    and loc: "ring_local (aes_rx_ring s) (ram (as_world s)) (ram w')"
    by blast
  let ?f = "\<lambda>d. d\<lparr>sw_dst_buf := b', sw_rx_BdPtr := bd_or bd (sw_rx_BdPtr d),
    sw_kref := sw_kref d + int n\<rparr>"
  let ?s = "set_rx_ring r' (upd_sw x ?f (s\<lparr>as_world := w'\<rparr>))"
  have "flight (ram w') (aes_tx_ring s) = flight (ram (as_world s)) (aes_tx_ring s)"
    by (rule flight_apart [OF other loc apart])
  then have "aes_flight ?s = aes_flight s + replicate_mset n x"
    using fl ne by (simp add: aes_flight_def ac_simps)
  moreover have "krefs_ok (upd_sw x ?f (s\<lparr>as_world := w'\<rparr>)) (add_mset x (aes_flight s + K) + replicate_mset n x) L"
    using k by (intro kref_get_ok) simp_all
  ultimately have "krefs_ok ?s (add_mset x (aes_flight ?s + K)) L"
    by (simp add: ac_simps)
  moreover have "calls_kept s ?s"
    by (rule calls_kept_frame) (simp_all add: sw_call_def fun_eq_iff)
  ultimately show ?thesis
    using that [of ?s] op r' rings ne loc
    by (simp add: desc_to_hw_rx_def aes_rings_def same_bds_rings)
qed

lemma tx_submit_ok:
  assumes rings: "aes_rings s" and k: "krefs_ok s (add_mset x (aes_flight s + K)) L"
    and ready: "buf_ready 23 (aes_tx_ring s) (ram (as_world s)) (sw_src_buf (as_sw s x))"
  obtains s' where "desc_to_hw_tx B x s = Some (XST_SUCCESS, s')" and "aes_rings s'"
    and "krefs_ok s' (add_mset x (aes_flight s' + K)) L" and "calls_kept s s'"
    and "aes_rx_ring s' = aes_rx_ring s" and "sw_dst_buf (as_sw s' x) = sw_dst_buf (as_sw s x)"
    and "ring_local (aes_tx_ring s) (ram (as_world s)) (ram (as_world s'))"
proof -
  have idle: "ring_idle (aes_tx_ring s)"
    and apart: "rings_apart (aes_tx_ring s) (aes_rx_ring s)" and other: "ring_inv (aes_rx_ring s)"
    and ne: "RxBdRing (ad_AxiDma (as_dma s)) \<noteq> []"
    using rings by (simp_all add: aes_rings_def ring_idle_def)
  from ring_to_hw_flight [OF idle ready, of B x]
  obtain n r' b' bd w' where op: "aes_ring_to_hw B (sw_src_buf (as_sw s x)) (aes_tx_ring s) x (as_world s)
      = Some (XST_SUCCESS, r', b', bd, n, w')"
    and r': "ring_idle r'" "same_bds (aes_tx_ring s) r'"
    and fl: "flight (ram w') r' = flight (ram (as_world s)) (aes_tx_ring s) + replicate_mset n x"
    and loc: "ring_local (aes_tx_ring s) (ram (as_world s)) (ram w')"
    by blast
  let ?f = "\<lambda>d. d\<lparr>sw_src_buf := b', sw_tx_BdPtr := bd_or bd (sw_tx_BdPtr d),
    sw_kref := sw_kref d + int n\<rparr>"
  let ?s = "set_tx_ring r' (upd_sw x ?f (s\<lparr>as_world := w'\<rparr>))"
  have "flight (ram w') (aes_rx_ring s) = flight (ram (as_world s)) (aes_rx_ring s)"
    by (rule flight_apart [OF other loc apart])
  then have "aes_flight ?s = aes_flight s + replicate_mset n x"
    using fl ne by (simp add: aes_flight_def ac_simps)
  moreover have "krefs_ok (upd_sw x ?f (s\<lparr>as_world := w'\<rparr>)) (add_mset x (aes_flight s + K) + replicate_mset n x) L"
    using k by (intro kref_get_ok) simp_all
  ultimately have "krefs_ok ?s (add_mset x (aes_flight ?s + K)) L"
    by (simp add: ac_simps)
  moreover have "calls_kept s ?s"
    by (rule calls_kept_frame) (simp_all add: sw_call_def fun_eq_iff)
  ultimately show ?thesis
    using that [of ?s] op r' rings ne loc
    by (simp add: desc_to_hw_tx_def aes_rings_def same_bds_rings)
qed

lemma krefs_new:
  assumes k: "krefs_ok s M L" and x: "x \<noteq> NULL" "x \<notin> set (ad_hw_head (as_dma s))"
    and hw: "ad_hw_head (as_dma s') = ad_hw_head (as_dma s) @ [x]"
    and dh: "distinct (ad_desc_head (as_dma s'))" "set (ad_desc_head (as_dma s')) \<subseteq> set (ad_desc_head (as_dma s)) - {x}"
    and sw: "\<And>y. y \<noteq> x \<Longrightarrow> as_sw s' y = as_sw s y" "sw_kref (as_sw s' x) = 1" "sw_cb (as_sw s' x) \<noteq> NULL"
    and called: "as_called s' = as_called s"
  shows "krefs_ok s' (add_mset x M) (add_mset (sw_call s' x) L)"
proof -
  have xM: "x \<notin># M" "set (ad_hw_head (as_dma s)) = set_mset M"
    using k x(2) by (auto simp: krefs_ok_def)
  have "image_mset (sw_call s') (mset (ad_hw_head (as_dma s))) = image_mset (sw_call s) (mset (ad_hw_head (as_dma s)))"
    using sw(1) x(2) by (intro image_mset_cong) (metis set_mset_mset sw_call_def)
  then have "pending_calls s' = add_mset (sw_call s' x) (pending_calls s)"
    by (simp add: pending_calls_def hw)
  moreover have "\<forall>y\<in>#M. y \<noteq> x"
    using xM by auto
  ultimately show ?thesis
    using k x dh xM sw called by (auto simp: krefs_ok_def hw not_in_iff)
qed


text \<open>A scatter list the engine can work on, and room for it in a ring.\<close>

definition sg_ok :: "XAxiDma_BdRing \<Rightarrow> memory \<Rightarrow> sg_entry list \<Rightarrow> int \<Rightarrow> bool" where
  "sg_ok r m sgs sz \<longleftrightarrow> sgs \<noteq> [] \<and> sg_positive sgs \<and> 0 < sz
     \<and> (\<forall>p\<in>set (pieces sgs sz). snd p \<le> uint XAXIDMA_MAX_TRANSFER_LEN
          \<and> (\<forall>j<ring_size r. \<not> addr_refused (bd_words m (ring_at r j)) (fst p)))"

definition sg_room :: "XAxiDma_BdRing \<Rightarrow> sg_entry list \<Rightarrow> int \<Rightarrow> bool" where
  "sg_room r sgs sz \<longleftrightarrow> int (length (pieces sgs sz)) \<le> FreeCnt r"

lemma sg_ready:
  assumes r: "ring_inv r" and sg: "sg_ok r m sgs sz" "sg_room r sgs sz"
  shows "buf_ready 23 r m (snd (dma_buf_sg_init True b sgs (int (length sgs)) sz))"
proof -
  let ?n = "length (pieces sgs sz)"
  note full = sg_init_full(1) [of sgs sz "int (length sgs)" b] sg_init_full(2,3) [of sgs sz]
  have len: "?n \<le> length (g_free (groups r))" "length (take ?n sgs) = ?n"
    using sg(2) free_cnt [OF r] pieces_length [of sgs sz] by (simp_all add: sg_room_def)
  have "set (g_free (groups r)) \<subseteq> ring_at r ` {..<ring_size r}"
    using inv_partition [OF r] by (auto simp: all_bds_def)
  then have "\<not> addr_refused (bd_words m x) (fst p)" if "x \<in> set (g_free (groups r))" "p \<in> set (pieces sgs sz)" for x p
    using sg(1) that by (auto simp: sg_ok_def)
  then have "list_all2 (\<lambda>x p. \<not> addr_refused (bd_words m x) (fst p)) (take ?n (g_free (groups r))) (pieces sgs sz)"
    using len(1) by (simp add: list_all2_conv_all_nth)
  then show ?thesis
    using full sg(1) len by (simp add: sg_ok_def buf_ready_def Let_def list_all_iff mask_eq_exp_minus_1)
qed

lemma sg_no_room:
  assumes r: "ring_inv r" and sg: "sg_ok r m sgs sz" "\<not> sg_room r sgs sz"
  shows "aes_ring_to_hw B (snd (dma_buf_sg_init True b sgs (int (length sgs)) sz)) r x w
    = Some (XST_FAILURE, r, snd (dma_buf_sg_init True b sgs (int (length sgs)) sz), None, 0, w)"
proof -
  let ?n = "int (length (pieces sgs sz))"
  have "dma_buf_cnt (snd (dma_buf_sg_init True b sgs (int (length sgs)) sz)) = ?n"
    using sg_init_full(1) [of sgs sz "int (length sgs)" b] sg(1) by (simp add: sg_ok_def dma_buf_cnt_def Let_def)
  moreover obtain st r' bd where op: "XAxiDma_BdRingAlloc r ?n = (st, r', bd)"
    by (metis prod_cases3)
  moreover have "st = XST_FAILURE \<and> r' = r \<and> bd = None"
    using alloc_cases [OF r op] sg(2) free_cnt [OF r] by (auto simp: sg_room_def)
  ultimately show ?thesis
    by (simp add: aes_ring_to_hw_def Let_def)
qed

text \<open>A ring without room leaves everything as it is.\<close>

lemma rx_refused:
  assumes "RxBdRing (ad_AxiDma (as_dma s)) \<noteq> []" and "aes_ring_to_hw B (sw_dst_buf (as_sw s x)) (aes_rx_ring s) x (as_world s)
    = Some (XST_FAILURE, aes_rx_ring s, sw_dst_buf (as_sw s x), None, 0, as_world s)"
  shows "desc_to_hw_rx B x s = Some (XST_FAILURE, s)"
  using assms by (cases s) (auto simp: desc_to_hw_rx_def bd_or_def upd_sw_def set_rx_ring_def upd_dma_def
      aes_rx_ring_def set_RxRing_def XAxiDma_GetRxRing_def)

lemma tx_refused:
  assumes "aes_ring_to_hw B (sw_src_buf (as_sw s x)) (aes_tx_ring s) x (as_world s)
    = Some (XST_FAILURE, aes_tx_ring s, sw_src_buf (as_sw s x), None, 0, as_world s)"
  shows "desc_to_hw_tx B x s = Some (XST_FAILURE, s)"
  using assms by (cases s) (auto simp: desc_to_hw_tx_def bd_or_def upd_sw_def set_tx_ring_def upd_dma_def
      aes_tx_ring_def )

text \<open>All outcomes of \<^verbatim>\<open>aes_desc_to_hw\<close> for a prepared request: accepted, or refused for want of room in
  the receive or the transmit ring, in which case the reference of the submitter stays.\<close>

lemma desc_to_hw_outcome:
  assumes rings: "aes_rings s" and k: "krefs_ok s (add_mset x (aes_flight s + K)) L"
    and bufs: "sw_src_buf (as_sw s x) = snd (dma_buf_sg_init True b src (int (length src)) ssz)"
      "sw_dst_buf (as_sw s x) = snd (dma_buf_sg_init True c dst (int (length dst)) dsz)"
    and ok: "sg_ok (aes_tx_ring s) (ram (as_world s)) src ssz" "sg_ok (aes_rx_ring s) (ram (as_world s)) dst dsz"
  defines "room \<equiv> sg_room (aes_rx_ring s) dst dsz \<and> sg_room (aes_tx_ring s) src ssz"
  defines "K' \<equiv> if room then K else add_mset x K"
  shows "\<exists>s'. (case desc_to_hw_rx B x s of
       None \<Rightarrow> None
     | Some (res, s) \<Rightarrow>
         if res \<noteq> 0 then Some (res, s)
         else (case desc_to_hw_tx B x s of
                 None \<Rightarrow> None
               | Some (res, s) \<Rightarrow> if res \<noteq> 0 then Some (res, s) else Some (0, kref_put x s)))
      = Some (if room then XST_SUCCESS else XST_FAILURE, s')
    \<and> aes_rings s' \<and> krefs_ok s' (aes_flight s' + K') L \<and> calls_kept s s'"
proof -
  have inv: "ring_inv (aes_rx_ring s)" "ring_inv (aes_tx_ring s)" and ne: "RxBdRing (ad_AxiDma (as_dma s)) \<noteq> []"
    and apart: "rings_apart (aes_rx_ring s) (aes_tx_ring s)"
    using rings by (simp_all add: aes_rings_def ring_idle_def)
  show ?thesis
  proof (cases "sg_room (aes_rx_ring s) dst dsz")
    case False
    then have "desc_to_hw_rx B x s = Some (XST_FAILURE, s)"
      using sg_no_room [OF inv(1) ok(2)] bufs ne by (intro rx_refused) simp_all
    then show ?thesis
      using False rings k by (simp add: room_def K'_def)
  next
    case rx: True
    obtain s1 where s1: "desc_to_hw_rx B x s = Some (XST_SUCCESS, s1)" "aes_rings s1"
      "krefs_ok s1 (add_mset x (aes_flight s1 + K)) L" "calls_kept s s1" "aes_tx_ring s1 = aes_tx_ring s"
      "sw_src_buf (as_sw s1 x) = sw_src_buf (as_sw s x)"
      "ring_local (aes_rx_ring s) (ram (as_world s)) (ram (as_world s1))"
      using sg_ready [OF inv(1) ok(2) rx, of c] bufs by (metis rx_submit_ok [OF rings k])
    show ?thesis
    proof (cases "sg_room (aes_tx_ring s) src ssz")
      case False
      then have "desc_to_hw_tx B x s1 = Some (XST_FAILURE, s1)"
        using sg_no_room [OF inv(2) ok(1)] bufs s1(5,6) by (intro tx_refused) simp_all
      then show ?thesis
        using False s1 by (simp add: room_def K'_def)
    next
      case tx: True
      have "buf_ready 23 (aes_tx_ring s) (ram (as_world s1)) (sw_src_buf (as_sw s x))"
        using sg_ready [OF inv(2) ok(1) tx, of b] bufs(1) ring_local_apart [OF s1(7) apart, where off = "0x3C"]
          buf_ready_cong [OF inv(2), where m' = "ram (as_world s1)" and m = "ram (as_world s)"]
        by (simp add: bd_off_def)
      then obtain s2 where s2: "desc_to_hw_tx B x s1 = Some (XST_SUCCESS, s2)" "aes_rings s2"
        "krefs_ok s2 (add_mset x (aes_flight s2 + K)) L" "calls_kept s1 s2"
        using s1(5,6) by (metis tx_submit_ok [OF s1(2,3)])
      then show ?thesis
        using rx tx s1 kref_put_ok [OF s2(3)] calls_kept_put [of s2 x]
        by (auto simp: room_def K'_def aes_rings_def aes_flight_def intro: calls_kept_trans)
    qed
  qed
qed

text \<open>The kernel grants what \<^verbatim>\<open>aes_submit\<close> asks for: the device is there, both lists can be mapped and
  copied, and the slab cache gives an object that is not in use.\<close>

definition submit_granted :: "submit_env \<Rightarrow> 'd aes_state \<Rightarrow> bool" where
  "submit_granted E s \<longleftrightarrow> se_dma E \<and> se_map_src E \<noteq> 0 \<and> se_map_dst E \<noteq> 0 \<and> se_table_src E \<and> se_table_dst E
     \<and> (ad_desc_head (as_dma s) = [] \<longrightarrow> se_fresh E \<noteq> NULL \<and> se_fresh E \<notin> set (ad_hw_head (as_dma s)))"

lemma alloc_desc_ok:
  assumes k: "krefs_ok s M L" and grant: "submit_granted E s"
  obtains x s0 where "aes_alloc_desc (se_fresh E) s = Some (x, s0)" and "x \<noteq> NULL"
    and "x \<notin> set (ad_hw_head (as_dma s))" and "ad_hw_head (as_dma s0) = ad_hw_head (as_dma s)"
    and "distinct (ad_desc_head (as_dma s0))" and "set (ad_desc_head (as_dma s0)) \<subseteq> set (ad_desc_head (as_dma s)) - {x}"
    and "as_called s0 = as_called s" and "as_world s0 = as_world s" and "ad_AxiDma (as_dma s0) = ad_AxiDma (as_dma s)"
    and "as_sw s0 = (as_sw s)(x := zero_desc\<lparr>sw_kref := 1\<rparr>)"
proof (cases "ad_desc_head (as_dma s)")
  case Nil
  then show ?thesis
    using that [of "se_fresh E" "upd_sw (se_fresh E) (\<lambda>_. zero_desc\<lparr>sw_kref := 1\<rparr>) s"] grant
    by (simp add: aes_alloc_desc_def submit_granted_def upd_sw_def)
next
  case (Cons x rest)
  then show ?thesis
    using that [of x "upd_sw x (\<lambda>_. zero_desc\<lparr>sw_kref := 1\<rparr>) (upd_dma (\<lambda>dma. dma\<lparr>ad_desc_head := rest,
        ad_desc_free := ad_desc_free dma - 1\<rparr>) s)"] k
    by (auto simp: aes_alloc_desc_def krefs_ok_def upd_sw_def)
qed

lemma to_hw_timer_simps [simp]:
  "ad_hw_head (as_dma (desc_to_hw_timer T x s)) = ad_hw_head (as_dma s) @ [x]"
  "ad_desc_head (as_dma (desc_to_hw_timer T x s)) = ad_desc_head (as_dma s)"
  "ad_AxiDma (as_dma (desc_to_hw_timer T x s)) = ad_AxiDma (as_dma s)"
  "as_world (desc_to_hw_timer T x s) = as_world s" "as_called (desc_to_hw_timer T x s) = as_called s"
  "as_sw (desc_to_hw_timer T x s) y = (if y = x then (as_sw s x)\<lparr>sw_deadline := jiffies T + 10 * HZ T,
     sw_jiffies := jiffies T\<rparr> else as_sw s y)"
  by (simp_all add: desc_to_hw_timer_def Let_def)

lemma submit_prepared:
  assumes inv: "aes_inv s K A" and grant: "submit_granted E s" and cb: "cb \<noteq> NULL"
  obtains x s1 where "map_option fst (aes_alloc_desc (se_fresh E) s) = Some x" and "aes_inv s1 (add_mset x K) A" and "sw_call s1 x = (cb, priv)"
    and "ad_AxiDma (as_dma s1) = ad_AxiDma (as_dma s)" and "as_world s1 = as_world s"
    and "sw_src_buf (as_sw s1 x) = snd (dma_buf_sg_init True zero_buf src ns ssz)"
    and "sw_dst_buf (as_sw s1 x) = snd (dma_buf_sg_init True zero_buf dst nd dsz)"
    and "aes_submit B T E src ns ssz dst nd dsz cb priv s = (case desc_to_hw_rx B x s1 of
       None \<Rightarrow> None
     | Some (res, s) \<Rightarrow>
         if res \<noteq> 0 then Some (res, s)
         else (case desc_to_hw_tx B x s of
                 None \<Rightarrow> None
               | Some (res, s) \<Rightarrow> if res \<noteq> 0 then Some (res, s) else Some (0, kref_put x s)))"
proof -
  let ?M = "aes_flight s + K" and ?L = "A + image_mset (sw_call s) K"
  have k: "krefs_ok s ?M ?L" and rings: "aes_rings s" and one: "\<forall>y. count K y \<le> 1"
    using inv by (simp_all add: aes_inv_def)
  obtain x s0 where x: "aes_alloc_desc (se_fresh E) s = Some (x, s0)" "x \<noteq> NULL" "x \<notin> set (ad_hw_head (as_dma s))"
    and s0: "ad_hw_head (as_dma s0) = ad_hw_head (as_dma s)" "distinct (ad_desc_head (as_dma s0))"
      "set (ad_desc_head (as_dma s0)) \<subseteq> set (ad_desc_head (as_dma s)) - {x}" "as_called s0 = as_called s"
      "as_world s0 = as_world s" "ad_AxiDma (as_dma s0) = ad_AxiDma (as_dma s)"
      "as_sw s0 = (as_sw s)(x := zero_desc\<lparr>sw_kref := 1\<rparr>)"
    by (rule alloc_desc_ok [OF k grant])
  define s1 where "s1 = desc_to_hw_timer T x (upd_sw x (\<lambda>d. d\<lparr>sw_dst_buf := snd (dma_buf_sg_init True (sw_dst_buf d) dst nd dsz)\<rparr>)
    (upd_sw x (\<lambda>d. d\<lparr>sw_src_buf := snd (dma_buf_sg_init True (sw_src_buf d) src ns ssz)\<rparr>)
      (upd_sw x (\<lambda>d. d\<lparr>sw_cb := cb, sw_priv := priv\<rparr>) s0)))"
  have call: "sw_call s1 x = (cb, priv)" "\<And>y. y \<noteq> x \<Longrightarrow> sw_call s1 y = sw_call s y"
    and dma: "ad_AxiDma (as_dma s1) = ad_AxiDma (as_dma s)" "as_world s1 = as_world s"
    by (simp_all add: s1_def s0 sw_call_def)
  have "krefs_ok s1 (add_mset x ?M) (add_mset (sw_call s1 x) ?L)"
    using cb s0 by (intro krefs_new [OF k x(2,3)]) (simp_all add: s1_def)
  moreover have "x \<notin># ?M"
    using k x(3) by (auto simp: krefs_ok_def)
  then have "image_mset (sw_call s1) K = image_mset (sw_call s) K"
    by (intro image_mset_cong call(2)) auto
  moreover have "aes_flight s1 = aes_flight s" "aes_rings s1"
    using rings dma by (simp_all add: aes_flight_def aes_rings_def aes_tx_ring_def aes_rx_ring_def)
  ultimately have "aes_inv s1 (add_mset x K) A"
    using one \<open>x \<notin># ?M\<close> by (auto simp: aes_inv_def not_in_iff)
  then show ?thesis
    using that [of x s1] call dma x(1) grant
    by (simp add: s1_def s0 aes_submit_def aes_desc_to_hw_def submit_granted_def Let_def zero_desc_def)
qed

lemma submit_outcome:
  assumes inv: "aes_inv s K A" and grant: "submit_granted E s" and cb: "cb \<noteq> NULL"
    and ok: "sg_ok (aes_tx_ring s) (ram (as_world s)) src ssz" "sg_ok (aes_rx_ring s) (ram (as_world s)) dst dsz"
  defines "room \<equiv> sg_room (aes_rx_ring s) dst dsz \<and> sg_room (aes_tx_ring s) src ssz"
  shows "\<exists>x s'. map_option fst (aes_alloc_desc (se_fresh E) s) = Some x \<and> aes_submit B T E src (int (length src)) ssz dst (int (length dst)) dsz cb priv s
      = Some (if room then XST_SUCCESS else XST_FAILURE, s')
    \<and> (if room then aes_inv s' K (add_mset (cb, priv) A) else aes_inv s' (add_mset x K) A)"
proof -
  obtain x s1 where x: "map_option fst (aes_alloc_desc (se_fresh E) s) = Some x" and inv1: "aes_inv s1 (add_mset x K) A" and call: "sw_call s1 x = (cb, priv)"
    and dma: "ad_AxiDma (as_dma s1) = ad_AxiDma (as_dma s)" "as_world s1 = as_world s"
    and bufs: "sw_src_buf (as_sw s1 x) = snd (dma_buf_sg_init True zero_buf src (int (length src)) ssz)"
      "sw_dst_buf (as_sw s1 x) = snd (dma_buf_sg_init True zero_buf dst (int (length dst)) dsz)"
    and run: "aes_submit B T E src (int (length src)) ssz dst (int (length dst)) dsz cb priv s = (case desc_to_hw_rx B x s1 of
       None \<Rightarrow> None
     | Some (res, s) \<Rightarrow>
         if res \<noteq> 0 then Some (res, s)
         else (case desc_to_hw_tx B x s of
                 None \<Rightarrow> None
               | Some (res, s) \<Rightarrow> if res \<noteq> 0 then Some (res, s) else Some (0, kref_put x s)))"
    by (rule submit_prepared [OF inv grant cb])
  have rings: "aes_rx_ring s1 = aes_rx_ring s" "aes_tx_ring s1 = aes_tx_ring s"
    using dma(1) by (simp_all add: aes_rx_ring_def aes_tx_ring_def)
  have inv1': "aes_rings s1" "krefs_ok s1 (add_mset x (aes_flight s1 + K)) (A + image_mset (sw_call s1) (add_mset x K))"
    and one: "\<forall>y. count (add_mset x K) y \<le> 1" "\<forall>y. count K y \<le> 1"
    using inv1 inv by (simp_all add: aes_inv_def)
  note out = desc_to_hw_outcome [OF inv1' bufs, of B, unfolded rings dma(2), OF ok, folded room_def, folded run]
  then obtain s' where s': "aes_submit B T E src (int (length src)) ssz dst (int (length dst)) dsz cb priv s
      = Some (if room then XST_SUCCESS else XST_FAILURE, s')" "aes_rings s'" "calls_kept s1 s'"
    and k: "krefs_ok s' (aes_flight s' + (if room then K else add_mset x K)) (A + image_mset (sw_call s1) (add_mset x K))"
    by blast
  have "if room then aes_inv s' K (add_mset (cb, priv) A) else aes_inv s' (add_mset x K) A"
    using k call s'(2) aes_invI [OF one(1) s'(3)] aes_invI [OF one(2) s'(3), where A = "add_mset (cb, priv) A"] by (cases room) simp_all
  then show ?thesis
    using s'(1) x by blast
qed

end
