(* ===== verification/Aes_Reach.thy ===== *)
theory Aes_Reach
  imports Aes_Machine
begin

text \<open>
  The AES driver under any interleaving of requests, interrupts, timers, bottom halves and hardware
  activity.
\<close>

section \<open>Interrupts and the hardware\<close>

text \<open>What a step leaves of the request lists and the rings; the device and the scheduling of the
  bottom halves are free.\<close>

definition quiet_step :: "'d aes_state \<Rightarrow> 'd aes_state \<Rightarrow> bool" where
  "quiet_step s s' \<longleftrightarrow> ad_AxiDma (as_dma s') = ad_AxiDma (as_dma s) \<and> as_sw s' = as_sw s
     \<and> ad_hw_head (as_dma s') = ad_hw_head (as_dma s) \<and> ad_desc_head (as_dma s') = ad_desc_head (as_dma s)
     \<and> as_called s' = as_called s
     \<and> (\<forall>r\<in>{aes_tx_ring s, aes_rx_ring s}. \<forall>j<ring_size r.
          XAxiDma_BdGetId (ram (as_world s')) (ring_at r j) = XAxiDma_BdGetId (ram (as_world s)) (ring_at r j))"

lemma quiet_inv:
  assumes inv: "aes_inv s K A" and q: "quiet_step s s'"
  shows "aes_inv s' K A"
proof -
  have rings: "aes_tx_ring s' = aes_tx_ring s" "aes_rx_ring s' = aes_rx_ring s"
    and "RxBdRing (ad_AxiDma (as_dma s')) = RxBdRing (ad_AxiDma (as_dma s))"
    and call: "sw_call s' = sw_call s"
    using q by (simp_all add: quiet_step_def aes_tx_ring_def aes_rx_ring_def sw_call_def fun_eq_iff)
  moreover have "flight (ram (as_world s')) r = flight (ram (as_world s)) r" if "r \<in> {aes_tx_ring s, aes_rx_ring s}" for r
    using inv q that by (intro flight_cong)
      (auto simp: aes_inv_def aes_rings_def ring_idle_def quiet_step_def bd_words_def XAxiDma_BdGetId_def)
  ultimately have "aes_flight s' = aes_flight s" "aes_rings s'"
    using inv by (simp_all add: aes_flight_def aes_inv_def aes_rings_def)
  moreover have same: "as_sw s' = as_sw s" "ad_hw_head (as_dma s') = ad_hw_head (as_dma s)"
    "ad_desc_head (as_dma s') = ad_desc_head (as_dma s)" "as_called s' = as_called s"
    using q by (simp_all add: quiet_step_def)
  moreover have "krefs_ok s' M L = krefs_ok s M L" for M L
    unfolding krefs_ok_def pending_calls_def call same ..
  ultimately show ?thesis
    using inv by (simp add: aes_inv_def call)
qed

lemma quiet_world: "ram w' = ram (as_world s) \<Longrightarrow> quiet_step s (s\<lparr>as_world := w'\<rparr>)"
  by (simp add: quiet_step_def)

lemma quiet_trans: "quiet_step s s' \<Longrightarrow> quiet_step s' s'' \<Longrightarrow> quiet_step s s''"
  by (simp add: quiet_step_def aes_tx_ring_def aes_rx_ring_def)

lemma ram_dump [simp]: "ram (aes_ring_dump B r w) = ram w"
  by (simp add: aes_ring_dump_def Let_def ram_reg)

lemma ram_freeze [simp]: "ram (freeze_regs B reg i n w) = ram w"
  by (induction n arbitrary: i w) (simp_all add: ram_io)

lemma quiet_isr:
  "quiet_step s (snd (aes_tx_isr B s))" "quiet_step s (snd (aes_rx_isr B s))"
  by (auto simp: aes_tx_isr_def aes_rx_isr_def quiet_step_def Let_def split_beta ram_reg
      XAxiDma_mBdRingAckIrq_def XAxiDma_mBdRingIntDisable_def)

lemma quiet_aes_isr: "quiet_step s (snd (aes_isr B s))"
proof -
  let ?w = "snd (XAxiDma_ReadReg B (ChanBase (aes_rx_ring s)) XAXIDMA_SR_OFFSET
    (snd (XAxiDma_ReadReg B (ChanBase (aes_tx_ring s)) XAXIDMA_SR_OFFSET (as_world s))))"
  have w: "quiet_step s (s\<lparr>as_world := ?w\<rparr>)"
    by (rule quiet_world) (simp add: ram_reg)
  show ?thesis
    by (auto simp: aes_isr_def Let_def split_beta intro: w quiet_trans [OF w] quiet_isr quiet_trans [OF quiet_isr(1)])
qed

section \<open>The machine\<close>

text \<open>A run is indexed by the requests refused and the callbacks accepted so far. The hardware may
  change memory as it likes, other than the software words of the descriptors.\<close>

inductive aes_run :: "'d bus \<Rightarrow> 'd aes_state \<Rightarrow> 'd aes_state \<Rightarrow> ptr multiset \<Rightarrow> (ptr \<times> ptr) multiset \<Rightarrow> bool"
  for B s0 where
  run_init: "aes_run B s0 s0 {#} {#}"
| run_accept: "aes_run B s0 s K A \<Longrightarrow> submit_granted E s \<Longrightarrow> cb \<noteq> NULL
    \<Longrightarrow> sg_ok (aes_tx_ring s) (ram (as_world s)) src ssz \<Longrightarrow> sg_ok (aes_rx_ring s) (ram (as_world s)) dst dsz
    \<Longrightarrow> aes_submit B T E src (int (length src)) ssz dst (int (length dst)) dsz cb priv s = Some (0, s')
    \<Longrightarrow> aes_run B s0 s' K (add_mset (cb, priv) A)"
| run_refuse: "aes_run B s0 s K A \<Longrightarrow> submit_granted E s \<Longrightarrow> cb \<noteq> NULL
    \<Longrightarrow> sg_ok (aes_tx_ring s) (ram (as_world s)) src ssz \<Longrightarrow> sg_ok (aes_rx_ring s) (ram (as_world s)) dst dsz
    \<Longrightarrow> aes_submit B T E src (int (length src)) ssz dst (int (length dst)) dsz cb priv s = Some (err, s')
    \<Longrightarrow> err \<noteq> 0 \<Longrightarrow> aes_alloc_desc (se_fresh E) s = Some (x, s1) \<Longrightarrow> aes_run B s0 s' (add_mset x K) A"
| run_early: "aes_run B s0 s K A \<Longrightarrow> \<not> se_dma E \<or> se_map_src E = 0 \<or> se_map_dst E = 0
    \<Longrightarrow> aes_submit B T E src ns ssz dst nd dsz cb priv s = Some (err, s') \<Longrightarrow> aes_run B s0 s' K A"
| run_tx_isr: "aes_run B s0 s K A \<Longrightarrow> aes_tx_isr B s = (ret, s') \<Longrightarrow> aes_run B s0 s' K A"
| run_rx_isr: "aes_run B s0 s K A \<Longrightarrow> aes_rx_isr B s = (ret, s') \<Longrightarrow> aes_run B s0 s' K A"
| run_isr: "aes_run B s0 s K A \<Longrightarrow> aes_isr B s = (ret, s') \<Longrightarrow> aes_run B s0 s' K A"
| run_poll: "aes_run B s0 s K A \<Longrightarrow> aes_run B s0 (aes_poll_isr B T s) K A"
| run_timeout: "aes_run B s0 s K A \<Longrightarrow> aes_run B s0 (aes_timeout B s) K A"
| run_tx_bh: "aes_run B s0 s K A \<Longrightarrow> aes_run B s0 (tx_handle_bh B s) K A"
| run_rx_bh: "aes_run B s0 s K A \<Longrightarrow> aes_run B s0 (rx_handle_bh B s) K A"
| run_hardware: "aes_run B s0 s K A
    \<Longrightarrow> \<forall>r\<in>{aes_tx_ring s, aes_rx_ring s}. \<forall>j<ring_size r.
         XAxiDma_BdGetId (ram w) (ring_at r j) = XAxiDma_BdGetId (ram (as_world s)) (ring_at r j)
    \<Longrightarrow> aes_run B s0 (s\<lparr>as_world := w\<rparr>) K A"

text \<open>A driver at rest.\<close>

definition aes_fresh :: "'d aes_state \<Rightarrow> bool" where
  "aes_fresh s \<longleftrightarrow> aes_rings s \<and> g_hw (groups (aes_tx_ring s)) = [] \<and> g_hw (groups (aes_rx_ring s)) = []
     \<and> ad_hw_head (as_dma s) = [] \<and> as_called s = [] \<and> distinct (ad_desc_head (as_dma s))
     \<and> NULL \<notin> set (ad_desc_head (as_dma s))"

lemma fresh_inv: "aes_fresh s \<Longrightarrow> aes_inv s {#} {#}"
  by (simp add: aes_fresh_def aes_inv_def krefs_ok_def pending_calls_def aes_flight_def flight_none)

lemma aes_run_inv:
  assumes "aes_run B s0 s K A" and "aes_fresh s0"
  shows "aes_inv s K A"
  using assms
proof (induction rule: aes_run.induct)
  case run_init
  then show ?case by (simp add: fresh_inv)
next
  case (run_accept s K A E cb src ssz dst dsz T priv s')
  then show ?case
    using submit_outcome [of s K A E cb src ssz dst dsz B T priv] by (auto split: if_splits)
next
  case (run_refuse s K A E cb src ssz dst dsz T priv err s' x s1)
  then show ?case
    using submit_outcome [of s K A E cb src ssz dst dsz B T priv] by (auto split: if_splits)
next
  case (run_early s K A E T src ns ssz dst nd dsz cb priv err s')
  then show ?case
    by (auto simp: aes_submit_def split: if_splits)
next
  case (run_tx_isr s K A ret s')
  then show ?case
    using quiet_inv [OF _ quiet_isr(1), of s K A B] by simp
next
  case (run_rx_isr s K A ret s')
  then show ?case
    using quiet_inv [OF _ quiet_isr(2), of s K A B] by simp
next
  case (run_isr s K A ret s')
  then show ?case
    using quiet_inv [OF _ quiet_aes_isr, of s K A B] by simp
next
  case (run_poll s K A T)
  have "quiet_step (snd (aes_isr B s)) (aes_poll_isr B T s)"
    by (simp add: aes_poll_isr_def quiet_step_def)
  then show ?case
    using run_poll quiet_inv quiet_aes_isr by blast
next
  case (run_timeout s K A)
  have "quiet_step s (aes_timeout B s)"
    by (simp add: aes_timeout_def aes_freeze_def quiet_step_def)
  then show ?case
    using run_timeout quiet_inv by blast
next
  case (run_tx_bh s K A)
  then show ?case by (simp add: tx_bh_inv)
next
  case (run_rx_bh s K A)
  then show ?case by (simp add: rx_bh_inv)
next
  case (run_hardware s K A w)
  then have "quiet_step s (s\<lparr>as_world := w\<rparr>)"
    by (simp add: quiet_step_def)
  then show ?case
    using run_hardware quiet_inv by blast
qed

section \<open>Callbacks\<close>

text \<open>The accepted requests are those called back and those in flight.\<close>

definition in_flight :: "'d aes_state \<Rightarrow> ptr multiset \<Rightarrow> ptr multiset" where
  "in_flight s K = mset (ad_hw_head (as_dma s)) - K"

lemma refused_listed:
  assumes "aes_inv s K A"
  shows "K \<subseteq># mset (ad_hw_head (as_dma s))"
proof (rule mset_subset_eqI)
  fix x
  have one: "count K x \<le> 1" and listed: "set (ad_hw_head (as_dma s)) = set_mset (aes_flight s + K)"
    using assms by (simp_all add: aes_inv_def krefs_ok_def)
  show "count K x \<le> count (mset (ad_hw_head (as_dma s))) x"
  proof (cases "x \<in># K")
    case True
    then have "x \<in># mset (ad_hw_head (as_dma s))"
      using listed by simp
    then show ?thesis
      using one by (metis count_greater_eq_one_iff order_trans)
  qed (simp add: not_in_iff)
qed

lemma calls_partition:
  assumes "aes_inv s K A"
  shows "A = mset (as_called s) + image_mset (sw_call s) (in_flight s K)"
proof -
  have "mset (ad_hw_head (as_dma s)) = in_flight s K + K"
    using refused_listed [OF assms] by (simp add: in_flight_def)
  then show ?thesis
    using assms by (simp add: aes_inv_def krefs_ok_def pending_calls_def)
qed

lemma in_flight_listed:
  assumes "aes_inv s K A" and "x \<in># in_flight s K"
  shows "x \<in># aes_flight s"
proof -
  have "distinct (ad_hw_head (as_dma s))" "set (ad_hw_head (as_dma s)) = set_mset (aes_flight s + K)"
    using assms(1) by (simp_all add: aes_inv_def krefs_ok_def)
  moreover have "count K x < count (mset (ad_hw_head (as_dma s))) x"
    using assms(2) by (simp add: in_flight_def in_diff_count)
  ultimately have "x \<in> set_mset (aes_flight s + K)" "count K x = 0"
    by (auto simp: distinct_count_atmost_1 split: if_splits)
  then show ?thesis
    by (simp add: count_eq_zero_iff)
qed

lemma nothing_in_flight: "aes_inv s K A \<Longrightarrow> aes_flight s = {#} \<Longrightarrow> mset (as_called s) = A"
  using calls_partition [of s K A] in_flight_listed [of s K A] by (cases "in_flight s K = {#}") auto

section \<open>Completion\<close>

lemma head_simps [simp]:
  "as_tx_head (set_tx_ring r s) = as_tx_head s" "as_rx_head (set_tx_ring r s) = as_rx_head s"
  "as_tx_head (set_rx_ring r s) = as_tx_head s" "as_rx_head (set_rx_ring r s) = as_rx_head s"
  by (simp_all add: set_tx_ring_def set_rx_ring_def)

lemma tx_bh_finishes:
  fixes B :: "'d bus"
  assumes inv: "aes_inv s K A" and queued: "as_tx_head s" and fin: "ring_finished (ram (as_world s)) (aes_tx_ring s)"
  defines "s' \<equiv> tx_handle_bh B s"
  shows "g_hw (groups (aes_tx_ring s')) = [] \<and> aes_rx_ring s' = aes_rx_ring s \<and> as_rx_head s' = as_rx_head s
    \<and> ring_finished (ram (as_world s')) (aes_rx_ring s) = ring_finished (ram (as_world s)) (aes_rx_ring s)"
proof -
  let ?s0 = "s\<lparr>as_tx_head := False\<rparr>"
  obtain r1 s1 where s': "s' = (set_tx_ring r1 s1)\<lparr>as_world :=
      XAxiDma_mBdRingIntEnable B r1 XAXIDMA_IRQ_ALL_MASK (as_world s1)\<rparr>"
    and d: "drained (aes_tx_ring s) ?s0 r1 s1"
    unfolding s'_def by (rule tx_bh_drain [OF inv queued, of B])
  have rings: "ring_inv (aes_tx_ring s)" "ring_inv (aes_rx_ring s)" "rings_apart (aes_tx_ring s) (aes_rx_ring s)"
    "RxBdRing (ad_AxiDma (as_dma s)) \<noteq> []" "ring_size (aes_tx_ring s) \<le> 65536" "ring_size (aes_rx_ring s) \<le> 65536"
    using inv by (simp_all add: aes_inv_def aes_rings_def ring_idle_def)
  have ram: "ram (as_world s') = ram (as_world s1)"
    by (simp add: s' XAxiDma_mBdRingIntEnable_def split_beta ram_reg)
  have same: "ad_AxiDma (as_dma s1) = ad_AxiDma (as_dma s)" "as_rx_head s1 = as_rx_head s"
    and loc: "ring_local (aes_tx_ring s) (ram (as_world s)) (ram (as_world s1))"
    using d by (simp_all add: drained_def taken_back_def same_rest_def)
  have "g_hw (groups r1) = []"
    by (rule finished_empty [where N = 65536]) (use d rings fin in \<open>auto simp: drained_def\<close>)
  moreover have "ring_finished (ram (as_world s')) (aes_rx_ring s) = ring_finished (ram (as_world s)) (aes_rx_ring s)"
    using ring_local_apart [OF loc rings(3)] rings by (intro ring_finished_cong(2)) (simp_all add: ram)
  ultimately show ?thesis
    using same rings(4) by (simp add: s' aes_rx_ring_def [symmetric] head_simps)
       (simp add: aes_rx_ring_def)
qed

lemma rx_bh_finishes:
  fixes B :: "'d bus"
  assumes inv: "aes_inv s K A" and queued: "as_rx_head s" and fin: "ring_finished (ram (as_world s)) (aes_rx_ring s)"
  defines "s' \<equiv> rx_handle_bh B s"
  shows "g_hw (groups (aes_rx_ring s')) = [] \<and> aes_tx_ring s' = aes_tx_ring s \<and> as_tx_head s' = as_tx_head s
    \<and> ring_finished (ram (as_world s')) (aes_tx_ring s) = ring_finished (ram (as_world s)) (aes_tx_ring s)"
proof -
  let ?s0 = "s\<lparr>as_rx_head := False\<rparr>"
  obtain r1 s1 where s': "s' = (set_rx_ring r1 s1)\<lparr>as_world :=
      XAxiDma_mBdRingIntEnable B r1 XAXIDMA_IRQ_ALL_MASK (as_world s1)\<rparr>"
    and d: "drained (aes_rx_ring s) ?s0 r1 s1"
    unfolding s'_def by (rule rx_bh_drain [OF inv queued, of B])
  have rings: "ring_inv (aes_tx_ring s)" "ring_inv (aes_rx_ring s)" "rings_apart (aes_rx_ring s) (aes_tx_ring s)"
    "RxBdRing (ad_AxiDma (as_dma s)) \<noteq> []" "ring_size (aes_tx_ring s) \<le> 65536" "ring_size (aes_rx_ring s) \<le> 65536"
    using inv by (simp_all add: aes_inv_def aes_rings_def ring_idle_def)
  have ram: "ram (as_world s') = ram (as_world s1)"
    by (simp add: s' XAxiDma_mBdRingIntEnable_def split_beta ram_reg)
  have same: "ad_AxiDma (as_dma s1) = ad_AxiDma (as_dma s)" "as_tx_head s1 = as_tx_head s"
    and loc: "ring_local (aes_rx_ring s) (ram (as_world s)) (ram (as_world s1))"
    using d by (simp_all add: drained_def taken_back_def same_rest_def)
  have "g_hw (groups r1) = []"
    by (rule finished_empty [where N = 65536]) (use d rings fin in \<open>auto simp: drained_def\<close>)
  moreover have "ring_finished (ram (as_world s')) (aes_tx_ring s) = ring_finished (ram (as_world s)) (aes_tx_ring s)"
    using ring_local_apart [OF loc rings(3)] rings by (intro ring_finished_cong(2)) (simp_all add: ram)
  ultimately show ?thesis
    using same rings(4) by (simp add: s' aes_tx_ring_def [symmetric] head_simps)
       (simp add: aes_tx_ring_def)
qed


text \<open>With both rings finished and both bottom halves queued, one activation of each calls every
  accepted request back.\<close>

lemma finished_called_back:
  assumes inv: "aes_inv s K A" and heads: "as_tx_head s" "as_rx_head s"
    and fin: "ring_finished (ram (as_world s)) (aes_tx_ring s)" "ring_finished (ram (as_world s)) (aes_rx_ring s)"
  shows "mset (as_called (rx_handle_bh B (tx_handle_bh B s))) = A"
proof -
  let ?s1 = "tx_handle_bh B s"
  note inv1 = tx_bh_inv [OF inv, of B] and tx = tx_bh_finishes [OF inv heads(1) fin(1), of B]
  note inv2 = rx_bh_inv [OF inv1, of B] and rx = rx_bh_finishes [OF inv1, of B]
  have "aes_flight (rx_handle_bh B ?s1) = {#}"
    using tx rx heads fin(2) by (simp add: aes_flight_def flight_none)
  then show ?thesis
    by (rule nothing_in_flight [OF inv2])
qed

end
