(* ===== verification/Ring_Setup.thy ===== *)
theory Ring_Setup
  imports Ring_Client Engine_Props
begin

text \<open>
  Bringing up an engine with one channel each way and its two rings, as both drivers do.
\<close>

lemma created_apart:
  assumes a: "create_args P V 64 n" "create_args P' V' 64 n'"
    and apart: "unat V + 64 * n \<le> unat V' \<or> unat V' + 64 * n' \<le> unat V"
  shows "rings_apart (create_ring r P V 64 n) (create_ring r' P' V' 64 n')"
  unfolding rings_apart_def
proof (intro allI impI)
  fix i j x y
  let ?r = "create_ring r P V 64 n" and ?r' = "create_ring r' P' V' 64 n'"
  assume i: "i < ring_size ?r" and j: "j < ring_size ?r'" and off: "bd_off x" "bd_off y"
  have geo: "FirstBdAddr ?r = V" "FirstBdAddr ?r' = V'" "Separation ?r = 64" "Separation ?r' = 64"
    by (simp_all add: create_ring_def)
  have o: "unat x + 4 \<le> 64" "unat y + 4 \<le> 64"
    using off by (auto simp: bd_off_def)
  have u: "unat (ring_at ?r i + x) = unat V + 64 * i + unat x" "unat (ring_at ?r' j + y) = unat V' + 64 * j + unat y"
    using unat_bd_word [OF create_geom(1) [OF a(1)] i o(1)] unat_bd_word [OF create_geom(1) [OF a(2)] j o(2)] geo
    by simp_all
  have b: "unat V + 64 * n \<le> 4294967296" "unat V' + 64 * n' \<le> 4294967296" "i + 1 \<le> n" "j + 1 \<le> n'"
    using a i j by (simp_all add: create_args_def create_geom)
  show "separate4 (ring_at ?r i + x) (ring_at ?r' j + y)"
    using apart b o by (intro separate4_unat) (unfold u, linarith+)
qed

lemma created_idle:
  assumes "create_args P V 64 n" and "n \<le> 65536" and "MaxTransferLen r = XAXIDMA_MAX_TRANSFER_LEN"
  shows "ring_idle (create_ring r P V 64 n)" "g_hw (groups (create_ring r P V 64 n)) = []"
proof -
  note v = create_view [OF assms(1), of r]
  show "ring_idle (create_ring r P V 64 n)" "g_hw (groups (create_ring r P V 64 n)) = []"
    using view_inv [OF v] view_lengths [OF v] assms create_geom(2) [OF assms(1), of r] by (simp_all add: ring_idle_def create_ring_def)
qed

lemma cfg_instance:
  assumes op: "XAxiDma_CfgInitialize B I (Some C) w = (XST_SUCCESS, I', w')"
    and C: "Cfg_HasMm2S C \<noteq> 0" "Cfg_HasS2Mm C \<noteq> 0" "Cfg_S2MmNumChannels C = 1" "Cfg_Mm2sNumChannels C = 1"
  shows "length (RxBdRing I') = 16" "MaxTransferLen (TxBdRing I') = XAXIDMA_MAX_TRANSFER_LEN"
    "MaxTransferLen (RxBdRing I' ! 0) = XAXIDMA_MAX_TRANSFER_LEN" "HasSg I' = Cfg_HasSg C"
proof -
  obtain I1 w1 where r: "XAxiDma_Reset B (CfgInitialize_setup C) w = (I1, w1)"
    by (metis surj_pair)
  have I': "RxBdRing I' = RxBdRing I1" "TxBdRing I' = TxBdRing I1" "HasSg I' = HasSg I1"
    using op r by (auto simp: XAxiDma_CfgInitialize_def Let_def split: prod.splits if_splits)
  have f: "length (RxBdRing I1) = 16" "(TxBdRing I1)\<lparr>BdaRestart := 0\<rparr> = cfg_tx_ring C"
    "(RxBdRing I1 ! 0)\<lparr>BdaRestart := 0\<rparr> = cfg_rx_ring C" "HasSg I1 = Cfg_HasSg C"
    using cfg_reset_fields [OF C(1,2) _ _ r, of 1] C by simp_all
  have max: "MaxTransferLen (r\<lparr>BdaRestart := 0\<rparr>) = MaxTransferLen r" for r
    by simp
  show "length (RxBdRing I') = 16" "MaxTransferLen (TxBdRing I') = XAXIDMA_MAX_TRANSFER_LEN"
    "MaxTransferLen (RxBdRing I' ! 0) = XAXIDMA_MAX_TRANSFER_LEN" "HasSg I' = Cfg_HasSg C"
    using f(1,4) arg_cong [OF f(2), of MaxTransferLen] arg_cong [OF f(3), of MaxTransferLen]
    by (simp_all add: I' cfg_tx_ring_def cfg_rx_ring_def cfg_max_len_def C)
qed

lemma cfg_status:
  "XAxiDma_CfgInitialize B I (Some C) w = (st, I', w') \<Longrightarrow> st = XST_SUCCESS \<or> st = XST_DMA_ERROR"
  by (auto simp: XAxiDma_CfgInitialize_def Let_def split: prod.splits if_splits)

section \<open>A device that asks for service\<close>

text \<open>A status without error that asks for service.\<close>

definition sts_service :: "u32 \<Rightarrow> bool" where
  "sts_service sts \<longleftrightarrow> sts AND XAXIDMA_ERR_ALL_MASK = 0
     \<and> sts AND (XAXIDMA_IRQ_DELAY_MASK OR XAXIDMA_IRQ_IOC_MASK) \<noteq> 0"

abbreviation (input) service_bus :: "(u32 \<Rightarrow> u32) bus" where "service_bus \<equiv> stuck_bus 0x1000"

lemma service_read [simp]: "fst (XAxiDma_ReadReg service_bus b r w) = 0x1000"
  by (simp add: XAxiDma_ReadReg_def XIo_In32_def stuck_bus_def)

lemma service_start: "AllCnt r \<noteq> 0 \<Longrightarrow> \<exists>r' w'. XAxiDma_BdRingStart service_bus r 0 w = Some (XST_SUCCESS, r', w')"
  by (simp add: XAxiDma_BdRingStart_def XAxiDma_UpdateBdRingCDesc_def XAxiDma_StartBdRingHw_def
      XAxiDma_mBdRingHwIsStarted_def Let_def split_beta)

lemma idle_count: "ring_idle r \<Longrightarrow> AllCnt r \<noteq> 0"
  using ring_geomD(1) [of r] by (auto simp: ring_idle_def ring_inv_def ring_view_def ring_size_def)

lemma idle_lengths: "ring_idle r \<Longrightarrow> length (g_hw (groups r)) + length (g_free (groups r)) = ring_size r"
proof -
  assume idle: "ring_idle r"
  then obtain i q h p f where v: "ring_view r i q h p f"
    by (auto simp: ring_idle_def elim: ring_inv_view)
  then show ?thesis
    using view_lengths [OF v] idle by (auto simp: ring_idle_def ring_view_def)
qed

lemma idle_free: "ring_idle r \<Longrightarrow> g_hw (groups r) = [] \<Longrightarrow> 0 < FreeCnt r"
proof -
  assume idle: "ring_idle r" and hw: "g_hw (groups r) = []"
  then have inv: "ring_inv r" "ring_geom r"
    by (auto simp: ring_idle_def ring_inv_def ring_view_def)
  show "0 < FreeCnt r"
    using idle_lengths [OF idle] hw free_cnt [OF inv(1)] ring_geomD(1) [OF inv(2)] by simp
qed

lemma demo_idle: "ring_idle (demo_ring 4)" "FreeCnt (demo_ring 4) = 4"
  using demo_inv [of 4] demo_groups [of 4] demo_geom(2)
  by (simp_all add: ring_idle_def demo_ring_def create_ring_def zero_ring_def ring_size_def)

end
