(* ===== verification/Aes_Probe.thy ===== *)
theory Aes_Probe
  imports Aes_Reach Ring_Setup
begin

text \<open>
  The probe of the AES driver leaves it at rest, with both rings set up.
\<close>

section \<open>Setting up the rings\<close>

lemma init_channel_ok:
  assumes "create_args P V 64 n"
  shows "\<exists>m'. aes_init_channel tmpl r P V (int n) m = (0, create_ring r P V 64 n, m')"
proof -
  have "0 < n"
    using assms by (simp add: create_args_def)
  then show ?thesis
    by (simp add: aes_init_channel_def create_result [OF assms] XAxiDma_BdRingClone_def Let_def create_ring_def)
qed

text \<open>The memory that the kernel hands out: coherent, aligned and disjoint areas for the two rings and
  distinct objects of the slab cache.\<close>

definition aes_mem_ok :: "aes_mem \<Rightarrow> bool" where
  "aes_mem_ok M \<longleftrightarrow> am_tx_v M \<noteq> NULL \<and> am_rx_v M \<noteq> NULL
     \<and> create_args (am_tx_p M) (am_tx_v M) 64 (nat TX_BD_NUM) \<and> create_args (am_rx_p M) (am_rx_v M) 64 (nat RX_BD_NUM)
     \<and> (unat (am_tx_v M) + 64 * nat TX_BD_NUM \<le> unat (am_rx_v M) \<or> unat (am_rx_v M) + 64 * nat RX_BD_NUM \<le> unat (am_tx_v M))
     \<and> inj_on (am_objs M) {..<nat TX_BD_NUM} \<and> NULL \<notin> am_objs M ` {..<nat TX_BD_NUM}"

lemma desc_init_ok:
  assumes M: "aes_mem_ok M" and max: "MaxTransferLen (aes_tx_ring s) = XAXIDMA_MAX_TRANSFER_LEN"
    "MaxTransferLen (aes_rx_ring s) = XAXIDMA_MAX_TRANSFER_LEN"
    and s: "RxBdRing (ad_AxiDma (as_dma s)) \<noteq> []" "as_called s = []"
  obtains s' where "aes_desc_init M s = (0, s')" and "aes_fresh s'"
proof -
  have args: "create_args (am_tx_p M) (am_tx_v M) 64 (nat 65536)" "create_args (am_rx_p M) (am_rx_v M) 64 (nat 65536)"
    and v: "am_tx_v M \<noteq> NULL" "am_rx_v M \<noteq> NULL"
    and disj: "unat (am_tx_v M) + 64 * nat 65536 \<le> unat (am_rx_v M) \<or> unat (am_rx_v M) + 64 * nat 65536 \<le> unat (am_tx_v M)"
    and objs: "inj_on (am_objs M) {..<nat 65536}" "NULL \<notin> am_objs M ` {..<nat 65536}"
    using M unfolding aes_mem_ok_def by blast+
  define n where "n = nat 65536"
  have n: "65536 = int n"
    by (simp add: n_def)
  let ?t = "create_ring (aes_tx_ring s) (am_tx_p M) (am_tx_v M) 64 n"
  let ?r = "create_ring (aes_rx_ring s) (am_rx_p M) (am_rx_v M) 64 n"
  obtain m1 where m1: "aes_init_channel (am_tmpl M) (aes_tx_ring s) (am_tx_p M) (am_tx_v M) (int n) (ram (as_world s)) = (0, ?t, m1)"
    using init_channel_ok [OF args(1) [folded n_def]] by blast
  obtain m2 where m2: "aes_init_channel (am_tmpl M) (aes_rx_ring s) (am_rx_p M) (am_rx_v M) (int n) m1 = (0, ?r, m2)"
    using init_channel_ok [OF args(2) [folded n_def]] by blast
  define s' where "s' = snd (aes_desc_init M s)"
  note unf = s'_def aes_desc_init_def n Let_def v m1 [unfolded aes_tx_ring_def] m2 [unfolded aes_rx_ring_def XAxiDma_GetRxRing_def, simplified] set_tx_ring_def
    set_rx_ring_def set_RxRing_def XAxiDma_GetRxRing_def aes_tx_ring_def aes_rx_ring_def nat_int
  have s': "aes_desc_init M s = (0, s')" "aes_tx_ring s' = ?t" "aes_rx_ring s' = ?r" "ad_hw_head (as_dma s') = []"
    "RxBdRing (ad_AxiDma (as_dma s')) \<noteq> []" "as_called s' = []" "ad_desc_head (as_dma s') = map (am_objs M) [0..<n]"
    using s by (simp_all add: unf)
  have "rings_apart ?t ?r" "rings_apart ?r ?t"
    using args disj by (auto simp: n_def intro!: created_apart)
  moreover have "distinct (map (am_objs M) [0..<n])" "NULL \<notin> set (map (am_objs M) [0..<n])"
    using objs by (simp_all add: n_def distinct_map lessThan_atLeast0)
  ultimately have "aes_fresh s'"
    using s' created_idle [OF args(1) _ max(1)] created_idle [OF args(2) _ max(2)]
    by (simp add: aes_fresh_def aes_rings_def n_def)
  then show ?thesis
    using that s'(1) by blast
qed

lemma bring_up_ok:
  assumes M: "aes_mem_ok M" and called: "as_called s = []"
    and cfg: "aes_bring_up B M reg s = (err, s')"
  shows "(err = 0 \<and> aes_fresh s' \<or> err = XST_DMA_ERROR)
    \<and> ((\<forall>a d. fst (bus_in32 B a d) AND XAXIDMA_CR_RESET_MASK = 0) \<longrightarrow> err = 0)"
proof -
  let ?w = "XAxiDma_WriteReg B reg 0x30 4 (XAxiDma_WriteReg B reg 0 4 (as_world s))"
  obtain st I w where c: "XAxiDma_CfgInitialize B (ad_AxiDma (as_dma s)) (Some (aes_config reg)) ?w = (st, I, w)"
    by (metis prod_cases3)
  let ?s = "upd_dma (\<lambda>dma. dma\<lparr>ad_AxiDma := I\<rparr>) ((upd_dma (\<lambda>dma. dma\<lparr>ad_reg := reg\<rparr>) s)\<lparr>as_world := w\<rparr>)"
  have run: "aes_bring_up B M reg s = (if st \<noteq> XST_SUCCESS then (st, ?s) else aes_desc_init M ?s)"
    using c by (simp add: aes_bring_up_def Let_def)
  show ?thesis
  proof (cases "st = XST_SUCCESS")
    case True
    note inst = cfg_instance [OF c [unfolded True], simplified aes_config_def, simplified]
    have "RxBdRing (ad_AxiDma (as_dma ?s)) \<noteq> []"
      using inst(1) by auto
    moreover have "MaxTransferLen (aes_tx_ring ?s) = XAXIDMA_MAX_TRANSFER_LEN"
      "MaxTransferLen (aes_rx_ring ?s) = XAXIDMA_MAX_TRANSFER_LEN" "as_called ?s = []"
      using inst called by (simp_all add: aes_tx_ring_def aes_rx_ring_def XAxiDma_GetRxRing_def)
    ultimately obtain s1 where "aes_desc_init M ?s = (0, s1)" "aes_fresh s1"
      by (metis desc_init_ok [OF M])
    then show ?thesis
      using run cfg True by simp
  next
    case False
    then show ?thesis
      using run cfg cfg_status [OF c] cfg_reset_done [where B = B and Config = "aes_config reg" and w = ?w] c
      by (metis prod.collapse prod.inject)
  qed
qed

section \<open>Starting\<close>

lemma fresh_cong:
  assumes "aes_fresh s" and "ad_AxiDma (as_dma s') = ad_AxiDma (as_dma s)"
    and "ad_hw_head (as_dma s') = ad_hw_head (as_dma s)" and "ad_desc_head (as_dma s') = ad_desc_head (as_dma s)"
    and "as_called s' = as_called s"
  shows "aes_fresh s'"
  using assms by (simp add: aes_fresh_def aes_rings_def aes_tx_ring_def aes_rx_ring_def)

lemma set_ring_world:
  "set_tx_ring r (s\<lparr>as_world := w\<rparr>) = (set_tx_ring r s)\<lparr>as_world := w\<rparr>"
  "set_rx_ring r (s\<lparr>as_world := w\<rparr>) = (set_rx_ring r s)\<lparr>as_world := w\<rparr>"
  by (simp_all add: set_tx_ring_def set_rx_ring_def upd_dma_def)

lemma fresh_RunState:
  assumes "aes_fresh s"
  shows "aes_fresh (set_tx_ring ((aes_tx_ring s)\<lparr>RunState := c\<rparr>) s)"
    and "aes_fresh (set_rx_ring ((aes_rx_ring s)\<lparr>RunState := c\<rparr>) s)"
  using assms same_bds_rings(1,2) [OF same_bds_RunState]
  by (simp_all add: aes_fresh_def aes_rings_def ring_idle_def ring_size_def)

lemma start_fresh:
  assumes s: "aes_fresh s" and op: "aes_start B T s = Some (err, s')"
  shows "aes_fresh s'"
proof -
  let ?w = "XAxiDma_mBdRingIntEnable B (aes_tx_ring s) XAXIDMA_IRQ_ALL_MASK
    (XAxiDma_mBdRingIntEnable B (aes_rx_ring s) XAXIDMA_IRQ_ALL_MASK (as_world s))"
  obtain e1 r1 w1 where rx: "XAxiDma_BdRingStart B (aes_rx_ring s) 0 ?w = Some (e1, r1, w1)"
    using op by (auto simp: aes_start_def Let_def split: option.splits)
  let ?s1 = "set_rx_ring r1 (s\<lparr>as_world := w1\<rparr>)"
  have "aes_fresh (set_rx_ring r1 s)"
    using start_ring [OF rx] fresh_RunState(2) [OF s] by auto
  then have s1: "aes_fresh ?s1"
    by (rule fresh_cong) (simp_all add: set_rx_ring_def)
  show ?thesis
  proof (cases "e1 = XST_SUCCESS")
    case False
    then show ?thesis
      using op rx s1 by (simp add: aes_start_def Let_def)
  next
    case True
    obtain e2 r2 w2 where tx: "XAxiDma_BdRingStart B (aes_tx_ring s) 0 w1 = Some (e2, r2, w2)"
      using op rx True by (auto simp: aes_start_def Let_def split: option.splits)
    have "aes_fresh (set_tx_ring r2 ?s1)"
      using start_ring [OF tx] fresh_RunState(1) [OF s1] by auto
    moreover have "ad_AxiDma (as_dma s') = ad_AxiDma (as_dma (set_tx_ring r2 ?s1))"
      "ad_hw_head (as_dma s') = ad_hw_head (as_dma (set_tx_ring r2 ?s1))"
      "ad_desc_head (as_dma s') = ad_desc_head (as_dma (set_tx_ring r2 ?s1))"
      "as_called s' = as_called (set_tx_ring r2 ?s1)"
      using op rx tx True
      by (auto simp: aes_start_def Let_def set_ring_world split: if_splits)
    ultimately show ?thesis
      by (rule fresh_cong)
  qed
qed

text \<open>Both probes, when they succeed, leave the driver at rest.\<close>

lemma bring_up_fresh:
  assumes "aes_bring_up B M reg (new_aes_state w) = (0, s)" and "aes_mem_ok M"
  shows "aes_fresh s"
  using bring_up_ok [OF assms(2) _ assms(1)] by (simp add: new_aes_state_def)

lemma probe_fresh:
  assumes "aes_mem_ok M" and "aes_probe B T P M w = Some (0, Some s)"
  shows "aes_fresh s"
  using assms by (auto simp: aes_probe_def Let_def split: if_splits prod.splits option.splits
      dest!: bring_up_fresh intro: start_fresh)

lemma platform_probe_fresh:
  assumes "aes_mem_ok M" and "aes_platform_probe B T ok M isr self p vd vp w = Some (0, Some s, vp')"
  shows "aes_fresh s"
proof -
  obtain s1 w1 where s1: "aes_bring_up B M (vd_mmio vd) (new_aes_state w) = (0, s1)"
    and start: "aes_start B T (s1\<lparr>as_world := w1\<rparr>) = Some (0, s)"
    using assms(2)
    by (auto simp: aes_platform_probe_def Let_def split: if_splits prod.splits option.splits)
  have "aes_fresh (s1\<lparr>as_world := w1\<rparr>)"
    using bring_up_fresh [OF s1 assms(1)] by (rule fresh_cong) simp_all
  then show ?thesis
    using start by (rule start_fresh)
qed

end
