(* ===== verification/Aes_Props.thy ===== *)
theory Aes_Props
  imports Aes_Probe
begin

text \<open>
  Properties of the AES driver.
\<close>

section \<open>Interrupts reach the bottom halves\<close>

lemma tx_isr_queues:
  assumes "sts_service (fst (XAxiDma_ReadReg B (ChanBase (aes_tx_ring s)) XAXIDMA_SR_OFFSET (as_world s)))"
  shows "as_tx_head (snd (aes_tx_isr B s))" "as_rx_head (snd (aes_tx_isr B s)) = as_rx_head s"
  using assms by (auto simp: aes_tx_isr_def Let_def split_beta sts_service_def)

lemma rx_isr_queues:
  assumes "sts_service (fst (XAxiDma_ReadReg B (ChanBase (aes_rx_ring s)) XAXIDMA_SR_OFFSET (as_world s)))"
  shows "as_rx_head (snd (aes_rx_isr B s))" "as_tx_head (snd (aes_rx_isr B s)) = as_tx_head s"
  using assms by (auto simp: aes_rx_isr_def Let_def split_beta sts_service_def)

lemma isr_memory:
  "ram (as_world (snd (aes_tx_isr B s))) = ram (as_world s)" "ram (as_world (snd (aes_rx_isr B s))) = ram (as_world s)"
  "ad_AxiDma (as_dma (snd (aes_tx_isr B s))) = ad_AxiDma (as_dma s)"
  "ad_AxiDma (as_dma (snd (aes_rx_isr B s))) = ad_AxiDma (as_dma s)"
  by (simp_all add: aes_tx_isr_def aes_rx_isr_def Let_def split_beta ram_reg
      XAxiDma_mBdRingAckIrq_def XAxiDma_mBdRingIntDisable_def)

section \<open>The hardware can always finish\<close>

lemma hardware_can_finish:
  assumes "aes_rings s"
  obtains m where "ring_finished m (aes_tx_ring s)" and "ring_finished m (aes_rx_ring s)"
    and "\<forall>r\<in>{aes_tx_ring s, aes_rx_ring s}. \<forall>j<ring_size r.
      XAxiDma_BdGetId m (ring_at r j) = XAxiDma_BdGetId (ram (as_world s)) (ring_at r j)"
proof -
  let ?t = "aes_tx_ring s" and ?r = "aes_rx_ring s" and ?m = "ram (as_world s)"
  have inv: "ring_inv ?t" "ring_inv ?r" and apart: "rings_apart ?t ?r" "rings_apart ?r ?t"
    using assms by (simp_all add: aes_rings_def ring_idle_def)
  have g: "ring_geom ?t" "ring_geom ?r"
    using inv by (simp_all add: ring_inv_def ring_view_def)
  let ?m1 = "finish_ring ?t (ring_size ?t) ?m"
  let ?m2 = "finish_ring ?r (ring_size ?r) ?m1"
  have tx: "bd_words ?m2 (ring_at ?t j) off = bd_words ?m1 (ring_at ?t j) off" if "j < ring_size ?t" "bd_off off" for j off
    by (rule ring_local_apart [OF finish_ring_local [OF g(2) order_refl] apart(2) that])
  have rx: "bd_words ?m1 (ring_at ?r j) off = bd_words ?m (ring_at ?r j) off" if "j < ring_size ?r" "bd_off off" for j off
    by (rule ring_local_apart [OF finish_ring_local [OF g(1) order_refl] apart(1) that])
  have "ring_finished ?m2 ?t"
    using finish_ring_finished(1) [OF inv(1)] ring_finished_cong(2) [OF inv(1), of ?m2 ?m1] tx by simp
  moreover have "XAxiDma_BdGetId ?m2 (ring_at ?t j) = XAxiDma_BdGetId ?m (ring_at ?t j)" if "j < ring_size ?t" for j
    using tx [OF that, of "0x34"] finish_ring_finished(2) [OF inv(1)] that
    by (simp add: XAxiDma_BdGetId_def bd_words_def bd_off_def)
  moreover have "XAxiDma_BdGetId ?m2 (ring_at ?r j) = XAxiDma_BdGetId ?m (ring_at ?r j)" if "j < ring_size ?r" for j
    using rx [OF that, of "0x34"] finish_ring_finished(2) [OF inv(2)] that
    by (simp add: XAxiDma_BdGetId_def bd_words_def bd_off_def)
  ultimately show ?thesis
    using that [of ?m2] finish_ring_finished(1) [OF inv(2)] by simp
qed

section \<open>A probed driver\<close>

text \<open>A device whose status registers ask for service and whose other bits are zero, and memory for the
  rings and the requests.\<close>

definition demo_mem :: aes_mem where
  "demo_mem = \<lparr>am_tx_v = 0x1000000, am_tx_p = 0x1000000, am_rx_v = 0x2000000, am_rx_p = 0x2000000,
     am_objs = (\<lambda>i. of_nat (i + 1)), am_tmpl = (\<lambda>_. 0)\<rparr>"

definition demo_time :: kernel_time where
  "demo_time = \<lparr>HZ = 100, jiffies = 0, round_jiffies_up = (\<lambda>j. j)\<rparr>"

definition demo_aes_pci :: aes_pci where
  "demo_aes_pci = \<lparr>ap_enable = 0, ap_mask64 = 0, ap_cmask64 = 0, ap_mask32 = 0, ap_cmask32 = 0, ap_regions = 0,
     ap_kzalloc = True, ap_ioremap = 0x80000000, ap_request_irq = 0\<rparr>"

lemma demo_mem_ok: "aes_mem_ok demo_mem"
proof -
  have "inj_on (\<lambda>i. of_nat (i + 1) :: u32) {..<65536}"
    by (rule inj_onI) (simp add: word_of_nat_eq_iff take_bit_eq_mod)
  moreover have "of_nat (i + 1) \<noteq> (0 :: u32)" if "i < 65536" for i
    using that by (simp add: word_of_nat_eq_0_iff nat_dvd_not_less del: of_nat_Suc)
  ultimately show ?thesis
    by (auto simp: aes_mem_ok_def demo_mem_def create_args_def)
qed

lemma demo_probed:
  obtains s where "aes_probe service_bus demo_time demo_aes_pci demo_mem w = Some (0, Some s)"
proof -
  obtain err s where s: "aes_bring_up service_bus demo_mem 0x80010000 (new_aes_state w) = (err, s)"
    by (metis surj_pair)
  have "err = 0" and fresh: "aes_fresh s"
    using bring_up_ok [OF demo_mem_ok _ s] by (auto simp: new_aes_state_def stuck_bus_def)
  have cnt: "AllCnt (aes_rx_ring s) \<noteq> 0" "AllCnt (aes_tx_ring s) \<noteq> 0"
    using fresh idle_count by (auto simp: aes_fresh_def aes_rings_def)
  let ?w = "XAxiDma_mBdRingIntEnable service_bus (aes_tx_ring s) XAXIDMA_IRQ_ALL_MASK
    (XAxiDma_mBdRingIntEnable service_bus (aes_rx_ring s) XAXIDMA_IRQ_ALL_MASK (as_world s))"
  obtain r1 w1 where rx: "XAxiDma_BdRingStart service_bus (aes_rx_ring s) 0 ?w = Some (XST_SUCCESS, r1, w1)"
    using service_start [OF cnt(1)] by blast
  obtain r2 w2 where tx: "XAxiDma_BdRingStart service_bus (aes_tx_ring s) 0 w1 = Some (XST_SUCCESS, r2, w2)"
    using service_start [OF cnt(2)] by blast
  have "\<exists>s'. aes_start service_bus demo_time s = Some (0, s')"
    by (simp add: aes_start_def Let_def rx tx)
  then show ?thesis
    using that s \<open>err = 0\<close> by (auto simp: aes_probe_def aes_dma_mask_def demo_aes_pci_def)
qed

text \<open>One accepted request of 4096 bytes on a driver at rest.\<close>

definition demo_submit :: submit_env where
  "demo_submit = \<lparr>se_dma = True, se_map_src = 1, se_map_dst = 1, se_table_src = True, se_table_dst = True,
     se_fresh = 0x77777770\<rparr>"

abbreviation (input) demo_sg :: "sg_entry list" where
  "demo_sg \<equiv> [\<lparr>sg_dma_address = 0, sg_dma_len = 4096\<rparr>]"

lemma demo_accepted:
  assumes "aes_fresh s"
  obtains s' where "aes_run B s s' {#} {#(0xcb, 5)#}"
proof -
  have idle: "ring_idle r" "g_hw (groups r) = []" if "r \<in> {aes_tx_ring s, aes_rx_ring s}" for r
    using assms that by (auto simp: aes_fresh_def aes_rings_def)
  have ok: "sg_ok r m demo_sg 4096" for r m
    by (simp add: sg_ok_def sg_min_def sg_positive_def addr_refused_def)
  have room: "sg_room r demo_sg 4096" if "r \<in> {aes_tx_ring s, aes_rx_ring s}" for r
    using idle_free [OF idle [OF that]] by (simp add: sg_room_def sg_min_def)
  have "submit_granted demo_submit s"
    using assms by (simp add: submit_granted_def demo_submit_def aes_fresh_def)
  note grant = this
  let ?run = "aes_submit B demo_time demo_submit demo_sg (int (length demo_sg)) 4096 demo_sg (int (length demo_sg)) 4096 0xcb 5 s"
  have "\<exists>s'. ?run = Some (0, s')"
    using submit_outcome [OF fresh_inv [OF assms] grant _ ok ok, of "0xcb" B demo_time 5] room by auto
  then obtain s' where "?run = Some (0, s')"
    by blast
  from run_accept [OF run_init grant _ ok ok this] show ?thesis
    by (intro that) simp
qed

section \<open>Callbacks\<close>



text \<open>C3: when the hardware has completed everything it holds and both channels ask for service, the two
  interrupt handlers followed by the two bottom halves call back every accepted request that was
  still waiting.\<close>

theorem completed_called_back:
  assumes "aes_mem_ok M" and "aes_probe B T P M w = Some (0, Some s0)" and run: "aes_run B s0 s K A"
    and fin: "ring_finished (ram (as_world s)) (aes_tx_ring s)" "ring_finished (ram (as_world s)) (aes_rx_ring s)"
    and tx: "sts_service (fst (XAxiDma_ReadReg B (ChanBase (aes_tx_ring s)) XAXIDMA_SR_OFFSET (as_world s)))"
    and rx: "sts_service (fst (XAxiDma_ReadReg B (ChanBase (aes_rx_ring s)) XAXIDMA_SR_OFFSET
      (as_world (snd (aes_tx_isr B s)))))"
  shows "mset (as_called (rx_handle_bh B (tx_handle_bh B (snd (aes_rx_isr B (snd (aes_tx_isr B s))))))) = A"
proof -
  let ?s1 = "snd (aes_tx_isr B s)"
  let ?s2 = "snd (aes_rx_isr B ?s1)"
  have "aes_inv s K A"
    using aes_run_inv [OF run] probe_fresh [OF assms(1,2)] by simp
  then have "aes_inv ?s2 K A"
    by (intro quiet_inv [OF quiet_inv [OF _ quiet_isr(1)] quiet_isr(2)])
  moreover have rings: "aes_tx_ring ?s1 = aes_tx_ring s" "aes_rx_ring ?s1 = aes_rx_ring s"
    "aes_tx_ring ?s2 = aes_tx_ring s" "aes_rx_ring ?s2 = aes_rx_ring s"
    by (simp_all add: aes_tx_ring_def aes_rx_ring_def isr_memory)
  moreover have "as_tx_head ?s2" "as_rx_head ?s2"
    using tx_isr_queues(1) [OF tx] rx_isr_queues [of B ?s1] rx by (simp_all add: rings)
  ultimately show ?thesis
    using fin by (intro finished_called_back) (simp_all add: isr_memory)
qed

theorem completed_called_back_witness:
  "\<exists>s0 s. aes_probe service_bus demo_time demo_aes_pci demo_mem demo_world = Some (0, Some s0)
    \<and> aes_run service_bus s0 s {#} {#(0xcb, 5)#}
    \<and> mset (as_called (rx_handle_bh service_bus (tx_handle_bh service_bus
        (snd (aes_rx_isr service_bus (snd (aes_tx_isr service_bus s))))))) = {#(0xcb, 5)#}"
proof -
  obtain s0 where p: "aes_probe service_bus demo_time demo_aes_pci demo_mem demo_world = Some (0, Some s0)"
    by (rule demo_probed)
  have fresh: "aes_fresh s0"
    by (rule probe_fresh [OF demo_mem_ok p])
  obtain s where run: "aes_run service_bus s0 s {#} {#(0xcb, 5)#}"
    by (rule demo_accepted [OF fresh])
  have "aes_rings s"
    using aes_run_inv [OF run fresh] by (simp add: aes_inv_def)
  then obtain m where m: "ring_finished m (aes_tx_ring s)" "ring_finished m (aes_rx_ring s)"
    "\<forall>r\<in>{aes_tx_ring s, aes_rx_ring s}. \<forall>j<ring_size r.
      XAxiDma_BdGetId m (ring_at r j) = XAxiDma_BdGetId (ram (as_world s)) (ring_at r j)"
    by (rule hardware_can_finish)
  let ?s = "s\<lparr>as_world := (as_world s)\<lparr>ram := m\<rparr>\<rparr>"
  have run': "aes_run service_bus s0 ?s {#} {#(0xcb, 5)#}"
    using m(3) by (intro run_hardware [OF run]) simp
  have "sts_service 0x1000"
    by (simp add: sts_service_def)
  then show ?thesis
    using p run' m(1,2) completed_called_back [OF demo_mem_ok p run'] by fastforce
qed

section \<open>Submission\<close>

text \<open>C10: handing a scatter list over on a ring with room for it describes exactly the first \<open>sz\<close> bytes of
  the list: one descriptor per piece, in ring order, with the address and length of the piece, the
  request as its identifier and the completed bit cleared; the lengths add up to \<open>sz\<close>, or to the
  whole list if that is shorter.\<close>

theorem submit_describes:
  assumes idle: "ring_idle r" and sg: "sg_ok r (ram w) sgs sz" "sg_room r sgs sz"
  defines "n \<equiv> length (pieces sgs sz)"
  shows "\<exists>r' b' w'. aes_ring_to_hw B (snd (dma_buf_sg_init True b sgs (int (length sgs)) sz)) r x w
      = Some (XST_SUCCESS, r', b', Some (hd (g_free (groups r))), n, w')
    \<and> groups r' = (groups r)\<lparr>g_hw := g_hw (groups r) @ take n (g_free (groups r)), g_free := drop n (g_free (groups r))\<rparr>
    \<and> list_all2 (bd_describes XAXIDMA_MAX_TRANSFER_LEN (ram w') x) (take n (g_free (groups r))) (pieces sgs sz)
    \<and> sum_list (map snd (pieces sgs sz)) = min sz (sg_total sgs)"
proof -
  let ?b = "snd (dma_buf_sg_init True b sgs (int (length sgs)) sz)"
  have r: "ring_inv r" "g_pre (groups r) = []" "MaxTransferLen r = mask 23" "23 \<le> (26 :: nat)"
    using idle by (simp_all add: ring_idle_def mask_eq_exp_minus_1)
  have ps: "(case ?b of DMA_TYPE_SG d \<Rightarrow> pieces (buf_sg d) (buf_sz d) | _ \<Rightarrow> []) = pieces sgs sz"
    using sg_init_full(1) [of sgs sz "int (length sgs)" b] sg_init_full(3) [of sgs sz] sg(1)
    by (simp add: sg_ok_def Let_def)
  have "sum_list (map snd (pieces sgs sz)) = min sz (sg_total sgs)"
    using sg(1) by (simp add: sg_ok_def pieces_sum)
  then show ?thesis
    using ring_to_hw_ok [OF r sg_ready [OF r(1) sg, of b], of B x, unfolded ps, folded n_def]
    by (simp add: mask_eq_exp_minus_1) metis
qed

definition demo_two :: "sg_entry list" where
  "demo_two = [\<lparr>sg_dma_address = 0x1000, sg_dma_len = 4096\<rparr>, \<lparr>sg_dma_address = 0x5000, sg_dma_len = 4096\<rparr>,
     \<lparr>sg_dma_address = 0x7000, sg_dma_len = 4096\<rparr>]"

theorem submit_describes_witness:
  "\<exists>r' b' w'. aes_ring_to_hw service_bus (snd (dma_buf_sg_init True zero_buf demo_two 3 5000)) (demo_ring 4) 0x99
      \<lparr>ram = (\<lambda>_. 0xFF), dev = (\<lambda>_. 0)\<rparr> = Some (XST_SUCCESS, r', b', Some 0x40000000, 2, w')
    \<and> list_all2 (bd_describes XAXIDMA_MAX_TRANSFER_LEN (ram w') 0x99) [0x40000000, 0x40000040]
        [(0x1000, 4096), (0x5000, 904)]"
proof -
  let ?w = "\<lparr>ram = (\<lambda>_. 0xFF), dev = (\<lambda>_. 0 :: u32)\<rparr>"
  have ps: "pieces demo_two 5000 = [(0x1000, 4096), (0x5000, 904)]"
    by (simp add: demo_two_def sg_min_def)
  have free: "g_free (groups (demo_ring 4)) = [0x40000000, 0x40000040, 0x40000080, 0x400000C0]"
    by (simp add: demo_groups upt_rec)
  have len: "int (length demo_two) = 3"
    by (simp add: demo_two_def)
  have "sg_ok (demo_ring 4) (ram ?w) demo_two 5000" "sg_room (demo_ring 4) demo_two 5000"
    by (simp_all add: sg_ok_def sg_room_def ps demo_idle(2) addr_refused_def bd_words_def XAxiDma_BdRead_def load32_def)
      (simp add: demo_two_def sg_positive_def)
  note submit_describes [OF demo_idle(1) this, of service_bus zero_buf "0x99"]
  then show ?thesis
    unfolding ps free len by (auto simp: numeral_2_eq_2)
qed

section \<open>Defects\<close>

text \<open>C32: a request refused for want of room is never given up again. In every later state it is in the
  list of requests with the hardware, holds a reference and is not in the free list; its buffers
  stay mapped and its submitter is not called back.\<close>

theorem refused_never_released:
  assumes "aes_mem_ok M" and "aes_probe B T P M w = Some (0, Some s0)" and "aes_run B s0 s K A" and "x \<in># K"
  shows "x \<in> set (ad_hw_head (as_dma s)) \<and> 0 < sw_kref (as_sw s x) \<and> sw_cb (as_sw s x) \<noteq> NULL
    \<and> x \<notin> set (ad_desc_head (as_dma s)) \<and> mset (as_called s) \<subseteq># A"
proof -
  have inv: "aes_inv s K A"
    using aes_run_inv [OF assms(3)] probe_fresh [OF assms(1,2)] by simp
  have x: "x \<in># aes_flight s + K" "0 < count (aes_flight s + K) x"
    using assms(4) by (simp_all add: trans_less_add2)
  have k: "krefs_ok s (aes_flight s + K) (A + image_mset (sw_call s) K)"
    using inv by (simp add: aes_inv_def)
  then have "sw_kref (as_sw s x) = int (count (aes_flight s + K) x) \<and> sw_cb (as_sw s x) \<noteq> NULL"
    using x(1) unfolding krefs_ok_def by blast
  then have "0 < sw_kref (as_sw s x) \<and> sw_cb (as_sw s x) \<noteq> NULL"
    using x(2) by linarith
  moreover have "mset (as_called s) \<subseteq># A"
    using calls_partition [OF inv] by (metis mset_subset_eq_add_left)
  moreover have "x \<in> set (ad_hw_head (as_dma s))" "x \<notin> set (ad_desc_head (as_dma s))"
    using k x(1) by (auto simp: krefs_ok_def)
  ultimately show ?thesis
    by simp
qed

lemma pieces_ones:
  "pieces (replicate n \<lparr>sg_dma_address = a, sg_dma_len = 1\<rparr>) (int n) = replicate n (a, 1)"
  by (induction n) (simp_all add: sg_min_def)

lemma demo_refused:
  assumes "aes_fresh s"
  obtains s' x where "aes_run B s s' {#x#} {#}"
proof -
  let ?n = "65537 :: nat"
  define ones where "ones = replicate ?n \<lparr>sg_dma_address = 0, sg_dma_len = 1\<rparr>"
  have ps: "pieces ones (int ?n) = replicate ?n (0, 1)"
    unfolding ones_def by (rule pieces_ones)
  have idle: "ring_idle (aes_rx_ring s)"
    using assms by (simp add: aes_fresh_def aes_rings_def)
  have ok: "sg_ok r m ones (int ?n)" for r m
    unfolding sg_ok_def ps by (simp add: addr_refused_def sg_positive_def ones_def list_all_iff)
  obtain i q h p f where v: "ring_view (aes_rx_ring s) i q h p f"
    using idle by (auto simp: ring_idle_def elim: ring_inv_view)
  then have "FreeCnt (aes_rx_ring s) \<le> 65536"
    using idle by (simp add: ring_view_def ring_idle_def)
  then have room: "\<not> sg_room (aes_rx_ring s) ones (int ?n)"
    unfolding sg_room_def ps by simp
  have grant: "submit_granted demo_submit s"
    using assms by (simp add: submit_granted_def demo_submit_def aes_fresh_def)
  obtain x s' where "map_option fst (aes_alloc_desc (se_fresh demo_submit) s) = Some x"
    "aes_submit B demo_time demo_submit ones (int (length ones)) (int ?n) ones (int (length ones)) (int ?n) 0xcb 5 s
      = Some (XST_FAILURE, s')"
    using submit_outcome [OF fresh_inv [OF assms] grant _ ok ok, of "0xcb" B demo_time 5] room by auto
  then show ?thesis
    using run_refuse [OF run_init grant _ ok ok, of "0xcb" B demo_time 5 XST_FAILURE s' x] that by fastforce
qed

theorem refused_never_released_witness:
  "\<exists>s0 s x. aes_probe service_bus demo_time demo_aes_pci demo_mem demo_world = Some (0, Some s0)
    \<and> aes_run service_bus s0 s {#x#} {#} \<and> x \<in> set (ad_hw_head (as_dma s)) \<and> as_called s = []"
proof -
  obtain s0 where p: "aes_probe service_bus demo_time demo_aes_pci demo_mem demo_world = Some (0, Some s0)"
    by (rule demo_probed)
  obtain s x where run: "aes_run service_bus s0 s {#x#} {#}"
    by (rule demo_refused [OF probe_fresh [OF demo_mem_ok p]])
  then show ?thesis
    using p refused_never_released [OF demo_mem_ok p run, of x] by auto
qed

text \<open>C33: the driver sets the engine up without realignment, and ignores the status of
  \<^verbatim>\<open>XAxiDma_BdSetBufAddr\<close>. A piece whose address is not aligned to the bus width is therefore handed over
  with the length and identifier of the request but with the buffer address the descriptor had
  before.\<close>

theorem unaligned_keeps_old_address:
  assumes "ring_geom r" and "i < ring_size r" and "addr_refused (bd_words m (ring_at r i)) a"
  shows "fst (XAxiDma_BdSetBufAddr m (ring_at r i) a) = XST_INVALID_PARAM
    \<and> XAxiDma_BdGetBufAddr (desc_fill_bd r x (ring_at r i) a len m) (ring_at r i) = XAxiDma_BdGetBufAddr m (ring_at r i)
    \<and> XAxiDma_BdGetId (desc_fill_bd r x (ring_at r i) a len m) (ring_at r i) = x"
proof -
  have o: "bd_off 8" "bd_off 0x34"
    by (simp_all add: bd_off_def)
  show ?thesis
    using assms aes_fill.fill_words [OF assms(1,2,2) o(1), of r x "(a, len)" m] aes_fill.fill_words [OF assms(1,2,2) o(2), of r x "(a, len)" m]
    by (simp add: fill_word_def bd_words_def XAxiDma_BdGetBufAddr_def XAxiDma_BdGetId_def XAxiDma_BdSetBufAddr_def
        addr_refused_def Let_def)
qed

theorem unaligned_keeps_old_address_witness:
  "let m = (\<lambda>_. 0x10); b = ring_at (demo_ring 4) 0 in
    addr_refused (bd_words m b) 0x1001
    \<and> XAxiDma_BdGetBufAddr (desc_fill_bd (demo_ring 4) 0x99 b 0x1001 64 m) b = 0x10101010"
proof -
  have "addr_refused (bd_words (\<lambda>_. 0x10) (ring_at (demo_ring 4) 0)) 0x1001"
    by (simp add: addr_refused_def bd_words_def XAxiDma_BdRead_def load32_def)
  then show ?thesis
    using unaligned_keeps_old_address [OF demo_geom(1), of 4 0 "\<lambda>_. 0x10" "0x1001" "0x99" 64]
    by (simp add: demo_geom XAxiDma_BdGetBufAddr_def XAxiDma_BdRead_def load32_def)
qed



text \<open>When the device structure cannot be allocated or the registers cannot be mapped, \<^verbatim>\<open>aes_probe\<close>
  returns the zero left over from \<^verbatim>\<open>pci_request_regions\<close>: it reports success although there is no
  device.\<close>

theorem probe_success_without_device:
  assumes "ap_enable P = 0" and "aes_dma_mask P = 0" and "ap_regions P = 0"
    and "\<not> ap_kzalloc P \<or> ap_ioremap P = NULL"
  shows "aes_probe B T P M w = Some (0, None)"
  using assms by (auto simp: aes_probe_def)

theorem probe_success_without_device_witness:
  "aes_probe regfile demo_time (demo_aes_pci\<lparr>ap_kzalloc := False\<rparr>) demo_mem demo_world = Some (0, None)"
  using probe_success_without_device [of "demo_aes_pci\<lparr>ap_kzalloc := False\<rparr>" regfile demo_time demo_mem demo_world]
  by (simp add: demo_aes_pci_def aes_dma_mask_def)

end
