(* ===== verification/Axitemac.thy ===== *)
theory Axitemac
  imports Axidma_Hw
begin

unbundle bit_operations_syntax

text \<open>
  The Ethernet MAC, \<^verbatim>\<open>linux-drv/axitemac.c\<close>: the reset register and the management interface (MDIO).
\<close>

abbreviation (input) AXI_DMA_REG :: u32 where "AXI_DMA_REG \<equiv> 0x00000"
abbreviation (input) MAC_ADDR_BASE :: u32 where "MAC_ADDR_BASE \<equiv> 0x08000"
abbreviation (input) MDIO_CFG1 :: u32 where "MDIO_CFG1 \<equiv> 0x504"
abbreviation (input) MDIO_TXD :: u32 where "MDIO_TXD \<equiv> 0x508"

text \<open>The loop of \<^verbatim>\<open>mdio_wait\<close>, with \<^verbatim>\<open>retry\<close> as it is before the read.\<close>

fun mdio_wait_loop :: "nat \<Rightarrow> 'd bus \<Rightarrow> u32 \<Rightarrow> 'd world \<Rightarrow> int \<times> 'd world" where
  "mdio_wait_loop 0 B reg w = (- 1, w)"
| "mdio_wait_loop (Suc retry) B reg w =
    (let (res, w) = XAxiDma_ReadReg B (reg + MAC_ADDR_BASE) MDIO_CFG1 w
     in if retry = 0 then (- 1, w)
        else if res AND push_bit 7 1 = 0 then mdio_wait_loop retry B reg w
        else (0, w))"

definition mdio_wait :: "'d bus \<Rightarrow> u32 \<Rightarrow> 'd world \<Rightarrow> int \<times> 'd world" where
  "mdio_wait B reg w = mdio_wait_loop 10000 B reg w"

definition mdio_write_reg :: "'d bus \<Rightarrow> u32 \<Rightarrow> u32 \<Rightarrow> u32 \<Rightarrow> u32 \<Rightarrow> u32 \<Rightarrow> 'd world \<Rightarrow> int \<times> 'd world" where
  "mdio_write_reg B reg prtad devad regad val w =
    (let cr = push_bit 16 devad OR push_bit 24 prtad;
         w = XAxiDma_WriteReg B (reg + MAC_ADDR_BASE) MDIO_TXD regad w;
         w = XAxiDma_WriteReg B (reg + MAC_ADDR_BASE) MDIO_CFG1 (0x0800 OR cr) w;
         (res, w) = mdio_wait B reg w
     in if res \<noteq> 0 then (- 1, w)
        else let
          w = XAxiDma_WriteReg B (reg + MAC_ADDR_BASE) MDIO_TXD val w;
          w = XAxiDma_WriteReg B (reg + MAC_ADDR_BASE) MDIO_CFG1 (0x4800 OR cr) w
        in mdio_wait B reg w)"

definition axitemac_init :: "'d bus \<Rightarrow> u32 \<Rightarrow> 'd world \<Rightarrow> 'd world" where
  "axitemac_init B reg_base w = XAxiDma_WriteReg B (reg_base + 0x1000) 0 1 w"

definition axitemac_exit :: "'d bus \<Rightarrow> u32 \<Rightarrow> 'd world \<Rightarrow> 'd world" where
  "axitemac_exit B reg_base w = XAxiDma_WriteReg B (reg_base + 0x1000) 0 1 w"

definition axitemac_start :: "'d bus \<Rightarrow> u32 \<Rightarrow> 'd world \<Rightarrow> 'd world" where
  "axitemac_start B reg_base w = XAxiDma_WriteReg B (reg_base + 0x1000) 0 0 w"

definition axitemac_stop :: "'d bus \<Rightarrow> u32 \<Rightarrow> 'd world \<Rightarrow> 'd world" where
  "axitemac_stop B reg_base w = XAxiDma_WriteReg B (reg_base + 0x1000) 0 1 w"

lemma ram_axitemac [simp]:
  "ram (axitemac_init B r w) = ram w" "ram (axitemac_exit B r w) = ram w"
  "ram (axitemac_start B r w) = ram w" "ram (axitemac_stop B r w) = ram w"
  by (simp_all add: axitemac_init_def axitemac_exit_def axitemac_start_def axitemac_stop_def ram_reg)

end
