(* ===== verification/Ethdma.thy ===== *)
theory Ethdma
  imports Axitemac Vpci Axidma Kernel
begin

unbundle bit_operations_syntax

text \<open>
  The Ethernet driver, \<^verbatim>\<open>linux-drv/ethdma.c\<close>, for one network device. Socket buffers are objects of the
  network stack: a map from addresses gives what the driver reads and writes of them. Freed and
  delivered buffers and released mappings are logged in order. The queue state, the polling state
  (NAPI) and the timer are modelled by the documented effect of the kernel functions that change
  them. The global list \<^verbatim>\<open>sentQueue\<close> is seen from this device: it is on the list or not.
\<close>

section \<open>State\<close>

abbreviation (input) ETH_TX_BD_NUM :: int where "ETH_TX_BD_NUM \<equiv> 8192"
abbreviation (input) ETH_RX_BD_NUM :: int where "ETH_RX_BD_NUM \<equiv> 8192"
abbreviation (input) EIO :: int where "EIO \<equiv> 5"

datatype ip_summed = CHECKSUM_NONE | CHECKSUM_UNNECESSARY | CHECKSUM_COMPLETE | CHECKSUM_PARTIAL

text \<open>The address fields are what \<^verbatim>\<open>dma_map_single\<close> returns for the data.\<close>

record skb_frag =
  frag_addr :: u32
  frag_size :: u32

record sk_buff =
  skb_data :: u32
  skb_headlen :: u32
  skb_frags :: "skb_frag list"
  skb_ip_summed :: ip_summed
  skb_transport_offset :: u32
  skb_csum_offset :: u32
  skb_len :: u32
  skb_protocol :: u16
  skb_csum :: u32

record net_device_stats =
  rx_packets :: u32
  tx_packets :: u32
  rx_bytes :: u32
  tx_bytes :: u32
  tx_errors :: u32
  tx_dropped :: u32

record net_local =
  lp_reg_base :: u32
  lp_AxiDma :: XAxiDma
  lp_frame_size :: u32
  lp_deferred_skb :: ptr
  lp_stats :: net_device_stats
  lp_tx_bd_v :: ptr
  lp_tx_bd_p :: u32
  lp_tx_bd_size :: int
  lp_rx_bd_v :: ptr
  lp_rx_bd_p :: u32
  lp_rx_bd_size :: int
  lp_tx_hw_csums :: u32
  lp_rx_hw_csums :: u32
  lp_lro_norm :: bool
  lp_xmit :: bool
  lp_napi_sched :: bool
  lp_poll_pending :: bool
  lp_poll_expires :: u32
  nd_stopped :: bool
  nd_up :: bool
  nd_mtu :: u32
  nd_addr :: "u8 list"

record 'd eth_state =
  es_lp :: net_local
  es_skb :: "ptr \<Rightarrow> sk_buff"
  es_freed :: "ptr list"
  es_rcvd :: "ptr list"
  es_unmapped :: "(u32 \<times> u32 \<times> dma_dir) list"
  es_world :: "'d world"

definition upd_lp :: "(net_local \<Rightarrow> net_local) \<Rightarrow> 'd eth_state \<Rightarrow> 'd eth_state" where
  "upd_lp f s = s\<lparr>es_lp := f (es_lp s)\<rparr>"

definition upd_stats :: "(net_device_stats \<Rightarrow> net_device_stats) \<Rightarrow> 'd eth_state \<Rightarrow> 'd eth_state" where
  "upd_stats f = upd_lp (\<lambda>lp. lp\<lparr>lp_stats := f (lp_stats lp)\<rparr>)"

definition upd_ram :: "(memory \<Rightarrow> memory) \<Rightarrow> 'd eth_state \<Rightarrow> 'd eth_state" where
  "upd_ram f s = s\<lparr>es_world := (es_world s)\<lparr>ram := f (ram (es_world s))\<rparr>\<rparr>"

definition eth_tx_ring :: "'d eth_state \<Rightarrow> XAxiDma_BdRing" where
  "eth_tx_ring s = TxBdRing (lp_AxiDma (es_lp s))"

definition eth_rx_ring :: "'d eth_state \<Rightarrow> XAxiDma_BdRing" where
  "eth_rx_ring s = XAxiDma_GetRxRing (lp_AxiDma (es_lp s)) 0"

definition set_eth_tx :: "XAxiDma_BdRing \<Rightarrow> 'd eth_state \<Rightarrow> 'd eth_state" where
  "set_eth_tx r = upd_lp (\<lambda>lp. lp\<lparr>lp_AxiDma := (lp_AxiDma lp)\<lparr>TxBdRing := r\<rparr>\<rparr>)"

definition set_eth_rx :: "XAxiDma_BdRing \<Rightarrow> 'd eth_state \<Rightarrow> 'd eth_state" where
  "set_eth_rx r = upd_lp (\<lambda>lp. lp\<lparr>lp_AxiDma := set_RxRing (lp_AxiDma lp) 0 r\<rparr>)"

text \<open>Kernel functions by their effect on this state.\<close>

definition netif_stop_queue :: "'d eth_state \<Rightarrow> 'd eth_state" where
  "netif_stop_queue = upd_lp (\<lambda>lp. lp\<lparr>nd_stopped := True\<rparr>)"

definition netif_wake_queue :: "'d eth_state \<Rightarrow> 'd eth_state" where
  "netif_wake_queue = upd_lp (\<lambda>lp. lp\<lparr>nd_stopped := False\<rparr>)"

definition dev_kfree_skb :: "ptr \<Rightarrow> 'd eth_state \<Rightarrow> 'd eth_state" where
  "dev_kfree_skb skb s = s\<lparr>es_freed := es_freed s @ [skb]\<rparr>"

definition dma_unmap_single :: "u32 \<Rightarrow> u32 \<Rightarrow> dma_dir \<Rightarrow> 'd eth_state \<Rightarrow> 'd eth_state" where
  "dma_unmap_single addr len dir s = s\<lparr>es_unmapped := es_unmapped s @ [(addr, len, dir)]\<rparr>"

definition napi_enable :: "'d eth_state \<Rightarrow> 'd eth_state" where
  "napi_enable = upd_lp (\<lambda>lp. lp\<lparr>lp_napi_sched := False\<rparr>)"

text \<open>\<^verbatim>\<open>XAxiDma_Reset\<close> of the engine of this device.\<close>

definition eth_dma_reset :: "'d bus \<Rightarrow> 'd eth_state \<Rightarrow> 'd eth_state" where
  "eth_dma_reset B s =
    (let (I, w) = XAxiDma_Reset B (lp_AxiDma (es_lp s)) (es_world s)
     in upd_lp (\<lambda>lp. lp\<lparr>lp_AxiDma := I\<rparr>) (s\<lparr>es_world := w\<rparr>))"

section \<open>Checksum offload\<close>

definition BdCsumEnable :: "memory \<Rightarrow> ptr \<Rightarrow> memory" where
  "BdCsumEnable m BdPtr = XAxiDma_BdWrite m BdPtr XAXIDMA_BD_USR0_OFFSET
     ((XAxiDma_BdRead m BdPtr XAXIDMA_BD_USR0_OFFSET OR 1) AND 0xFFFFFFFF)"

definition BdCsumEnabled :: "memory \<Rightarrow> ptr \<Rightarrow> u32" where
  "BdCsumEnabled m BdPtr = XAxiDma_BdRead m BdPtr XAXIDMA_BD_USR0_OFFSET AND 1"

definition BdCsumDisable :: "memory \<Rightarrow> ptr \<Rightarrow> memory" where
  "BdCsumDisable m BdPtr = XAxiDma_BdWrite m BdPtr XAXIDMA_BD_USR0_OFFSET
     (XAxiDma_BdRead m BdPtr XAXIDMA_BD_USR0_OFFSET AND 0xFFFFFFFC)"

definition BdCsumSetup :: "memory \<Rightarrow> ptr \<Rightarrow> u32 \<Rightarrow> u32 \<Rightarrow> memory" where
  "BdCsumSetup m BdPtr Start Insert = XAxiDma_BdWrite m BdPtr XAXIDMA_BD_USR1_OFFSET (push_bit 16 Start OR Insert)"

definition BdCsumInsert :: "memory \<Rightarrow> ptr \<Rightarrow> u32" where
  "BdCsumInsert m BdPtr = XAxiDma_BdRead m BdPtr XAXIDMA_BD_USR1_OFFSET AND 0xffff"

definition BdCsumSeed :: "memory \<Rightarrow> ptr \<Rightarrow> u32 \<Rightarrow> memory" where
  "BdCsumSeed m BdPtr Seed = XAxiDma_BdWrite m BdPtr XAXIDMA_BD_USR2_OFFSET 0"

definition BdCsumGet :: "memory \<Rightarrow> ptr \<Rightarrow> u32" where
  "BdCsumGet m BdPtr = XAxiDma_BdRead m BdPtr XAXIDMA_BD_USR3_OFFSET AND 0xffff"

definition BdGetRxLen :: "memory \<Rightarrow> ptr \<Rightarrow> u32" where
  "BdGetRxLen m BdPtr = XAxiDma_BdRead m BdPtr XAXIDMA_BD_USR4_OFFSET AND 0xffff"

section \<open>Sending\<close>

text \<open>The descriptor of the header and that of a fragment. The status results of the setters are
  ignored, as in the code.\<close>

definition send_head :: "XAxiDma_BdRing \<Rightarrow> sk_buff \<Rightarrow> ptr \<Rightarrow> ptr \<Rightarrow> memory \<Rightarrow> memory" where
  "send_head RingPtr k skb bd_ptr m =
    (let m = snd (XAxiDma_BdSetBufAddr m bd_ptr (skb_data k));
         m = snd (XAxiDma_BdSetLength m bd_ptr (skb_headlen k) (MaxTransferLen RingPtr));
         m = XAxiDma_BdSetId m bd_ptr skb
     in if skb_ip_summed k = CHECKSUM_PARTIAL then
          let csum_start_off = skb_transport_offset k;
              csum_index_off = csum_start_off + skb_csum_offset k;
              m = BdCsumEnable m bd_ptr
          in BdCsumSetup m bd_ptr csum_start_off csum_index_off
        else BdCsumDisable m bd_ptr)"

definition send_frag :: "XAxiDma_BdRing \<Rightarrow> skb_frag \<Rightarrow> ptr \<Rightarrow> memory \<Rightarrow> memory" where
  "send_frag RingPtr frag bd_ptr m =
    (let m = snd (XAxiDma_BdSetBufAddr m bd_ptr (frag_addr frag));
         m = snd (XAxiDma_BdSetLength m bd_ptr (frag_size frag) (MaxTransferLen RingPtr));
         m = XAxiDma_BdSetId m bd_ptr NULL;
         m = BdCsumDisable m bd_ptr
     in XAxiDma_BdSetCtrl m bd_ptr 0)"

text \<open>The loop over the fragments; the results are memory and \<^verbatim>\<open>last_bd_ptr\<close>.\<close>

fun send_frags :: "XAxiDma_BdRing \<Rightarrow> skb_frag list \<Rightarrow> ptr \<Rightarrow> memory \<Rightarrow> memory \<times> ptr" where
  "send_frags RingPtr [] bd_ptr m = (m, bd_ptr)"
| "send_frags RingPtr (frag # frags) bd_ptr m =
    (let bd_ptr = XAxiDma_mBdRingNext RingPtr bd_ptr
     in send_frags RingPtr frags bd_ptr (send_frag RingPtr frag bd_ptr m))"

text \<open>The memory in which the set is handed over.\<close>

definition send_fill :: "XAxiDma_BdRing \<Rightarrow> sk_buff \<Rightarrow> ptr \<Rightarrow> ptr \<Rightarrow> memory \<Rightarrow> memory" where
  "send_fill RingPtr k skb first_bd_ptr m =
    (let m = send_head RingPtr k skb first_bd_ptr m;
         (m, last_bd_ptr) = send_frags RingPtr (skb_frags k) first_bd_ptr m
     in if first_bd_ptr = last_bd_ptr then XAxiDma_BdSetCtrl m last_bd_ptr XAXIDMA_BD_CTRL_ALL_MASK
        else XAxiDma_BdSetCtrl (XAxiDma_BdSetCtrl m first_bd_ptr XAXIDMA_BD_CTRL_TXSOF_MASK)
               last_bd_ptr XAXIDMA_BD_CTRL_TXEOF_MASK)"

definition axi_DmaSend_internal :: "'d bus \<Rightarrow> ptr \<Rightarrow> 'd eth_state \<Rightarrow> status \<times> 'd eth_state" where
  "axi_DmaSend_internal B skb s =
    (let RingPtr = eth_tx_ring s;
         k = es_skb s skb;
         total_frags = int (length (skb_frags k)) + 1
     in if total_frags < ETH_TX_BD_NUM then
          let (result, RingPtr, bd) = XAxiDma_BdRingAlloc RingPtr total_frags
          in case bd of
               None \<Rightarrow> (result, upd_lp (\<lambda>lp. lp\<lparr>lp_deferred_skb := skb\<rparr>) (netif_stop_queue s))
             | Some first_bd_ptr \<Rightarrow>
                 let m = send_fill RingPtr k skb first_bd_ptr (ram (es_world s));
                     s = (if skb_ip_summed k = CHECKSUM_PARTIAL
                          then upd_lp (\<lambda>lp. lp\<lparr>lp_tx_hw_csums := lp_tx_hw_csums lp + 1\<rparr>) s else s);
                     (result, RingPtr, w) = XAxiDma_BdRingToHw B RingPtr total_frags first_bd_ptr 0
                       ((es_world s)\<lparr>ram := m\<rparr>);
                     s = set_eth_tx RingPtr (s\<lparr>es_world := w\<rparr>)
                 in if result \<noteq> XST_SUCCESS then
                      let s = dev_kfree_skb skb (netif_stop_queue s);
                          s = upd_ram (\<lambda>m. XAxiDma_BdSetId m first_bd_ptr NULL) s;
                          s = upd_stats (\<lambda>st. st\<lparr>tx_dropped := tx_dropped st + 1\<rparr>) s
                      in (XST_FAILURE, eth_dma_reset B s)
                    else (XST_SUCCESS, s)
        else (XST_FAILURE, upd_stats (\<lambda>st. st\<lparr>tx_dropped := tx_dropped st + 1\<rparr>) (dev_kfree_skb skb s)))"

definition axi_send :: "'d bus \<Rightarrow> ptr \<Rightarrow> 'd eth_state \<Rightarrow> int \<times> 'd eth_state" where
  "axi_send B skb s = (0, snd (axi_DmaSend_internal B skb s))"

section \<open>Completed transmissions\<close>

text \<open>One iteration of the inner loop of \<^verbatim>\<open>DmaSendHandlerBH_netdev\<close>, and the loop.\<close>

definition send_clean_bd :: "XAxiDma_BdRing \<Rightarrow> ptr \<Rightarrow> 'd eth_state \<Rightarrow> 'd eth_state" where
  "send_clean_bd RingPtr BdCurPtr s =
    (let m = ram (es_world s);
         len = XAxiDma_BdGetLength m BdCurPtr (MaxTransferLen RingPtr);
         s = dma_unmap_single (XAxiDma_BdGetBufAddr m BdCurPtr) len DMA_TO_DEVICE s;
         skb = XAxiDma_BdGetId m BdCurPtr;
         s = (if skb \<noteq> NULL then dev_kfree_skb skb s else s);
         s = upd_ram (\<lambda>m. XAxiDma_BdSetId m BdCurPtr NULL) s;
         s = upd_stats (\<lambda>st. st\<lparr>tx_bytes := tx_bytes st + len\<rparr>) s
     in if XAxiDma_BdGetCtrl (ram (es_world s)) BdCurPtr AND XAXIDMA_BD_CTRL_TXEOF_MASK \<noteq> 0
        then upd_stats (\<lambda>st. st\<lparr>tx_packets := tx_packets st + 1\<rparr>) s else s)"

fun send_clean_loop :: "nat \<Rightarrow> XAxiDma_BdRing \<Rightarrow> ptr \<Rightarrow> 'd eth_state \<Rightarrow> 'd eth_state" where
  "send_clean_loop 0 RingPtr BdCurPtr s = s"
| "send_clean_loop (Suc bd_processed) RingPtr BdCurPtr s =
    send_clean_loop bd_processed RingPtr (XAxiDma_mBdRingNext RingPtr BdCurPtr) (send_clean_bd RingPtr BdCurPtr s)"

text \<open>The outer loop. The results are whether every set could be freed, the ring, the state and
  \<^verbatim>\<open>bd_processed_save\<close>.\<close>

function send_drain :: "XAxiDma_BdRing \<Rightarrow> int \<Rightarrow> 'd eth_state \<Rightarrow> bool \<times> XAxiDma_BdRing \<times> int \<times> 'd eth_state" where
  "send_drain RingPtr bd_processed_save s =
    (let (bd_processed, RingPtr, BdPtr) = XAxiDma_BdRingFromHw RingPtr ETH_TX_BD_NUM (ram (es_world s)) in
     if bd_processed > 0 then
       let s = send_clean_loop (nat bd_processed) RingPtr BdPtr s;
           (result, RingPtr) = XAxiDma_BdRingFree RingPtr bd_processed BdPtr
       in if result \<noteq> XST_SUCCESS then (False, RingPtr, bd_processed, s)
          else send_drain RingPtr bd_processed s
     else (True, RingPtr, bd_processed_save, s))"
  by pat_completeness auto
termination
proof (relation "measure (\<lambda>(ring, v, s). nat (HwCnt ring))", simp)
  fix ring :: XAxiDma_BdRing and v and s :: "'d eth_state" and x n y r' b s' st res r''
  assume "x = XAxiDma_BdRingFromHw ring 8192 (ram (es_world s))" "(n, y) = x" "(r', b) = y" "0 < n"
    "st = XAxiDma_BdRingFree r' n b" "(res, r'') = st"
  then have "HwCnt r'' = HwCnt r'" "XAxiDma_BdRingFromHw ring 8192 (ram (es_world s)) = (n, r', b)"
    using free_hwcnt [of r' n b] by (auto dest: sym)
  then show "((r'', n, s'), ring, v, s) \<in> measure (\<lambda>(ring, v, s). nat (HwCnt ring))"
    using fromhw_hwcnt [of ring 8192 "ram (es_world s)" n r' b] \<open>0 < n\<close> by simp
qed

declare send_drain.simps [simp del]

text \<open>\<open>save0\<close> is the value of the uninitialised \<^verbatim>\<open>bd_processed_save\<close>, which is read when the loop was not
  entered.\<close>

definition DmaSendHandlerBH_netdev :: "'d bus \<Rightarrow> int \<Rightarrow> 'd eth_state \<Rightarrow> 'd eth_state" where
  "DmaSendHandlerBH_netdev B save0 s =
    (let (freed, RingPtr, bd_processed_save, s) = send_drain (eth_tx_ring s) save0 s;
         s = set_eth_tx RingPtr s
     in if \<not> freed then eth_dma_reset B s
        else let
          skb = lp_deferred_skb (es_lp s);
          (result, s) =
            (if skb \<noteq> NULL \<and> bd_processed_save \<noteq> 0
             then axi_DmaSend_internal B skb (upd_lp (\<lambda>lp. lp\<lparr>lp_deferred_skb := NULL\<rparr>) s)
             else (XST_SUCCESS, s))
        in if result = XST_SUCCESS then netif_wake_queue s else s)"

definition DmaSendHandlerBH :: "'d bus \<Rightarrow> int \<Rightarrow> 'd eth_state \<Rightarrow> 'd eth_state" where
  "DmaSendHandlerBH B save0 s =
    (if \<not> lp_xmit (es_lp s) then s
     else let
       s = upd_lp (\<lambda>lp. lp\<lparr>lp_xmit := False\<rparr>) s;
       s = DmaSendHandlerBH_netdev B save0 s
     in s\<lparr>es_world := XAxiDma_mBdRingIntEnable B (eth_tx_ring s) XAXIDMA_IRQ_ALL_MASK (es_world s)\<rparr>)"

section \<open>Receiving\<close>

text \<open>What the network stack answers: \<open>re_type\<close> gives the protocol and the remaining length that
  \<^verbatim>\<open>eth_type_trans\<close> leaves in a buffer into which \<^verbatim>\<open>skb_put\<close> has put that many bytes, \<open>re_alloc\<close> the results of
  the successive allocations (a null pointer or the end of the list is a failure), \<open>re_map\<close> the
  address under which the data of a buffer is mapped.\<close>

record rx_env =
  re_type :: "ptr \<Rightarrow> u32 \<Rightarrow> u16 \<times> u32"
  re_alloc :: "ptr list"
  re_map :: "ptr \<Rightarrow> u32"

abbreviation (input) ETH_P_IP :: u16 where "ETH_P_IP \<equiv> 0x0800"

text \<open>One iteration of the loop of \<^verbatim>\<open>DmaRecvHandlerBH_netdev\<close>; \<open>None\<close> is the access through a null pointer.\<close>

definition recv_clean_bd :: "rx_env \<Rightarrow> ptr \<Rightarrow> 'd eth_state \<Rightarrow> (ptr \<times> 'd eth_state) option" where
  "recv_clean_bd E BdCurPtr s =
    (let m = ram (es_world s);
         len = BdGetRxLen m BdCurPtr;
         skb = XAxiDma_BdGetId m BdCurPtr;
         s = dma_unmap_single (XAxiDma_BdGetBufAddr m BdCurPtr) (lp_frame_size (es_lp s)) DMA_FROM_DEVICE s;
         s = upd_ram (\<lambda>m. XAxiDma_BdSetId m BdCurPtr NULL) s
     in if skb = NULL then None
        else let
          (protocol, rest) = re_type E skb len;
          k = (es_skb s skb)\<lparr>skb_len := rest, skb_protocol := protocol, skb_ip_summed := CHECKSUM_NONE\<rparr>;
          (k, s) =
            (if protocol = ETH_P_IP \<and> rest > 64
             then (k\<lparr>skb_csum := BdCsumGet (ram (es_world s)) BdCurPtr, skb_ip_summed := CHECKSUM_COMPLETE\<rparr>,
                   upd_lp (\<lambda>lp. lp\<lparr>lp_rx_hw_csums := lp_rx_hw_csums lp + 1\<rparr>) s)
             else (k, s));
          s = s\<lparr>es_skb := (es_skb s)(skb := k)\<rparr>
        in Some (skb, upd_stats (\<lambda>st. st\<lparr>rx_packets := rx_packets st + 1, rx_bytes := rx_bytes st + len\<rparr>) s))"

fun recv_clean_loop ::
  "nat \<Rightarrow> rx_env \<Rightarrow> XAxiDma_BdRing \<Rightarrow> ptr \<Rightarrow> ptr list \<Rightarrow> 'd eth_state \<Rightarrow> (ptr list \<times> 'd eth_state) option" where
  "recv_clean_loop 0 E RingPtr BdCurPtr sk_buff_list s = Some (sk_buff_list, s)"
| "recv_clean_loop (Suc bd_processed) E RingPtr BdCurPtr sk_buff_list s =
    (case recv_clean_bd E BdCurPtr s of
       None \<Rightarrow> None
     | Some (skb, s) \<Rightarrow> recv_clean_loop bd_processed E RingPtr (XAxiDma_mBdRingNext RingPtr BdCurPtr)
                          (sk_buff_list @ [skb]) s)"

definition DmaRecvHandlerBH_netdev :: "'d bus \<Rightarrow> rx_env \<Rightarrow> 'd eth_state \<Rightarrow> (ptr list \<times> 'd eth_state) option" where
  "DmaRecvHandlerBH_netdev B E s =
    (let (bd_processed, RingPtr, BdPtr) = XAxiDma_BdRingFromHw (eth_rx_ring s) ETH_RX_BD_NUM (ram (es_world s)) in
     if bd_processed > 0 then
       case recv_clean_loop (nat bd_processed) E RingPtr BdPtr [] s of
         None \<Rightarrow> None
       | Some (sk_buff_list, s) \<Rightarrow>
           let (result, RingPtr) = XAxiDma_BdRingFree RingPtr bd_processed BdPtr;
               s = set_eth_rx RingPtr s
           in Some (sk_buff_list, if result \<noteq> XST_SUCCESS then eth_dma_reset B s else s)
     else Some ([], set_eth_rx RingPtr s))"

text \<open>The descriptor of a new receive buffer, the loop over the new buffers, and the loop that clears the
  identifiers when the set could not be handed over.\<close>

definition recv_fill :: "XAxiDma_BdRing \<Rightarrow> u32 \<Rightarrow> rx_env \<Rightarrow> ptr \<Rightarrow> ptr \<Rightarrow> memory \<Rightarrow> memory" where
  "recv_fill RingPtr frame_size E new_skb BdCurPtr m =
    (let m = snd (XAxiDma_BdSetBufAddr m BdCurPtr (re_map E new_skb));
         m = snd (XAxiDma_BdSetLength m BdCurPtr frame_size (MaxTransferLen RingPtr));
         m = XAxiDma_BdSetId m BdCurPtr new_skb
     in XAxiDma_BdSetCtrl m BdCurPtr (XAXIDMA_BD_STS_RXSOF_MASK OR XAXIDMA_BD_STS_RXEOF_MASK))"

fun recv_fills :: "XAxiDma_BdRing \<Rightarrow> u32 \<Rightarrow> rx_env \<Rightarrow> ptr list \<Rightarrow> ptr \<Rightarrow> memory \<Rightarrow> memory" where
  "recv_fills RingPtr frame_size E [] BdCurPtr m = m"
| "recv_fills RingPtr frame_size E (new_skb # sk_buff_list) BdCurPtr m =
    recv_fills RingPtr frame_size E sk_buff_list (XAxiDma_mBdRingNext RingPtr BdCurPtr)
      (recv_fill RingPtr frame_size E new_skb BdCurPtr m)"

fun recv_unset_ids :: "nat \<Rightarrow> XAxiDma_BdRing \<Rightarrow> ptr \<Rightarrow> memory \<Rightarrow> memory" where
  "recv_unset_ids 0 RingPtr BdCurPtr m = m"
| "recv_unset_ids (Suc num_sk_buffs) RingPtr BdCurPtr m =
    recv_unset_ids num_sk_buffs RingPtr (XAxiDma_mBdRingNext RingPtr BdCurPtr) (XAxiDma_BdSetId m BdCurPtr NULL)"

definition axi_DmaSetupRecvBuffers :: "'d bus \<Rightarrow> rx_env \<Rightarrow> 'd eth_state \<Rightarrow> 'd eth_state" where
  "axi_DmaSetupRecvBuffers B E s =
    (let RingPtr = eth_rx_ring s;
         free_bd_count = FreeCnt RingPtr;
         sk_buff_list = takeWhile (\<lambda>skb. skb \<noteq> NULL) (take (nat free_bd_count) (re_alloc E));
         num_sk_buffs = int (length sk_buff_list)
     in if num_sk_buffs = 0 then s
        else let (result, RingPtr, bd) = XAxiDma_BdRingAlloc RingPtr num_sk_buffs in
        case bd of
          None \<Rightarrow> eth_dma_reset B (fold dev_kfree_skb sk_buff_list s)
        | Some BdPtr \<Rightarrow>
            let m = recv_fills RingPtr (lp_frame_size (es_lp s)) E sk_buff_list BdPtr (ram (es_world s));
                (result, RingPtr, w) = XAxiDma_BdRingToHw B RingPtr num_sk_buffs BdPtr 0 ((es_world s)\<lparr>ram := m\<rparr>);
                s = set_eth_rx RingPtr (s\<lparr>es_world := w\<rparr>)
            in if result \<noteq> XST_SUCCESS
               then eth_dma_reset B (upd_ram (recv_unset_ids (nat num_sk_buffs) RingPtr BdPtr) s)
               else s)"

text \<open>\<^verbatim>\<open>axi_rx_clean\<close>: each buffer goes to \<^verbatim>\<open>lro_receive_skb\<close> or \<^verbatim>\<open>netif_receive_skb\<close>.\<close>

definition axi_rx_clean :: "'d bus \<Rightarrow> rx_env \<Rightarrow> 'd eth_state \<Rightarrow> (nat \<times> 'd eth_state) option" where
  "axi_rx_clean B E s =
    (case DmaRecvHandlerBH_netdev B E s of
       None \<Rightarrow> None
     | Some (sk_buff_list, s) \<Rightarrow>
         let s = s\<lparr>es_rcvd := es_rcvd s @ sk_buff_list\<rparr>;
             done = length sk_buff_list
         in Some (done, if done \<noteq> 0 then axi_DmaSetupRecvBuffers B E s else s))"

definition axi_poll :: "'d bus \<Rightarrow> rx_env \<Rightarrow> nat \<Rightarrow> 'd eth_state \<Rightarrow> (nat \<times> 'd eth_state) option" where
  "axi_poll B E budget s =
    (case axi_rx_clean B E s of
       None \<Rightarrow> None
     | Some (work_done, s) \<Rightarrow>
         Some (work_done,
           if work_done < budget then
             let s = upd_lp (\<lambda>lp. lp\<lparr>lp_napi_sched := False\<rparr>) s
             in s\<lparr>es_world := XAxiDma_mBdRingIntEnable B (eth_rx_ring s) XAXIDMA_IRQ_ALL_MASK (es_world s)\<rparr>
           else s))"

section \<open>Interrupts\<close>

text \<open>The register reads of \<^verbatim>\<open>eth_ring_dump\<close>, which otherwise prints.\<close>

definition eth_ring_dump :: "'d bus \<Rightarrow> XAxiDma_BdRing \<Rightarrow> 'd world \<Rightarrow> 'd world" where
  "eth_ring_dump B bd_ring w =
    (let w = snd (XAxiDma_ReadReg B (ChanBase bd_ring) XAXIDMA_CR_OFFSET w);
         w = snd (XAxiDma_ReadReg B (ChanBase bd_ring) XAXIDMA_SR_OFFSET w);
         w = snd (XAxiDma_ReadReg B (ChanBase bd_ring) XAXIDMA_CDESC_OFFSET w)
     in snd (XAxiDma_ReadReg B (ChanBase bd_ring) XAXIDMA_TDESC_OFFSET w))"

definition axi_dma_rx_interrupt :: "'d bus \<Rightarrow> 'd eth_state \<Rightarrow> irqreturn_t \<times> 'd eth_state" where
  "axi_dma_rx_interrupt B s =
    (let RingPtr = eth_rx_ring s;
         (irq_status, w) = XAxiDma_ReadReg B (ChanBase RingPtr) XAXIDMA_SR_OFFSET (es_world s)
     in if irq_status AND XAXIDMA_ERR_ALL_MASK \<noteq> 0
        then (IRQ_HANDLED, s\<lparr>es_world := eth_ring_dump B RingPtr (XAxiDma_mBdRingAckIrq B RingPtr irq_status w)\<rparr>)
        else if irq_status AND (XAXIDMA_IRQ_DELAY_MASK OR XAXIDMA_IRQ_IOC_MASK) \<noteq> 0 then
          let w = XAxiDma_mBdRingAckIrq B RingPtr irq_status w
          in if \<not> lp_napi_sched (es_lp s)
             then (IRQ_HANDLED, upd_lp (\<lambda>lp. lp\<lparr>lp_napi_sched := True\<rparr>)
                     (s\<lparr>es_world := XAxiDma_mBdRingIntDisable B RingPtr XAXIDMA_IRQ_ALL_MASK w\<rparr>))
             else (IRQ_HANDLED, s\<lparr>es_world := w\<rparr>)
        else (IRQ_HANDLED, s\<lparr>es_world := w\<rparr>))"

definition axi_dma_tx_interrupt :: "'d bus \<Rightarrow> 'd eth_state \<Rightarrow> irqreturn_t \<times> 'd eth_state" where
  "axi_dma_tx_interrupt B s =
    (let RingPtr = eth_tx_ring s;
         (irq_status, w) = XAxiDma_ReadReg B (ChanBase RingPtr) XAXIDMA_SR_OFFSET (es_world s)
     in if irq_status AND XAXIDMA_ERR_ALL_MASK \<noteq> 0
        then (IRQ_HANDLED, s\<lparr>es_world := eth_ring_dump B RingPtr (XAxiDma_mBdRingAckIrq B RingPtr irq_status w)\<rparr>)
        else if irq_status AND (XAXIDMA_IRQ_DELAY_MASK OR XAXIDMA_IRQ_IOC_MASK) \<noteq> 0 then
          let w = XAxiDma_mBdRingAckIrq B RingPtr irq_status w
          in if \<not> lp_xmit (es_lp s)
             then (IRQ_HANDLED, upd_lp (\<lambda>lp. lp\<lparr>lp_xmit := True\<rparr>)
                     (s\<lparr>es_world := XAxiDma_mBdRingIntDisable B RingPtr XAXIDMA_IRQ_ALL_MASK w\<rparr>))
             else (IRQ_HANDLED, s\<lparr>es_world := w\<rparr>)
        else (IRQ_HANDLED, s\<lparr>es_world := w\<rparr>))"

definition axi_interrupt :: "'d bus \<Rightarrow> 'd eth_state \<Rightarrow> irqreturn_t \<times> 'd eth_state" where
  "axi_interrupt B s =
    (let (IrqStatusTx, w) = XAxiDma_ReadReg B (ChanBase (eth_tx_ring s)) XAXIDMA_SR_OFFSET (es_world s);
         (IrqStatusRx, w) = XAxiDma_ReadReg B (ChanBase (eth_rx_ring s)) XAXIDMA_SR_OFFSET w;
         s = s\<lparr>es_world := w\<rparr>
     in if (IrqStatusTx OR IrqStatusRx) AND XAXIDMA_IRQ_ALL_MASK = 0 then (IRQ_NONE, s)
        else let
          s = (if IrqStatusTx AND XAXIDMA_IRQ_ALL_MASK \<noteq> 0 then snd (axi_dma_tx_interrupt B s) else s);
          s = (if IrqStatusRx AND XAXIDMA_IRQ_ALL_MASK \<noteq> 0 then snd (axi_dma_rx_interrupt B s) else s)
        in (IRQ_HANDLED, s))"

definition axi_poll_isr :: "'d bus \<Rightarrow> kernel_time \<Rightarrow> 'd eth_state \<Rightarrow> 'd eth_state" where
  "axi_poll_isr B T s =
    upd_lp (\<lambda>lp. lp\<lparr>lp_poll_expires := jiffies T + HZ T, lp_poll_pending := True\<rparr>) (snd (axi_interrupt B s))"

section \<open>Reset\<close>

definition axi_reset :: "'d bus \<Rightarrow> 'd eth_state \<Rightarrow> 'd eth_state" where
  "axi_reset B s =
    (let s = netif_stop_queue s;
         ((RxThreshold, RxWaitBound), w) = XAxiDma_BdRingGetCoalesce B (eth_rx_ring s) (es_world s);
         ((TxThreshold, TxWaitBound), w) = XAxiDma_BdRingGetCoalesce B (eth_tx_ring s) w;
         s = eth_dma_reset B (s\<lparr>es_world := w\<rparr>);
         (TimeOut, w) = CfgInitialize_wait 500 B (lp_AxiDma (es_lp s)) (es_world s);
         s = s\<lparr>es_world := w\<rparr>
     in if TimeOut = 0 then s
        else let
          w = snd (XAxiDma_BdRingSetCoalesce B (eth_rx_ring s) RxThreshold RxWaitBound w);
          w = snd (XAxiDma_BdRingSetCoalesce B (eth_tx_ring s) TxThreshold TxWaitBound w);
          w = XAxiDma_mBdRingIntEnable B (eth_rx_ring s) XAXIDMA_IRQ_ALL_MASK w;
          w = XAxiDma_mBdRingIntEnable B (eth_tx_ring s) XAXIDMA_IRQ_ALL_MASK w;
          skb = lp_deferred_skb (es_lp s);
          s = (if skb \<noteq> NULL
               then upd_stats (\<lambda>st. st\<lparr>tx_errors := tx_errors st + 1\<rparr>)
                      (upd_lp (\<lambda>lp. lp\<lparr>lp_deferred_skb := NULL\<rparr>) (dev_kfree_skb skb s))
               else s);
          s = s\<lparr>es_world := axitemac_start B (lp_reg_base (es_lp s)) w\<rparr>
        in napi_enable (netif_wake_queue s))"

definition axi_tx_timeout :: "'d bus \<Rightarrow> 'd eth_state \<Rightarrow> 'd eth_state" where
  "axi_tx_timeout B s = axi_reset B (upd_stats (\<lambda>st. st\<lparr>tx_errors := tx_errors st + 1\<rparr>) s)"

section \<open>Opening and closing\<close>

text \<open>On the virtual bus, for slot \<open>p\<close> of the card; \<open>isr\<close> are the addresses of the two handlers and \<open>self\<close> that
  of the network device.\<close>

definition axi_irq_setup ::
  "'d bus \<Rightarrow> ptr \<times> ptr \<Rightarrow> ptr \<Rightarrow> nat \<Rightarrow> virt_device \<Rightarrow> vpci_device \<Rightarrow> 'd world \<Rightarrow> int \<times> vpci_device \<times> 'd world" where
  "axi_irq_setup B isr self p vd vp w =
    (let (res0, vp, w) = vpci_request_irq B vp p vd 0 (fst isr) self w;
         vd = (case vp_vd vp ! p of None \<Rightarrow> vd | Some vd \<Rightarrow> vd);
         (res1, vp, w) = vpci_request_irq B vp p vd 1 (snd isr) self w
     in (res0 OR res1, vp, w))"

definition axi_irq_free ::
  "'d bus \<Rightarrow> nat \<Rightarrow> virt_device \<Rightarrow> vpci_device \<Rightarrow> 'd world \<Rightarrow> vpci_device \<times> 'd world" where
  "axi_irq_free B p vd vp w =
    (let (vp, w) = vpci_free_irq B vp p vd 0 w;
         vd = (case vp_vd vp ! p of None \<Rightarrow> vd | Some vd \<Rightarrow> vd)
     in vpci_free_irq B vp p vd 1 w)"

text \<open>\<open>None\<close> is a start that does not return.\<close>

definition axi_open ::
  "'d bus \<Rightarrow> kernel_time \<Rightarrow> ptr \<times> ptr \<Rightarrow> ptr \<Rightarrow> nat \<Rightarrow> virt_device \<Rightarrow> vpci_device \<Rightarrow> 'd eth_state
    \<Rightarrow> (int \<times> vpci_device \<times> 'd eth_state) option" where
  "axi_open B T isr self p vd vp s =
    (let s = upd_lp (\<lambda>lp. lp\<lparr>lp_xmit := False\<rparr>) (netif_stop_queue s);
         w = axitemac_start B (lp_reg_base (es_lp s)) (es_world s);
         (res, vp, w) = axi_irq_setup B isr self p vd vp w
     in case XAxiDma_BdRingStart B (eth_tx_ring s) 0 w of
          None \<Rightarrow> None
        | Some (res, ring, w) \<Rightarrow>
            let s = set_eth_tx ring (s\<lparr>es_world := w\<rparr>) in
            if res = XST_FAILURE then Some (- EIO, vp, s)
            else (case XAxiDma_BdRingStart B (eth_rx_ring s) 0 w of
                    None \<Rightarrow> None
                  | Some (res, ring, w) \<Rightarrow>
                      let s = set_eth_rx ring (s\<lparr>es_world := w\<rparr>) in
                      if res = XST_FAILURE then Some (- EIO, vp, s)
                      else let s = napi_enable (netif_wake_queue s)
                      in Some (0, vp, upd_lp (\<lambda>lp. lp\<lparr>lp_poll_expires := jiffies T + HZ T, lp_poll_pending := True\<rparr>) s)))"

definition eth_AxiDma_Stop :: "'d bus \<Rightarrow> u32 \<Rightarrow> 'd world \<Rightarrow> 'd world" where
  "eth_AxiDma_Stop B BaseAddress w =
    (let (v, w) = XAxiDma_ReadReg B BaseAddress (XAXIDMA_TX_OFFSET + XAXIDMA_CR_OFFSET) w;
         w = XAxiDma_WriteReg B BaseAddress (XAXIDMA_TX_OFFSET + XAXIDMA_CR_OFFSET) (v AND NOT XAXIDMA_CR_RUNSTOP_MASK) w;
         (v, w) = XAxiDma_ReadReg B BaseAddress (XAXIDMA_RX_OFFSET + XAXIDMA_CR_OFFSET) w
     in XAxiDma_WriteReg B BaseAddress (XAXIDMA_RX_OFFSET + XAXIDMA_CR_OFFSET) (v AND NOT XAXIDMA_CR_RUNSTOP_MASK) w)"

definition axi_close ::
  "'d bus \<Rightarrow> nat \<Rightarrow> virt_device \<Rightarrow> vpci_device \<Rightarrow> 'd eth_state \<Rightarrow> vpci_device \<times> 'd eth_state" where
  "axi_close B p vd vp s =
    (let s = netif_stop_queue s;
         w = eth_AxiDma_Stop B (lp_reg_base (es_lp s) + AXI_DMA_REG) (es_world s);
         s = upd_lp (\<lambda>lp. lp\<lparr>lp_poll_pending := False\<rparr>) s;
         w = axitemac_stop B (lp_reg_base (es_lp s)) w;
         (vp, w) = axi_irq_free B p vd vp w
     in (vp, upd_lp (\<lambda>lp. lp\<lparr>lp_napi_sched := True, lp_xmit := False\<rparr>) (s\<lparr>es_world := w\<rparr>)))"

section \<open>Setting up and tearing down\<close>

definition AxiDma_Config :: "u32 \<Rightarrow> XAxiDma_Config" where
  "AxiDma_Config reg_base = \<lparr>Cfg_DeviceId = 0xe001, Cfg_BaseAddr = reg_base, Cfg_HasStsCntrlStrm = 1, Cfg_HasMm2S = 1,
     Cfg_HasMm2SDRE = 1, Cfg_Mm2SDataWidth = 64, Cfg_HasS2Mm = 1, Cfg_HasS2MmDRE = 1,
     Cfg_S2MmDataWidth = 64, Cfg_HasSg = 1, Cfg_Mm2sNumChannels = 1, Cfg_S2MmNumChannels = 1\<rparr>"

text \<open>The coherent memory that \<^verbatim>\<open>descriptor_init\<close> obtains.\<close>

record eth_mem =
  em_tx_v :: ptr
  em_tx_p :: u32
  em_rx_v :: ptr
  em_rx_p :: u32

definition descriptor_init :: "'d bus \<Rightarrow> eth_mem \<Rightarrow> rx_env \<Rightarrow> 'd eth_state \<Rightarrow> int \<times> 'd eth_state" where
  "descriptor_init B M E s =
    (let sendsize = XAxiDma_mBdRingMemCalc XAXIDMA_BD_MINIMUM_ALIGNMENT ETH_TX_BD_NUM;
         recvsize = XAxiDma_mBdRingMemCalc XAXIDMA_BD_MINIMUM_ALIGNMENT ETH_RX_BD_NUM;
         s = upd_lp (\<lambda>lp. lp\<lparr>lp_tx_bd_v := em_tx_v M, lp_tx_bd_p := em_tx_p M, lp_tx_bd_size := sendsize,
               lp_rx_bd_v := em_rx_v M, lp_rx_bd_p := em_rx_p M, lp_rx_bd_size := recvsize\<rparr>) s;
         (result, ring, m) = XAxiDma_BdRingCreate (eth_tx_ring s) (em_tx_p M) (em_tx_v M)
           XAXIDMA_BD_MINIMUM_ALIGNMENT ETH_TX_BD_NUM (ram (es_world s));
         s = set_eth_tx ring (upd_ram (\<lambda>_. m) s)
     in if result \<noteq> XST_SUCCESS then (- EIO, s)
        else let
          (result, ring, m) = XAxiDma_BdRingCreate (eth_rx_ring s) (em_rx_p M) (em_rx_v M)
            XAXIDMA_BD_MINIMUM_ALIGNMENT ETH_RX_BD_NUM (ram (es_world s));
          s = set_eth_rx ring (upd_ram (\<lambda>_. m) s)
        in if result \<noteq> XST_SUCCESS then (- EIO, s)
           else (XST_SUCCESS, axi_DmaSetupRecvBuffers B E s))"

text \<open>The two loops of \<^verbatim>\<open>free_descriptor_skb\<close>; the identifiers stay in the descriptors.\<close>

definition free_bd_skb :: "(ptr \<Rightarrow> u32) \<Rightarrow> dma_dir \<Rightarrow> ptr \<Rightarrow> 'd eth_state \<Rightarrow> 'd eth_state" where
  "free_bd_skb len dir BdPtr s =
    (let m = ram (es_world s); skb = XAxiDma_BdGetId m BdPtr
     in if skb \<noteq> NULL
        then dev_kfree_skb skb (dma_unmap_single (XAxiDma_BdGetBufAddr m BdPtr) (len BdPtr) dir s)
        else s)"

fun free_skb_loop :: "nat \<Rightarrow> XAxiDma_BdRing \<Rightarrow> (ptr \<Rightarrow> u32) \<Rightarrow> dma_dir \<Rightarrow> ptr \<Rightarrow> 'd eth_state \<Rightarrow> 'd eth_state" where
  "free_skb_loop 0 RingPtr len dir BdPtr s = s"
| "free_skb_loop (Suc n) RingPtr len dir BdPtr s =
    free_skb_loop n RingPtr len dir (XAxiDma_mBdRingNext RingPtr BdPtr) (free_bd_skb len dir BdPtr s)"

definition free_descriptor_skb :: "'d eth_state \<Rightarrow> 'd eth_state" where
  "free_descriptor_skb s =
    (let rx = eth_rx_ring s; tx = eth_tx_ring s;
         s = free_skb_loop (nat ETH_RX_BD_NUM) rx (\<lambda>_. lp_frame_size (es_lp s)) DMA_FROM_DEVICE (FirstBdAddr rx) s
     in free_skb_loop (nat ETH_TX_BD_NUM) tx (\<lambda>b. XAxiDma_BdGetLength (ram (es_world s)) b (MaxTransferLen tx))
          DMA_TO_DEVICE (FirstBdAddr tx) s)"

text \<open>\<^verbatim>\<open>axi_remove_ndev\<close> up to the calls that release kernel resources.\<close>

definition axi_remove_ndev :: "'d bus \<Rightarrow> 'd eth_state \<Rightarrow> 'd eth_state" where
  "axi_remove_ndev B s =
    (let w = XAxiDma_mBdRingIntDisable B (eth_rx_ring s) XAXIDMA_IRQ_ALL_MASK (es_world s);
         w = XAxiDma_mBdRingIntDisable B (eth_tx_ring s) XAXIDMA_IRQ_ALL_MASK w;
         s = upd_lp (\<lambda>lp. lp\<lparr>lp_poll_pending := False\<rparr>) s;
         w = axitemac_stop B (lp_reg_base (es_lp s)) w;
         w = axitemac_exit B (lp_reg_base (es_lp s)) w;
         w = eth_AxiDma_Stop B (lp_reg_base (es_lp s) + AXI_DMA_REG) w
     in free_descriptor_skb (s\<lparr>es_world := w\<rparr>))"

text \<open>The decision of \<^verbatim>\<open>axi_get_skb_header\<close>; \<open>ip\<close> are protocol, header length and total length of the IP header,
  \<open>tcp_len\<close> is the length of the TCP header behind it. The result on success is \<^verbatim>\<open>*hdr_flags\<close>.\<close>

definition axi_get_skb_header :: "sk_buff \<Rightarrow> u8 \<times> u32 \<times> u16 \<Rightarrow> u32 \<Rightarrow> int" where
  "axi_get_skb_header k ip tcp_len =
    (case ip of (protocol, ip_len, tot_len) \<Rightarrow>
     if skb_protocol k \<noteq> ETH_P_IP then - 1
     else if skb_ip_summed k \<noteq> CHECKSUM_COMPLETE then - 1
     else if protocol \<noteq> 6 then - 1
     else if ucast tot_len < ip_len + tcp_len then - 1
     else 0)"

text \<open>\<open>valid\<close> and \<open>rand\<close> are \<^verbatim>\<open>is_valid_ether_addr\<close> and what \<^verbatim>\<open>random_ether_addr\<close> gives; the register writes of
  the function are compiled out.\<close>

definition axi_set_mac_address :: "(u8 list \<Rightarrow> bool) \<Rightarrow> u8 list \<Rightarrow> u8 list option \<Rightarrow> 'd eth_state \<Rightarrow> 'd eth_state" where
  "axi_set_mac_address valid rand address s =
    (if nd_up (es_lp s) then s
     else let
       s = (case address of None \<Rightarrow> s | Some a \<Rightarrow> upd_lp (\<lambda>lp. lp\<lparr>nd_addr := take 6 a\<rparr>) s)
     in if \<not> valid (nd_addr (es_lp s)) then upd_lp (\<lambda>lp. lp\<lparr>nd_addr := rand\<rparr>) s else s)"

abbreviation (input) XTE_JUMBO_MTU :: u32 where "XTE_JUMBO_MTU \<equiv> 8982"
abbreviation (input) XTE_HDR_SIZE :: u32 where "XTE_HDR_SIZE \<equiv> 14"
abbreviation (input) XTE_TRL_SIZE :: u32 where "XTE_TRL_SIZE \<equiv> 4"

text \<open>What the kernel answers during the probes.\<close>

record eth_pci =
  ep_alloc :: bool
  ep_enable :: int
  ep_regions :: int
  ep_mask64 :: int
  ep_cmask64 :: int
  ep_mask32 :: int
  ep_cmask32 :: int
  ep_ioremap :: ptr
  ep_register :: int
  ep_valid :: "u8 list \<Rightarrow> bool"
  ep_rand :: "u8 list"

definition eth_probe_common ::
  "'d bus \<Rightarrow> eth_pci \<Rightarrow> eth_mem \<Rightarrow> rx_env \<Rightarrow> 'd eth_state \<Rightarrow> int \<times> 'd eth_state" where
  "eth_probe_common B P M E s =
    (let s = upd_lp (\<lambda>lp. if nd_mtu lp > XTE_JUMBO_MTU then lp\<lparr>nd_mtu := XTE_JUMBO_MTU\<rparr> else lp) s;
         s = upd_lp (\<lambda>lp. lp\<lparr>lp_frame_size := nd_mtu lp + XTE_HDR_SIZE + XTE_TRL_SIZE, lp_lro_norm := False\<rparr>) s;
         w = axitemac_init B (lp_reg_base (es_lp s)) (es_world s);
         w = axitemac_stop B (lp_reg_base (es_lp s)) w;
         s = axi_set_mac_address (ep_valid P) (ep_rand P) None s;
         (err, I, w) = XAxiDma_CfgInitialize B (lp_AxiDma (es_lp s))
           (Some (AxiDma_Config (lp_reg_base (es_lp s) + AXI_DMA_REG))) w;
         s = upd_lp (\<lambda>lp. lp\<lparr>lp_AxiDma := I\<rparr>) (s\<lparr>es_world := w\<rparr>)
     in if err \<noteq> XST_SUCCESS then (- 11, s)
        else if HasSg (lp_AxiDma (es_lp s)) = 0 then (- 2, s)
        else let (err, s) = descriptor_init B M E s in
        if err \<noteq> XST_SUCCESS then (- 1, s)
        else let
          w = snd (XAxiDma_BdRingSetCoalesce B (eth_tx_ring s) 24 254 (es_world s));
          w = XAxiDma_mBdRingIntEnable B (eth_tx_ring s) XAXIDMA_IRQ_ALL_MASK w;
          w = snd (XAxiDma_BdRingSetCoalesce B (eth_rx_ring s) 1 254 w);
          w = XAxiDma_mBdRingIntEnable B (eth_rx_ring s) XAXIDMA_IRQ_ALL_MASK w;
          s = upd_lp (\<lambda>lp. lp\<lparr>lp_lro_norm := True, lp_tx_hw_csums := 0, lp_rx_hw_csums := 0\<rparr>) (s\<lparr>es_world := w\<rparr>)
        in if ep_register P \<noteq> 0 then (- 1, s) else (0, s))"

text \<open>\<^verbatim>\<open>axi_probe\<close>; \<open>s\<close> is the zeroed private data with the defaults of \<^verbatim>\<open>alloc_etherdev\<close>. The second component says
  whether there is a device afterwards. Every error but a failed \<^verbatim>\<open>pci_enable_device\<close> removes it again, also
  before the registers are mapped and the engine is initialised.\<close>

definition axi_probe :: "'d bus \<Rightarrow> eth_pci \<Rightarrow> eth_mem \<Rightarrow> rx_env \<Rightarrow> 'd eth_state \<Rightarrow> status \<times> bool \<times> 'd eth_state" where
  "axi_probe B P M E s =
    (if \<not> ep_alloc P then (XST_FAILURE, False, s)
     else if ep_enable P \<noteq> 0 then (ep_enable P, True, s)
     else if ep_regions P \<noteq> 0 then (XST_FAILURE, False, axi_remove_ndev B s)
     else if (if ep_mask64 P = 0 then ep_cmask64 P else if ep_mask32 P = 0 then ep_cmask32 P else ep_mask32 P) \<noteq> 0
     then (XST_FAILURE, False, axi_remove_ndev B s)
     else if ep_ioremap P = NULL then (XST_FAILURE, False, axi_remove_ndev B s)
     else let (err, s) = eth_probe_common B P M E (upd_lp (\<lambda>lp. lp\<lparr>lp_reg_base := ep_ioremap P + 0x10000\<rparr>) s)
     in if err \<noteq> 0 then (XST_FAILURE, False, axi_remove_ndev B s) else (XST_SUCCESS, True, s))"

definition eth_probe ::
  "'d bus \<Rightarrow> eth_pci \<Rightarrow> eth_mem \<Rightarrow> rx_env \<Rightarrow> virt_device \<Rightarrow> 'd eth_state \<Rightarrow> int \<times> bool \<times> 'd eth_state" where
  "eth_probe B P M E vd s =
    (if \<not> ep_alloc P then (- 1, False, s)
     else let s = upd_lp (\<lambda>lp. lp\<lparr>lp_reg_base := vd_mmio vd\<rparr>) s
     in if lp_reg_base (es_lp s) = NULL then (- 1, False, axi_remove_ndev B s)
        else let (err, s) = eth_probe_common B P M E s
        in if err \<noteq> 0 then (- 1, False, axi_remove_ndev B s) else (0, True, s))"

end
