(* ===== verification/Eth_Send.thy ===== *)
theory Eth_Send
  imports Ethdma Ring_Client
begin

unbundle bit_operations_syntax

text \<open>
  The descriptors that the Ethernet driver fills, on both rings: a frame to send becomes one
  descriptor for its header and one per fragment, a receive buffer becomes one descriptor.
\<close>

section \<open>Filling one descriptor\<close>

text \<open>The words of the descriptor of a header, of a fragment, and of a receive buffer.\<close>

definition head_word :: "u32 \<Rightarrow> sk_buff \<times> ptr \<Rightarrow> (u32 \<Rightarrow> u32) \<Rightarrow> u32 \<Rightarrow> u32" where
  "head_word lmax p old off =
    (let k = fst p; partial = (skb_ip_summed k = CHECKSUM_PARTIAL) in
     if off = 8 then (if addr_refused old (skb_data k) then old 8 else skb_data k)
     else if off = 0x18 then len_word lmax (old 0x18) (skb_headlen k)
     else if off = 0x34 then snd p
     else if off = 0x20 then (if partial then old 0x20 OR 1 else old 0x20 AND 0xFFFFFFFC)
     else if off = 0x24 \<and> partial then push_bit 16 (skb_transport_offset k) OR (skb_transport_offset k + skb_csum_offset k)
     else old off)"

definition frag_word :: "u32 \<Rightarrow> skb_frag \<Rightarrow> (u32 \<Rightarrow> u32) \<Rightarrow> u32 \<Rightarrow> u32" where
  "frag_word lmax f old off =
    (if off = 8 then (if addr_refused old (frag_addr f) then old 8 else frag_addr f)
     else if off = 0x18 then ctrl_word (len_word lmax (old 0x18) (frag_size f)) 0
     else if off = 0x34 then NULL
     else if off = 0x20 then old 0x20 AND 0xFFFFFFFC
     else old off)"

definition recv_word :: "u32 \<Rightarrow> u32 \<Rightarrow> rx_env \<Rightarrow> ptr \<Rightarrow> (u32 \<Rightarrow> u32) \<Rightarrow> u32 \<Rightarrow> u32" where
  "recv_word lmax frame_size E skb old off =
    (if off = 8 then (if addr_refused old (re_map E skb) then old 8 else re_map E skb)
     else if off = 0x18 then ctrl_word (len_word lmax (old 0x18) frame_size) 0x0C000000
     else if off = 0x34 then skb
     else old off)"

lemma filler_csum_disable: "bd_filler (\<lambda>a b m. BdCsumDisable m b)
    (\<lambda>a old off. if off = 0x20 then old 0x20 AND 0xFFFFFFFC else old off)"
  by (rule filler_eq [OF filler_write [of "0x20" "\<lambda>a old. old 0x20 AND 0xFFFFFFFC"]])
    (simp_all add: bd_off_def BdCsumDisable_def bd_words_def)

lemma filler_csum_enable: "bd_filler (\<lambda>a b m. BdCsumEnable m b)
    (\<lambda>a old off. if off = 0x20 then old 0x20 OR 1 else old off)"
proof -
  have all: "(0xFFFFFFFF :: u32) = - 1"
    by simp
  show ?thesis
    by (rule filler_eq [OF filler_write [of "0x20" "\<lambda>a old. old 0x20 OR 1"]])
      (simp_all only: BdCsumEnable_def bd_words_def all and.right_neutral, simp_all add: bd_off_def)
qed

lemma filler_csum_setup: "bd_filler (\<lambda>a b m. BdCsumSetup m b (S a) (I a))
    (\<lambda>a old off. if off = 0x24 then push_bit 16 (S a) OR I a else old off)"
  by (rule filler_eq [OF filler_write [of "0x24" "\<lambda>a old. push_bit 16 (S a) OR I a"]])
    (simp_all add: bd_off_def BdCsumSetup_def)

lemma filler_csum: "bd_filler (\<lambda>p b m. if skb_ip_summed (fst p) = CHECKSUM_PARTIAL
      then BdCsumSetup (BdCsumEnable m b) b (S p) (I p) else BdCsumDisable m b)
    (\<lambda>p old off. if skb_ip_summed (fst p) = CHECKSUM_PARTIAL
      then (if off = 0x24 then push_bit 16 (S p) OR I p else if off = 0x20 then old 0x20 OR 1 else old off)
      else (if off = 0x20 then old 0x20 AND 0xFFFFFFFC else old off))"
  by (rule filler_eq [OF filler_if [OF filler_compose [OF filler_csum_enable filler_csum_setup [of S I]]
      filler_csum_disable, where c = "\<lambda>p old. skb_ip_summed (fst p) = CHECKSUM_PARTIAL"]]) simp_all

interpretation head_fill: bd_filler "\<lambda>p. send_head R (fst p) (snd p)" "head_word (MaxTransferLen R)" for R
  by (rule filler_eq [OF filler_compose [OF filler_compose [OF filler_compose [OF
      filler_addr [of "\<lambda>p. skb_data (fst p)"] filler_len [of "\<lambda>p. skb_headlen (fst p)" "MaxTransferLen R"]]
      filler_id [of snd]] filler_csum [of "\<lambda>p. skb_transport_offset (fst p)"
        "\<lambda>p. skb_transport_offset (fst p) + skb_csum_offset (fst p)"]]])
    (auto simp: send_head_def head_word_def Let_def)

interpretation frag_fill: bd_filler "send_frag R" "frag_word (MaxTransferLen R)" for R
  by (rule filler_eq [OF filler_compose [OF filler_compose [OF filler_compose [OF filler_compose [OF
      filler_addr [of frag_addr] filler_len [of frag_size "MaxTransferLen R"]]
      filler_id [of "\<lambda>f. NULL"]] filler_csum_disable] filler_ctrl [of "\<lambda>f. 0"]]])
    (auto simp: send_frag_def frag_word_def Let_def)

interpretation recv_fill: bd_filler "recv_fill R fs E" "recv_word (MaxTransferLen R) fs E" for R fs E
  by (rule filler_eq [OF filler_compose [OF filler_compose [OF filler_compose [OF
      filler_addr [of "re_map E"] filler_len [of "\<lambda>_. fs" "MaxTransferLen R"]]
      filler_id [of "\<lambda>skb. skb"]] filler_ctrl [of "\<lambda>_. 0x0C000000"]]])
    (auto simp: recv_fill_def recv_word_def Let_def)

section \<open>Filling the set of a frame\<close>

lemma next_seg: "ring_geom r \<Longrightarrow> XAxiDma_mBdRingNext r (ring_at r (s mod ring_size r)) = ring_at r (Suc s mod ring_size r)"
  using next_at [OF _ bdptr.idx_less] by (simp add: mod_Suc_eq)

lemma send_frags_seq:
  assumes "ring_geom r"
  shows "send_frags r fs (ring_at r (s mod ring_size r)) m
    = (fill_seq (send_frag r) r (Suc s) fs m, ring_at r ((s + length fs) mod ring_size r))"
  using assms by (induction fs arbitrary: s m) (simp_all add: next_seg)

lemma recv_fills_seq:
  assumes "ring_geom r"
  shows "recv_fills r n E skbs (ring_at r (s mod ring_size r)) m = fill_seq (recv_fill r n E) r s skbs m"
  using assms by (induction skbs arbitrary: s m) (simp_all add: next_seg)

text \<open>The memory before the flags of the frame are set, and its words.\<close>

definition send_mem :: "XAxiDma_BdRing \<Rightarrow> sk_buff \<Rightarrow> ptr \<Rightarrow> nat \<Rightarrow> memory \<Rightarrow> memory" where
  "send_mem r k skb s m =
    fill_seq (send_frag r) r (Suc s) (skb_frags k) (send_head r k skb (ring_at r (s mod ring_size r)) m)"

definition send_word :: "u32 \<Rightarrow> sk_buff \<Rightarrow> ptr \<Rightarrow> nat \<Rightarrow> (u32 \<Rightarrow> u32) \<Rightarrow> u32 \<Rightarrow> u32" where
  "send_word lmax k skb u old =
    (if u = 0 then head_word lmax (k, skb) old else frag_word lmax (skb_frags k ! (u - 1)) old)"

lemma send_fill_flags:
  assumes "ring_geom r"
  shows "frame_flags (ring_at r (s mod ring_size r)) (ring_at r ((s + length (skb_frags k)) mod ring_size r))
    (send_mem r k skb s m) (send_fill r k skb (ring_at r (s mod ring_size r)) m)"
  by (simp add: send_fill_def send_mem_def frame_flags_def send_frags_seq [OF assms] Let_def)

lemma send_mem_other:
  assumes g: "ring_geom r" and j: "j < ring_size r" "\<forall>u\<le>length (skb_frags k). j \<noteq> (s + u) mod ring_size r" and off: "bd_off off"
  shows "bd_words (send_mem r k skb s m) (ring_at r j) off = bd_words m (ring_at r j) off"
proof -
  have "s mod ring_size r \<noteq> j"
    using j(2) by (auto dest: spec [of _ 0])
  moreover have "\<forall>u<length (skb_frags k). j \<noteq> (Suc s + u) mod ring_size r"
    using j(2) by (metis Suc_leI add_Suc_shift)
  ultimately show ?thesis
    using frag_fill.seq_other [OF g j(1) off] head_fill.fill_words [OF g bdptr.idx_less [OF g] j(1) off, of r "(k, skb)"]
    by (simp add: send_mem_def)
qed

lemma send_mem_words:
  assumes g: "ring_geom r" and len: "length (skb_frags k) < ring_size r" and u: "u \<le> length (skb_frags k)" and off: "bd_off off"
  shows "bd_words (send_mem r k skb s m) (ring_at r ((s + u) mod ring_size r)) off
    = send_word (MaxTransferLen r) k skb u (bd_words m (ring_at r ((s + u) mod ring_size r))) off"
proof -
  note idx = bdptr.idx_less [OF g]
  have new: "s mod ring_size r \<noteq> (s + Suc t) mod ring_size r" if "t < length (skb_frags k)" for t
    using mod_add_inj [of s 0 "ring_size r" "Suc t"] that len by auto
  let ?m = "send_head r k skb (ring_at r (s mod ring_size r)) m"
  have head: "bd_words ?m (ring_at r (j mod ring_size r)) off' = (if s mod ring_size r = j mod ring_size r
      then head_word (MaxTransferLen r) (k, skb) (bd_words m (ring_at r (s mod ring_size r))) off'
      else bd_words m (ring_at r (j mod ring_size r)) off')" if "bd_off off'" for j off'
    using head_fill.fill_words [OF g idx idx that, of r "(k, skb)" s m j] by simp
  show ?thesis
  proof (cases u)
    case 0
    then show ?thesis
      using frag_fill.seq_other [OF g idx off, of "skb_frags k" s "Suc s" r ?m] new head [OF off, of s]
      by (simp add: send_mem_def send_word_def)
  next
    case (Suc t)
    then have t: "t < length (skb_frags k)" "length (skb_frags k) \<le> ring_size r"
      using u len by simp_all
    have "bd_words (send_mem r k skb s m) (ring_at r ((Suc s + t) mod ring_size r)) off
        = frag_word (MaxTransferLen r) (skb_frags k ! t) (bd_words ?m (ring_at r ((Suc s + t) mod ring_size r))) off"
      unfolding send_mem_def by (rule frag_fill.seq_words [OF g off t(2,1)])
    also have "\<dots> = frag_word (MaxTransferLen r) (skb_frags k ! t) (bd_words m (ring_at r ((Suc s + t) mod ring_size r))) off"
      using head [of _ "Suc s + t"] new [OF t(1)] by (intro frag_fill.new_cong off) simp
    finally show ?thesis
      using Suc by (simp add: send_word_def)
  qed
qed

lemma send_mem_local: "ring_geom r \<Longrightarrow> ring_local r m (send_mem r k skb s m)"
  unfolding send_mem_def
  using ring_local_trans [OF head_fill.fill_local [OF bdptr.idx_less, where a = "(k, skb)" and R = r] frag_fill.seq_local] by simp

section \<open>What a handed over frame says\<close>

text \<open>Address, length and identifier of the pieces of a frame; only the header carries the buffer.\<close>

definition frame_pieces :: "sk_buff \<Rightarrow> ptr \<Rightarrow> (u32 \<times> u32 \<times> ptr) list" where
  "frame_pieces k skb = (skb_data k, skb_headlen k, skb) # map (\<lambda>f. (frag_addr f, frag_size f, NULL)) (skb_frags k)"

definition frame_ctrl :: "nat \<Rightarrow> nat \<Rightarrow> u32" where
  "frame_ctrl n u = (if u = 0 then XAXIDMA_BD_CTRL_TXSOF_MASK else 0) OR (if Suc u = n then XAXIDMA_BD_CTRL_TXEOF_MASK else 0)"

definition frame_described :: "memory \<Rightarrow> sk_buff \<Rightarrow> ptr \<Rightarrow> ptr list \<Rightarrow> bool" where
  "frame_described m k skb bs \<longleftrightarrow>
    list_all2 (\<lambda>b (a, l, i). XAxiDma_BdGetBufAddr m b = a \<and> XAxiDma_BdGetLength m b XAXIDMA_MAX_TRANSFER_LEN = l
      \<and> XAxiDma_BdGetId m b = i \<and> \<not> bd_done m b) bs (frame_pieces k skb)
    \<and> map (XAxiDma_BdGetCtrl m) bs = map (frame_ctrl (length bs)) [0..<length bs]"

text \<open>A buffer the engine can transfer.\<close>

definition len_fits :: "u32 \<Rightarrow> bool" where
  "len_fits l \<longleftrightarrow> 0 < l \<and> l \<le> XAXIDMA_MAX_TRANSFER_LEN"

definition skb_ok :: "sk_buff \<Rightarrow> bool" where
  "skb_ok k \<longleftrightarrow> len_fits (skb_headlen k) \<and> list_all (\<lambda>f. len_fits (frag_size f)) (skb_frags k)"

lemma frame_pieces_len: "skb_ok k \<Longrightarrow> u \<le> length (skb_frags k) \<Longrightarrow> len_fits (fst (snd (frame_pieces k skb ! u)))"
  by (cases u) (auto simp: skb_ok_def frame_pieces_def list_all_length)

lemma max_len_mask: "XAXIDMA_MAX_TRANSFER_LEN = mask 23"
  by (simp add: mask_eq_exp_minus_1)

lemma len_fits_field: "len_fits l \<Longrightarrow> len_word (mask 23) old l AND mask 23 = l \<and> l \<noteq> 0"
  using len_word_field(1) [of "uint l" 23 old] by (auto simp: len_fits_def word_less_def word_le_def max_len_mask)

lemma send_fill_words:
  fixes s :: nat and m :: memory and skb :: ptr
  assumes g: "ring_geom r" and len: "length (skb_frags k) < ring_size r" and u: "u \<le> length (skb_frags k)"
    and max: "MaxTransferLen r = XAXIDMA_MAX_TRANSFER_LEN" and ok: "skb_ok k"
  defines "m' \<equiv> send_fill r k skb (ring_at r (s mod ring_size r)) m"
    and "b \<equiv> ring_at r ((s + u) mod ring_size r)"
  shows "bd_words m' b 0x34 = snd (snd (frame_pieces k skb ! u))"
    and "\<not> addr_refused (bd_words m b) (fst (frame_pieces k skb ! u)) \<Longrightarrow> bd_words m' b 8 = fst (frame_pieces k skb ! u)"
    and "bd_words m' b 0x18 AND mask 23 = fst (snd (frame_pieces k skb ! u))"
    and "bd_words m' b 0x18 AND 0x0C000000 = frame_ctrl (Suc (length (skb_frags k))) u"
proof -
  note idx = bdptr.idx_less [OF g]
  have offs: "bd_off 8" "bd_off 0x34" "bd_off 0x18"
    by (simp_all add: bd_off_def)
  note fl = frame_flags_words [OF g idx idx send_fill_flags [OF g, where s = s and k = k and skb = skb and m = m, folded m'_def]]
  note mem = send_mem_words [OF g len u, where skb = skb and s = s and m = m, folded b_def, unfolded max max_len_mask]
  show "bd_words m' b 0x34 = snd (snd (frame_pieces k skb ! u))"
    using fl(1) [OF idx [of "s + u"] offs(2)] mem [OF offs(2)] u
    by (cases u) (simp_all add: b_def send_word_def head_word_def frag_word_def frame_pieces_def Let_def)
  show "bd_words m' b 8 = fst (frame_pieces k skb ! u)" if "\<not> addr_refused (bd_words m b) (fst (frame_pieces k skb ! u))"
    using fl(1) [OF idx [of "s + u"] offs(1)] mem [OF offs(1)] u that
    by (cases u) (simp_all add: b_def send_word_def head_word_def frag_word_def frame_pieces_def Let_def)
  have "send_word (mask 23) k skb u old 0x18 AND mask 23 = fst (snd (frame_pieces k skb ! u))" for old
    using len_fits_field [OF frame_pieces_len [OF ok u, of skb], of "old 0x18"] ctrl_word_fields(1) [of 23] u
    by (cases u) (simp_all add: send_word_def head_word_def frag_word_def frame_pieces_def Let_def)
  then show "bd_words m' b 0x18 AND mask 23 = fst (snd (frame_pieces k skb ! u))"
    using fl(2) [OF idx [of "s + u"], of 23] mem [OF offs(3)] by (simp add: b_def)
  have inj: "(s + x) mod ring_size r = (s + y) mod ring_size r \<longleftrightarrow> x = y"
    if "x \<le> length (skb_frags k)" "y \<le> length (skb_frags k)" for x y
    using that len mod_add_inj [of s x "ring_size r" y] by auto
  have "ctrl_word v c AND 0x0C000000 = c AND 0x0C000000" for v c
    using ctrl_word_fields(2) [of 0] by simp
  note field = this
  have word: "bd_words m' b 0x18 = (if u = 0 \<or> u = length (skb_frags k)
      then ctrl_word (bd_words (send_mem r k skb s m) b 0x18) (frame_ctrl (Suc (length (skb_frags k))) u)
      else bd_words (send_mem r k skb s m) b 0x18)"
    using frame_flags_word [OF g idx idx send_fill_flags [OF g, where s = s and k = k and skb = skb and m = m, folded m'_def]
      idx [of "s + u"] offs(3)] inj [OF u, of 0] inj [OF u, of "length (skb_frags k)"]
    by (simp add: b_def frame_ctrl_def)
  show "bd_words m' b 0x18 AND 0x0C000000 = frame_ctrl (Suc (length (skb_frags k))) u"
  proof (cases "u = 0 \<or> u = length (skb_frags k)")
    case True
    then show ?thesis
      by (auto simp: word field frame_ctrl_def)
  next
    case False
    then show ?thesis
      by (simp add: word mem [OF offs(3)] send_word_def frag_word_def field frame_ctrl_def)
  qed
qed

lemma send_fill_ok:
  assumes "ring_geom r" and "length (skb_frags k) < ring_size r" and "MaxTransferLen r = XAXIDMA_MAX_TRANSFER_LEN" and "skb_ok k"
  shows "tohw_ok r (send_fill r k skb (ring_at r (s mod ring_size r)) m) (ring_seg r s (Suc (length (skb_frags k))))"
proof (rule tohw_okI [where k = 23])
  fix u
  assume "u < Suc (length (skb_frags k))"
  then show "bd_words (send_fill r k skb (ring_at r (s mod ring_size r)) m) (ring_at r ((s + u) mod ring_size r)) 0x18 AND mask 23 \<noteq> 0"
    using send_fill_words(3) [OF assms(1,2) _ assms(3,4)] frame_pieces_len [OF assms(4), of u skb] by (simp add: len_fits_def word_gt_0)
qed (use frame_flags_words(3,4) [OF assms(1) bdptr.idx_less [OF assms(1)] bdptr.idx_less [OF assms(1)] send_fill_flags [OF assms(1)]]
    in \<open>simp_all add: assms(3) max_len_mask\<close>)

lemma send_fill_local:
  assumes "ring_geom r"
  shows "ring_local r m (send_fill r k skb (ring_at r (s mod ring_size r)) m)"
  by (rule ring_local_trans [OF send_mem_local [OF assms]
      frame_flags_words(5) [OF assms bdptr.idx_less [OF assms] bdptr.idx_less [OF assms] send_fill_flags [OF assms]]])

lemma send_fill_other:
  assumes g: "ring_geom r" and j: "j < ring_size r" "\<forall>u<Suc (length (skb_frags k)). j \<noteq> (s + u) mod ring_size r" and off: "bd_off off"
  shows "bd_words (send_fill r k skb (ring_at r (s mod ring_size r)) m) (ring_at r j) off = bd_words m (ring_at r j) off"
proof -
  have "j \<noteq> s mod ring_size r" "j \<noteq> (s + length (skb_frags k)) mod ring_size r"
    using j(2) by (auto dest: spec [of _ 0])
  then show ?thesis
    using frame_flags_words(1) [OF g bdptr.idx_less [OF g] bdptr.idx_less [OF g] send_fill_flags [OF g] j(1) off]
      send_mem_other [OF g j(1) _ off] j(2) by (simp add: less_Suc_eq_le)
qed

lemma frame_described_sent:
  assumes g: "ring_geom r" and len: "length (skb_frags k) < ring_size r" and max: "MaxTransferLen r = XAXIDMA_MAX_TRANSFER_LEN"
    and ok: "skb_ok k"
    and addr: "list_all2 (\<lambda>b p. \<not> addr_refused (bd_words m b) (fst p)) (ring_seg r s (Suc (length (skb_frags k)))) (frame_pieces k skb)"
  shows "frame_described (tohw_mem (send_fill r k skb (ring_at r (s mod ring_size r)) m) (ring_seg r s (Suc (length (skb_frags k)))))
    k skb (ring_seg r s (Suc (length (skb_frags k))))"
proof -
  define n where "n = Suc (length (skb_frags k))"
  let ?m = "send_fill r k skb (ring_at r (s mod ring_size r)) m" and ?b = "\<lambda>u. ring_at r ((s + u) mod ring_size r)"
  let ?w = "tohw_mem ?m (ring_seg r s n)"
  have n: "length (frame_pieces k skb) = n"
    by (simp add: n_def frame_pieces_def)
  have offs: "bd_off 8" "bd_off 0x34" "bd_off 0x18"
    by (simp_all add: bd_off_def)
  note keep = tohw_mem_words [OF g bdptr.idx_less [OF g] set_ring_seg [OF g]]
  have mem: "?b u \<in> set (ring_seg r s n)" if "u < n" for u
    using that nth_mem [of u "ring_seg r s n"] by (simp add: ring_seg_def)
  have "XAxiDma_BdGetBufAddr ?w (?b u) = fst (frame_pieces k skb ! u)"
    "XAxiDma_BdGetLength ?w (?b u) XAXIDMA_MAX_TRANSFER_LEN = fst (snd (frame_pieces k skb ! u))"
    "XAxiDma_BdGetId ?w (?b u) = snd (snd (frame_pieces k skb ! u))" "\<not> bd_done ?w (?b u)"
    "XAxiDma_BdGetCtrl ?w (?b u) = frame_ctrl n u" if "u < n" for u
  proof -
    have u: "u \<le> length (skb_frags k)"
      using that by (simp add: n_def)
    have "\<not> addr_refused (bd_words m (?b u)) (fst (frame_pieces k skb ! u))"
      using list_all2_nthD [OF addr, of u] that by (simp add: n_def ring_seg_def)
    note w = send_fill_words(1) [OF g len u max ok] send_fill_words(2) [OF g len u max ok this]
      send_fill_words(3,4) [OF g len u max ok, where skb = skb and s = s and m = m]
    show "XAxiDma_BdGetBufAddr ?w (?b u) = fst (frame_pieces k skb ! u)"
      "XAxiDma_BdGetLength ?w (?b u) XAXIDMA_MAX_TRANSFER_LEN = fst (snd (frame_pieces k skb ! u))"
      "XAxiDma_BdGetId ?w (?b u) = snd (snd (frame_pieces k skb ! u))"
      "XAxiDma_BdGetCtrl ?w (?b u) = frame_ctrl n u"
      using w keep(1) offs
      by (simp_all add: XAxiDma_BdGetBufAddr_def XAxiDma_BdGetLength_def XAxiDma_BdGetId_def XAxiDma_BdGetCtrl_def
          bd_words_def max_len_mask n_def)
    show "\<not> bd_done ?w (?b u)"
      by (rule keep(2) [OF mem [OF that]])
  qed
  then have "frame_described ?w k skb (ring_seg r s n)"
    using n by (auto simp: frame_described_def list_all2_conv_all_nth ring_seg_def split_beta intro!: nth_equalityI)
  then show ?thesis
    by (simp add: n_def)
qed

section \<open>Handing a frame over\<close>

lemma ring_send:
  assumes idle: "ring_idle r" and ok: "skb_ok k"
  defines "n \<equiv> Suc (length (skb_frags k))"
  assumes room: "n \<le> length (g_free (groups r))"
  obtains b r1 r' w' where "XAxiDma_BdRingAlloc r (int n) = (XST_SUCCESS, r1, Some b)"
    and "XAxiDma_BdRingToHw B r1 (int n) b 0 (w\<lparr>ram := send_fill r1 k skb b (ram w)\<rparr>) = (XST_SUCCESS, r', w')"
    and "ring_idle r'" and "same_bds r r'" and "ring_static r' = ring_static r"
    and "g_hw (groups r') = g_hw (groups r) @ take n (g_free (groups r))"
    and "hw_ids (ram w') r' = hw_ids (ram w) r @ skb # replicate (length (skb_frags k)) NULL"
    and "ring_local r (ram w) (ram w')"
    and "list_all2 (\<lambda>b p. \<not> addr_refused (bd_words (ram w) b) (fst p)) (take n (g_free (groups r))) (frame_pieces k skb)
      \<Longrightarrow> frame_described (ram w') k skb (take n (g_free (groups r)))"
proof -
  have r: "ring_inv r" "g_pre (groups r) = []" "0 < n" and max: "MaxTransferLen r = XAXIDMA_MAX_TRANSFER_LEN"
    using idle by (simp_all add: ring_idle_def n_def)
  obtain s r1 where alloc: "XAxiDma_BdRingAlloc r (int n) = (XST_SUCCESS, r1, Some (ring_at r (s mod ring_size r)))"
    and at: "set_at r s n" and r1: "same_bds r r1" "ring_geom r1" "ring_static r1 = ring_static r"
    by (rule alloc_set [OF r room])
  have same: "ring_at r1 = ring_at r" "ring_size r1 = ring_size r"
    using r1(1) by (simp_all add: same_bds_def)
  have seg: "ring_seg r1 = ring_seg r"
    by (simp add: fun_eq_iff ring_seg_def same)
  have len: "length (skb_frags k) < ring_size r1" and max1: "MaxTransferLen r1 = XAXIDMA_MAX_TRANSFER_LEN"
    and taken: "take n (g_free (groups r)) = ring_seg r s n" and g: "ring_geom r"
    using at same max r1(3) r(1) by (auto simp: set_at_def n_def ring_static_def ring_inv_def ring_view_def)
  let ?b = "ring_at r (s mod ring_size r)"
  let ?m = "send_fill r1 k skb ?b (ram w)"
  note S = send_fill_ok [OF r1(2) len max1 ok, unfolded same seg] send_fill_local [OF r1(2), unfolded same]
    send_fill_other [OF r1(2), unfolded same] send_fill_words(1) [OF r1(2) len _ max1 ok, unfolded same]
    frame_described_sent [OF r1(2) len max1 ok, unfolded same seg]
  have "tohw_ok r (ram (w\<lparr>ram := ?m\<rparr>)) (ring_seg r s n)"
    using S(1) r1(3) by (simp add: n_def tohw_ok_def bd_len_ok_def [abs_def] ring_static_def)
  then obtain r' w' where hw: "XAxiDma_BdRingToHw B r1 (int n) ?b 0 (w\<lparr>ram := ?m\<rparr>) = (XST_SUCCESS, r', w')"
    and r': "ring_inv r'" "same_bds r r'" "ring_static r' = ring_static r"
    and gr: "groups r' = (groups r)\<lparr>g_hw := g_hw (groups r) @ ring_seg r s n, g_free := drop n (g_free (groups r))\<rparr>"
    and m': "ram w' = tohw_mem (ram (w\<lparr>ram := ?m\<rparr>)) (ring_seg r s n)"
    by (rule hand_over [OF r room alloc at])
  have ids: "hw_ids (ram w') r' = hw_ids (ram w) r @ skb # replicate (length (skb_frags k)) NULL"
    unfolding m' using S(3,4) r1(2)
    by (intro hw_ids_hand_over [OF g at])
      (auto simp: gr n_def frame_pieces_def bd_off_def less_Suc_eq_le nth_Cons split: nat.split)
  have loc: "ring_local r (ram w) (ram w')"
    unfolding m' using ring_local_trans [OF S(2) ring_local_tohw [OF r1(2)]] set_ring_seg [OF g] same_bds_rings(3) [OF r1(1)]
    by (simp add: same)
  have "ring_idle r'"
    using idle r' gr by (simp add: ring_idle_def ring_static_def same_bds_def)
  show ?thesis
    by (rule that [OF alloc hw \<open>ring_idle r'\<close> r'(2,3) _ ids loc]) (use gr taken S(5) m' n_def in simp_all)
qed

section \<open>Posting receive buffers\<close>

lemma recv_word_ctrl:
  assumes "len_fits fs"
  shows "recv_word (mask 23) fs E skb old 0x18 AND mask 23 = fs"
    and "recv_word lmax fs E skb old 0x18 AND 0x08000000 \<noteq> 0"
    and "recv_word lmax fs E skb old 0x18 AND 0x04000000 \<noteq> 0"
proof -
  show "recv_word (mask 23) fs E skb old 0x18 AND mask 23 = fs"
    using len_fits_field [OF assms] ctrl_word_fields(1) [of 23] by (simp add: recv_word_def)
  have sub: "x AND 0x08000000 = (x AND 0x0C000000) AND (0x08000000 :: u32)"
    "x AND 0x04000000 = (x AND 0x0C000000) AND (0x04000000 :: u32)" for x
    by (simp_all add: and.assoc)
  have "recv_word lmax fs E skb old 0x18 AND 0x0C000000 = 0x0C000000"
    using ctrl_word_fields(2) [of 0] by (simp add: recv_word_def)
  then show "recv_word lmax fs E skb old 0x18 AND 0x08000000 \<noteq> 0" "recv_word lmax fs E skb old 0x18 AND 0x04000000 \<noteq> 0"
    by (simp_all add: sub [of "recv_word lmax fs E skb old 0x18"])
qed

lemma ring_post:
  assumes idle: "ring_idle r" and fits: "len_fits fs" and skbs: "skbs \<noteq> []" "length skbs \<le> length (g_free (groups r))"
  obtains b r1 r' w' where "XAxiDma_BdRingAlloc r (int (length skbs)) = (XST_SUCCESS, r1, Some b)"
    and "XAxiDma_BdRingToHw B r1 (int (length skbs)) b 0 (w\<lparr>ram := recv_fills r1 fs E skbs b (ram w)\<rparr>) = (XST_SUCCESS, r', w')"
    and "ring_idle r'" and "same_bds r r'" and "ring_static r' = ring_static r"
    and "hw_ids (ram w') r' = hw_ids (ram w) r @ skbs" and "ring_local r (ram w) (ram w')"
proof -
  define n where "n = length skbs"
  have r: "ring_inv r" "g_pre (groups r) = []" "0 < n" "n \<le> length (g_free (groups r))"
    and max: "MaxTransferLen r = mask 23"
    using idle skbs by (simp_all add: ring_idle_def n_def max_len_mask)
  obtain s r1 where alloc: "XAxiDma_BdRingAlloc r (int n) = (XST_SUCCESS, r1, Some (ring_at r (s mod ring_size r)))"
    and at: "set_at r s n" and r1: "same_bds r r1" "ring_geom r1" "ring_static r1 = ring_static r"
    by (rule alloc_set [OF r])
  have same: "ring_at r1 = ring_at r" "ring_size r1 = ring_size r"
    using r1(1) by (simp_all add: same_bds_def)
  have len: "length skbs \<le> ring_size r" and max1: "MaxTransferLen r1 = mask 23" and g: "ring_geom r"
    using at same max r1(3) r(1) by (auto simp: set_at_def n_def ring_static_def ring_inv_def ring_view_def)
  let ?b = "ring_at r (s mod ring_size r)"
  let ?m = "recv_fills r1 fs E skbs ?b (ram w)"
  have m: "?m = fill_seq (recv_fill r1 fs E) r s skbs (ram w)"
    using recv_fills_seq [OF r1(2), of fs E skbs s] by (simp add: same fill_seq_same [OF r1(1)])
  have word: "bd_words ?m (ring_at r ((s + u) mod ring_size r)) off
      = recv_word (mask 23) fs E (skbs ! u) (bd_words (ram w) (ring_at r ((s + u) mod ring_size r))) off"
    if "u < n" "bd_off off" for u off
    using recv_fill.seq_words [OF g that(2) len] that(1) by (simp add: m n_def max1)
  have off: "bd_off 0x34" "bd_off 0x18"
    by (simp_all add: bd_off_def)
  have "n - 1 < n"
    using r(3) by simp
  then have "tohw_ok r (ram (w\<lparr>ram := ?m\<rparr>)) (ring_seg r s n)"
    using word [OF _ off(2)] word [OF _ off(2), of "n - 1"] recv_word_ctrl [OF fits] word [OF r(3) off(2)] fits r(3)
    by (intro tohw_okI [OF r(3) max]) (simp_all add: len_fits_def word_gt_0)
  then obtain r' w' where hw: "XAxiDma_BdRingToHw B r1 (int n) ?b 0 (w\<lparr>ram := ?m\<rparr>) = (XST_SUCCESS, r', w')"
    and r': "ring_inv r'" "same_bds r r'" "ring_static r' = ring_static r"
    and gr: "groups r' = (groups r)\<lparr>g_hw := g_hw (groups r) @ ring_seg r s n, g_free := drop n (g_free (groups r))\<rparr>"
    and m': "ram w' = tohw_mem (ram (w\<lparr>ram := ?m\<rparr>)) (ring_seg r s n)"
    by (rule hand_over [OF r alloc at])
  have ids: "hw_ids (ram w') r' = hw_ids (ram w) r @ skbs"
    unfolding m' using recv_fill.seq_other [OF g _ off(1)] word [OF _ off(1)]
    by (intro hw_ids_hand_over [OF g at]) (simp_all add: gr n_def m recv_word_def)
  have loc: "ring_local r (ram w) (ram w')"
    unfolding m' using ring_local_trans [OF recv_fill.seq_local [OF g] ring_local_tohw [OF g set_ring_seg [OF g]]]
    by (simp add: m)
  have "ring_idle r'"
    using idle r' gr by (simp add: ring_idle_def ring_static_def same_bds_def)
  then show ?thesis
    using that [of r1 ?b r' w'] alloc hw r'(2,3) ids loc unfolding n_def by simp
qed

end
