(* ===== verification/Eth_Inv.thy ===== *)
theory Eth_Inv
  imports Eth_Send Engine_Props
begin

unbundle bit_operations_syntax

text \<open>
  The invariant of the Ethernet driver: who owns a socket buffer. A buffer given to the driver for
  sending is freed, deferred, or named by exactly one descriptor of the transmit ring; a receive
  buffer is named by one descriptor of the receive ring until it is delivered, in the order of posting.
\<close>

section \<open>Parts of the state\<close>

lemma eth_ring_simps [simp]:
  "eth_tx_ring (set_eth_tx r s) = r" "eth_rx_ring (set_eth_tx r s) = eth_rx_ring s"
  "eth_tx_ring (set_eth_rx r s) = eth_tx_ring s"
  "RxBdRing (lp_AxiDma (es_lp s)) \<noteq> [] \<Longrightarrow> eth_rx_ring (set_eth_rx r s) = r"
  "RxBdRing (lp_AxiDma (es_lp (set_eth_tx r s))) = RxBdRing (lp_AxiDma (es_lp s))"
  "RxBdRing (lp_AxiDma (es_lp (set_eth_rx r s))) = (RxBdRing (lp_AxiDma (es_lp s)))[0 := r]"
  "eth_tx_ring (s\<lparr>es_world := w\<rparr>) = eth_tx_ring s" "eth_rx_ring (s\<lparr>es_world := w\<rparr>) = eth_rx_ring s"
  by (simp_all add: set_eth_tx_def set_eth_rx_def eth_tx_ring_def eth_rx_ring_def upd_lp_def set_RxRing_def
      XAxiDma_GetRxRing_def)

lemma set_eth_simps [simp]:
  "es_world (set_eth_tx r s) = es_world s" "es_world (set_eth_rx r s) = es_world s"
  "es_freed (set_eth_tx r s) = es_freed s" "es_freed (set_eth_rx r s) = es_freed s"
  "es_rcvd (set_eth_tx r s) = es_rcvd s" "es_rcvd (set_eth_rx r s) = es_rcvd s"
  "es_skb (set_eth_tx r s) = es_skb s" "es_skb (set_eth_rx r s) = es_skb s"
  "lp_deferred_skb (es_lp (set_eth_tx r s)) = lp_deferred_skb (es_lp s)"
  "lp_deferred_skb (es_lp (set_eth_rx r s)) = lp_deferred_skb (es_lp s)"
  "lp_frame_size (es_lp (set_eth_tx r s)) = lp_frame_size (es_lp s)"
  "lp_frame_size (es_lp (set_eth_rx r s)) = lp_frame_size (es_lp s)"
  "nd_stopped (es_lp (set_eth_tx r s)) = nd_stopped (es_lp s)"
  "nd_stopped (es_lp (set_eth_rx r s)) = nd_stopped (es_lp s)"
  by (simp_all add: set_eth_tx_def set_eth_rx_def upd_lp_def)

text \<open>What the engine reads of a buffer.\<close>

definition skb_shape :: "sk_buff \<Rightarrow> u32 \<times> skb_frag list" where
  "skb_shape k = (skb_headlen k, skb_frags k)"

definition skb_sendable :: "sk_buff \<Rightarrow> bool" where
  "skb_sendable k \<longleftrightarrow> skb_ok k \<and> int (length (skb_frags k)) + 1 < ETH_TX_BD_NUM"

lemma skb_sendable_shape: "skb_shape k' = skb_shape k \<Longrightarrow> skb_sendable k' = skb_sendable k"
  by (simp add: skb_shape_def skb_sendable_def skb_ok_def)

section \<open>The invariant\<close>

definition eth_rings :: "'d eth_state \<Rightarrow> bool" where
  "eth_rings s \<longleftrightarrow> RxBdRing (lp_AxiDma (es_lp s)) \<noteq> [] \<and> ring_idle (eth_tx_ring s) \<and> ring_idle (eth_rx_ring s)
     \<and> rings_apart (eth_tx_ring s) (eth_rx_ring s) \<and> rings_apart (eth_rx_ring s) (eth_tx_ring s)
     \<and> ring_size (eth_tx_ring s) = nat ETH_TX_BD_NUM \<and> ring_size (eth_rx_ring s) = nat ETH_RX_BD_NUM"

definition tx_ids :: "'d eth_state \<Rightarrow> ptr list" where
  "tx_ids s = filter (\<lambda>x. x \<noteq> NULL) (hw_ids (ram (es_world s)) (eth_tx_ring s))"

definition rx_ids :: "'d eth_state \<Rightarrow> ptr list" where
  "rx_ids s = hw_ids (ram (es_world s)) (eth_rx_ring s)"

definition deferred :: "'d eth_state \<Rightarrow> ptr list" where
  "deferred s = filter (\<lambda>x. x \<noteq> NULL) [lp_deferred_skb (es_lp s)]"

text \<open>\<open>S\<close> are the buffers given to the driver for sending, \<open>P\<close> the receive buffers it has posted, in order.\<close>

definition eth_inv :: "'d eth_state \<Rightarrow> ptr multiset \<Rightarrow> ptr list \<Rightarrow> bool" where
  "eth_inv s S P \<longleftrightarrow> eth_rings s \<and> len_fits (lp_frame_size (es_lp s))
     \<and> S = mset (es_freed s) + mset (tx_ids s) + mset (deferred s)
     \<and> P = es_rcvd s @ rx_ids s \<and> NULL \<notin> set (rx_ids s)
     \<and> (deferred s \<noteq> [] \<longrightarrow> nd_stopped (es_lp s) \<and> skb_sendable (es_skb s (lp_deferred_skb (es_lp s))))"

text \<open>A step that moves no buffer. The running state of the rings, the device and the scheduling are free; so is
  memory outside the software words.\<close>

definition eth_quiet :: "'d eth_state \<Rightarrow> 'd eth_state \<Rightarrow> bool" where
  "eth_quiet s s' \<longleftrightarrow> (RxBdRing (lp_AxiDma (es_lp s')) = [] \<longleftrightarrow> RxBdRing (lp_AxiDma (es_lp s)) = [])
     \<and> same_queue (eth_tx_ring s) (eth_tx_ring s') \<and> same_queue (eth_rx_ring s) (eth_rx_ring s')
     \<and> (\<forall>r\<in>{eth_tx_ring s, eth_rx_ring s}. \<forall>j<ring_size r.
          XAxiDma_BdGetId (ram (es_world s')) (ring_at r j) = XAxiDma_BdGetId (ram (es_world s)) (ring_at r j))
     \<and> es_freed s' = es_freed s \<and> es_rcvd s' = es_rcvd s \<and> (\<forall>x. skb_shape (es_skb s' x) = skb_shape (es_skb s x))
     \<and> lp_deferred_skb (es_lp s') = lp_deferred_skb (es_lp s) \<and> lp_frame_size (es_lp s') = lp_frame_size (es_lp s)
     \<and> (nd_stopped (es_lp s) \<longrightarrow> nd_stopped (es_lp s'))"

lemma quiet_facts:
  assumes "eth_rings s" and q: "eth_quiet s s'"
  shows "eth_rings s'" and "tx_ids s' = tx_ids s" and "rx_ids s' = rx_ids s" and "deferred s' = deferred s"
proof -
  have sq: "same_queue (eth_tx_ring s) (eth_tx_ring s')" "same_queue (eth_rx_ring s) (eth_rx_ring s')"
    using q by (simp_all add: eth_quiet_def)
  show "eth_rings s'"
    using assms same_queue_ring(5) [OF sq(1)] same_queue_ring(5) [OF sq(2)]
      same_bds_rings(1,2) [OF same_queue_ring(2) [OF sq(1)]] same_bds_rings(1,2) [OF same_queue_ring(2) [OF sq(2)]]
      same_bds_size [OF same_queue_ring(2) [OF sq(1)]] same_bds_size [OF same_queue_ring(2) [OF sq(2)]]
    by (simp add: eth_rings_def eth_quiet_def)
  have ids: "hw_ids (ram (es_world s')) r = hw_ids (ram (es_world s)) r" if "r \<in> {eth_tx_ring s, eth_rx_ring s}" for r
    using assms that by (intro hw_ids_cong)
      (auto simp: eth_rings_def ring_idle_def eth_quiet_def bd_words_def XAxiDma_BdGetId_def)
  have "hw_ids m (eth_tx_ring s') = hw_ids m (eth_tx_ring s)" "hw_ids m (eth_rx_ring s') = hw_ids m (eth_rx_ring s)" for m
    using same_queue_ring(1) [OF sq(1)] same_queue_ring(1) [OF sq(2)] by (simp_all add: hw_ids_def)
  then show "tx_ids s' = tx_ids s" "rx_ids s' = rx_ids s" "deferred s' = deferred s"
    using ids q by (simp_all add: tx_ids_def rx_ids_def deferred_def eth_quiet_def)
qed

lemma quiet_eth_inv: "eth_inv s S P \<Longrightarrow> eth_quiet s s' \<Longrightarrow> eth_inv s' S P"
  using quiet_facts [of s s'] skb_sendable_shape [of "es_skb s' (lp_deferred_skb (es_lp s))" "es_skb s (lp_deferred_skb (es_lp s))"]
  by (auto simp: eth_inv_def eth_quiet_def)

lemma eth_quiet_refl [simp]: "eth_quiet s s"
  by (simp add: eth_quiet_def)

lemma eth_quiet_trans:
  assumes "eth_quiet s s'" and "eth_quiet s' s''"
  shows "eth_quiet s s''"
proof -
  have "same_bds (eth_tx_ring s) (eth_tx_ring s')" "same_bds (eth_rx_ring s) (eth_rx_ring s')"
    using assms(1) same_queue_ring(2) by (auto simp: eth_quiet_def)
  then show ?thesis
    using assms same_queue_trans by (auto simp: eth_quiet_def same_bds_def)
qed

section \<open>Reset\<close>

lemma halt_rx_queues:
  "length (RxBdRing (Reset_halt_rx is I)) = length (RxBdRing I) \<and> TxBdRing (Reset_halt_rx is I) = TxBdRing I
    \<and> (\<forall>j<length (RxBdRing I). same_queue (RxBdRing I ! j) (RxBdRing (Reset_halt_rx is I) ! j))"
proof (induction "is" arbitrary: I)
  case (Cons i "is")
  define J where "J = (if HasS2Mm I \<noteq> 0
    then set_RxRing I (int i) ((XAxiDma_GetRxRing I (int i))\<lparr>RunState := AXIDMA_CHANNEL_HALTED\<rparr>) else I)"
  have J: "Reset_halt_rx (i # is) I = Reset_halt_rx is J"
    by (simp only: Reset_halt_rx.simps J_def)
  have "same_queue (RxBdRing I ! j) (RxBdRing J ! j)" if "j < length (RxBdRing I)" for j
    using that by (cases "i = j") (auto simp: J_def set_RxRing_def XAxiDma_GetRxRing_def same_queue_def)
  moreover have "length (RxBdRing J) = length (RxBdRing I)" "TxBdRing J = TxBdRing I"
    by (auto simp: J_def set_RxRing_def)
  ultimately show ?case
    using Cons.IH [of J] unfolding J by (metis same_queue_trans)
qed simp

lemma snapshot_queue: "fst (XAxiDma_mBdRingSnapShotCurrBd B r i w) = r' \<Longrightarrow> same_queue r r'"
  by (auto simp: XAxiDma_mBdRingSnapShotCurrBd_def same_queue_def split_beta Let_def)

lemma snapshot_ram: "ram (snd (XAxiDma_mBdRingSnapShotCurrBd B r i w)) = ram w"
  by (simp add: XAxiDma_mBdRingSnapShotCurrBd_def split_beta Let_def ram_reg)

lemma restart_queue: "r'\<lparr>BdaRestart := 0\<rparr> = r\<lparr>BdaRestart := 0\<rparr> \<Longrightarrow> same_queue r r'"
  by (cases r; cases r') (simp add: same_queue_def)

lemma snapshot_rx_ram: "ram (snd (Reset_snapshot_rx B is (I, w))) = ram w"
  by (induction "is" arbitrary: I w)
    (simp_all add: split_beta Let_def snapshot_ram)

lemma reset_queues:
  assumes "XAxiDma_Reset B I w = (I', w')"
  shows "ram w' = ram w" and "same_queue (TxBdRing I) (TxBdRing I')"
    and "length (RxBdRing I') = length (RxBdRing I)"
    and "\<forall>j<length (RxBdRing I). same_queue (RxBdRing I ! j) (RxBdRing I' ! j)"
proof -
  obtain I1 w1 where s: "(if HasSg I \<noteq> 0 then
      let (r, w) = XAxiDma_mBdRingSnapShotCurrBd B (TxBdRing I) 0 w
      in Reset_snapshot_rx B [0..<nat (RxNumChannels I)] (I\<lparr>TxBdRing := r\<rparr>, w) else (I, w)) = (I1, w1)"
    by (metis surj_pair)
  have 1: "ram w1 = ram w \<and> same_queue (TxBdRing I) (TxBdRing I1) \<and> length (RxBdRing I1) = length (RxBdRing I)
    \<and> (\<forall>j<length (RxBdRing I). same_queue (RxBdRing I ! j) (RxBdRing I1 ! j))"
  proof (cases "HasSg I = 0")
    case False
    obtain r w2 where snap: "XAxiDma_mBdRingSnapShotCurrBd B (TxBdRing I) 0 w = (r, w2)"
      by (metis surj_pair)
    have I1: "Reset_snapshot_rx B [0..<nat (RxNumChannels I)] (I\<lparr>TxBdRing := r\<rparr>, w2) = (I1, w1)"
      using s snap False by simp
    have "ram w2 = ram w"
      using snapshot_ram [of B "TxBdRing I" 0 w] snap by simp
    then show ?thesis
      using snapshot_rx_frame [of B "[0..<nat (RxNumChannels I)]" "I\<lparr>TxBdRing := r\<rparr>" w2]
        snapshot_rx_ram [of B "[0..<nat (RxNumChannels I)]" "I\<lparr>TxBdRing := r\<rparr>" w2]
        snapshot_queue [of B "TxBdRing I" 0 w r] snap unfolding I1
      by (auto intro: restart_queue)
  qed (use s in auto)
  have halt: "same_queue r r' \<Longrightarrow> same_queue r (r'\<lparr>RunState := c\<rparr>)" for r r' c
    by (simp add: same_queue_def)
  have "ram w' = ram w1" "I' = Reset_halt_rx [0..<nat (RxNumChannels I1)] (if HasMm2S I1 \<noteq> 0
      then I1\<lparr>TxBdRing := (TxBdRing I1)\<lparr>RunState := AXIDMA_CHANNEL_HALTED\<rparr>\<rparr> else I1)"
    using assms unfolding XAxiDma_Reset_def s by (auto simp: Let_def ram_reg)
  then show "ram w' = ram w" "same_queue (TxBdRing I) (TxBdRing I')" "length (RxBdRing I') = length (RxBdRing I)"
    "\<forall>j<length (RxBdRing I). same_queue (RxBdRing I ! j) (RxBdRing I' ! j)"
    using 1 halt_rx_queues [of "[0..<nat (RxNumChannels I1)]" "if HasMm2S I1 \<noteq> 0
      then I1\<lparr>TxBdRing := (TxBdRing I1)\<lparr>RunState := AXIDMA_CHANNEL_HALTED\<rparr>\<rparr> else I1"]
    by (auto intro: same_queue_trans halt)
qed

lemma quiet_dma_reset:
  assumes "RxBdRing (lp_AxiDma (es_lp s)) \<noteq> []"
  shows "eth_quiet s (eth_dma_reset B s)" and "nd_stopped (es_lp (eth_dma_reset B s)) = nd_stopped (es_lp s)"
proof -
  obtain I w where r: "XAxiDma_Reset B (lp_AxiDma (es_lp s)) (es_world s) = (I, w)"
    by (metis surj_pair)
  then have s': "eth_dma_reset B s = upd_lp (\<lambda>lp. lp\<lparr>lp_AxiDma := I\<rparr>) (s\<lparr>es_world := w\<rparr>)"
    by (simp add: eth_dma_reset_def)
  show "nd_stopped (es_lp (eth_dma_reset B s)) = nd_stopped (es_lp s)"
    by (simp add: s' upd_lp_def)
  have "RxBdRing I \<noteq> []" "same_queue (RxBdRing (lp_AxiDma (es_lp s)) ! 0) (RxBdRing I ! 0)"
    using reset_queues(3,4) [OF r] assms by auto
  then show "eth_quiet s (eth_dma_reset B s)"
    using assms reset_queues(1,2) [OF r]
    by (simp add: eth_quiet_def s' upd_lp_def eth_tx_ring_def eth_rx_ring_def XAxiDma_GetRxRing_def)
qed

end
