(* ===== verification/Eth_Steps.thy ===== *)
theory Eth_Steps
  imports Eth_Inv
begin

unbundle bit_operations_syntax

text \<open>
  Every operation of the Ethernet driver keeps the invariant.
\<close>

section \<open>Sending\<close>

lemma upd_simps [simp]:
  "es_world (upd_lp f s) = es_world s" "es_freed (upd_lp f s) = es_freed s" "es_rcvd (upd_lp f s) = es_rcvd s"
  "es_skb (upd_lp f s) = es_skb s" "es_lp (upd_lp f s) = f (es_lp s)"
  "es_world (upd_stats g s) = es_world s" "es_freed (upd_stats g s) = es_freed s" "es_rcvd (upd_stats g s) = es_rcvd s"
  "es_skb (upd_stats g s) = es_skb s" "es_lp (upd_stats g s) = (es_lp s)\<lparr>lp_stats := g (lp_stats (es_lp s))\<rparr>"
  "es_freed (upd_ram h s) = es_freed s" "es_rcvd (upd_ram h s) = es_rcvd s" "es_skb (upd_ram h s) = es_skb s"
  "es_lp (upd_ram h s) = es_lp s" "es_world (upd_ram h s) = (es_world s)\<lparr>ram := h (ram (es_world s))\<rparr>"
  "es_world (dev_kfree_skb x s) = es_world s" "es_freed (dev_kfree_skb x s) = es_freed s @ [x]"
  "es_rcvd (dev_kfree_skb x s) = es_rcvd s" "es_skb (dev_kfree_skb x s) = es_skb s" "es_lp (dev_kfree_skb x s) = es_lp s"
  "es_world (dma_unmap_single a l d s) = es_world s" "es_freed (dma_unmap_single a l d s) = es_freed s"
  "es_rcvd (dma_unmap_single a l d s) = es_rcvd s" "es_skb (dma_unmap_single a l d s) = es_skb s"
  "es_lp (dma_unmap_single a l d s) = es_lp s"
  by (simp_all add: upd_lp_def upd_stats_def upd_ram_def dev_kfree_skb_def dma_unmap_single_def)

lemma queue_simps [simp]:
  "netif_stop_queue s = upd_lp (\<lambda>lp. lp\<lparr>nd_stopped := True\<rparr>) s"
  "netif_wake_queue s = upd_lp (\<lambda>lp. lp\<lparr>nd_stopped := False\<rparr>) s"
  "napi_enable s = upd_lp (\<lambda>lp. lp\<lparr>lp_napi_sched := False\<rparr>) s"
  by (simp_all add: netif_stop_queue_def netif_wake_queue_def napi_enable_def)

lemma ring_lp:
  "lp_AxiDma (es_lp s') = lp_AxiDma (es_lp s) \<Longrightarrow> eth_tx_ring s' = eth_tx_ring s"
  "lp_AxiDma (es_lp s') = lp_AxiDma (es_lp s) \<Longrightarrow> eth_rx_ring s' = eth_rx_ring s"
  by (simp_all add: eth_tx_ring_def eth_rx_ring_def)

text \<open>The state after a successful hand over, and that it only touches the transmit ring.\<close>

lemma eth_rings_tx:
  assumes "eth_rings s" and "ring_idle r'" and "same_bds (eth_tx_ring s) r'"
    and "lp_AxiDma (es_lp s') = lp_AxiDma (es_lp s)"
  shows "eth_rings (set_eth_tx r' s')"
  using assms same_bds_rings(1,2) [OF assms(3)] same_bds_size [OF assms(3)] ring_lp [OF assms(4)] by (simp add: eth_rings_def)

lemma eth_rings_rx:
  assumes "eth_rings s" and "ring_idle r'" and "same_bds (eth_rx_ring s) r'"
    and "lp_AxiDma (es_lp s') = lp_AxiDma (es_lp s)"
  shows "eth_rings (set_eth_rx r' s')"
  using assms same_bds_rings(1,2) [OF assms(3)] same_bds_size [OF assms(3)] ring_lp [OF assms(4)] by (simp add: eth_rings_def)

lemma send_full:
  assumes "ring_inv (eth_tx_ring s)" and "int (length (skb_frags (es_skb s skb))) + 1 < ETH_TX_BD_NUM"
    and "length (g_free (groups (eth_tx_ring s))) < Suc (length (skb_frags (es_skb s skb)))"
  shows "axi_DmaSend_internal B skb s = (XST_FAILURE, upd_lp (\<lambda>lp. lp\<lparr>lp_deferred_skb := skb\<rparr>) (netif_stop_queue s))"
proof -
  have "XAxiDma_BdRingAlloc (eth_tx_ring s) (int (length (skb_frags (es_skb s skb))) + 1) = (XST_FAILURE, eth_tx_ring s, None)"
    using free_cnt [OF assms(1)] assms(3) by (simp add: XAxiDma_BdRingAlloc_def)
  then show ?thesis
    using assms(2) by (simp add: axi_DmaSend_internal_def Let_def)
qed

definition count_csum :: "sk_buff \<Rightarrow> net_local \<Rightarrow> net_local" where
  "count_csum k lp = (if skb_ip_summed k = CHECKSUM_PARTIAL then lp\<lparr>lp_tx_hw_csums := lp_tx_hw_csums lp + 1\<rparr> else lp)"

lemma send_room:
  fixes s :: "'d eth_state"
  assumes idle: "ring_idle (eth_tx_ring s)" and ok: "skb_ok (es_skb s skb)"
    and short: "int (length (skb_frags (es_skb s skb))) + 1 < ETH_TX_BD_NUM"
  defines "n \<equiv> Suc (length (skb_frags (es_skb s skb)))"
  assumes room: "n \<le> length (g_free (groups (eth_tx_ring s)))"
  obtains r' w' where "axi_DmaSend_internal B skb s
      = (XST_SUCCESS, set_eth_tx r' ((upd_lp (count_csum (es_skb s skb)) s)\<lparr>es_world := w'\<rparr>))"
    and "ring_idle r'" and "same_bds (eth_tx_ring s) r'"
    and "g_hw (groups r') = g_hw (groups (eth_tx_ring s)) @ take n (g_free (groups (eth_tx_ring s)))"
    and "hw_ids (ram w') r' = hw_ids (ram (es_world s)) (eth_tx_ring s) @ skb # replicate (length (skb_frags (es_skb s skb))) NULL"
    and "ring_local (eth_tx_ring s) (ram (es_world s)) (ram w')"
    and "list_all2 (\<lambda>b p. \<not> addr_refused (bd_words (ram (es_world s)) b) (fst p)) (take n (g_free (groups (eth_tx_ring s))))
        (frame_pieces (es_skb s skb) skb)
      \<Longrightarrow> frame_described (ram w') (es_skb s skb) skb (take n (g_free (groups (eth_tx_ring s))))"
proof -
  let ?k = "es_skb s skb" and ?r = "eth_tx_ring s" and ?m = "ram (es_world s)"
  have nn: "int n = int (length (skb_frags ?k)) + 1"
    by (simp add: n_def)
  let ?s = "if skb_ip_summed ?k = CHECKSUM_PARTIAL then upd_lp (\<lambda>lp. lp\<lparr>lp_tx_hw_csums := lp_tx_hw_csums lp + 1\<rparr>) s else s"
  have w: "es_world ?s = es_world s" and s: "?s = upd_lp (count_csum ?k) s"
    by (simp_all add: upd_lp_def count_csum_def)
  show ?thesis
  proof (rule ring_send [OF idle ok room [unfolded n_def], folded n_def, where B = B and w = "es_world s" and skb = skb])
    fix b r1 r' and w' :: "'d world"
    assume alloc: "XAxiDma_BdRingAlloc ?r (int n) = (XST_SUCCESS, r1, Some b)"
      and hw: "XAxiDma_BdRingToHw B r1 (int n) b 0 ((es_world s)\<lparr>ram := send_fill r1 ?k skb b ?m\<rparr>) = (XST_SUCCESS, r', w')"
    have "axi_DmaSend_internal B skb s = (XST_SUCCESS, set_eth_tx r' (?s\<lparr>es_world := w'\<rparr>))"
      using short alloc [unfolded nn] hw [unfolded nn] unfolding axi_DmaSend_internal_def Let_def w by auto
    note that [OF this [unfolded s]]
    moreover assume "ring_idle r'" "same_bds ?r r'"
      "g_hw (groups r') = g_hw (groups ?r) @ take n (g_free (groups ?r))"
      "hw_ids (ram w') r' = hw_ids ?m ?r @ skb # replicate (length (skb_frags ?k)) NULL"
      "ring_local ?r ?m (ram w')"
      "list_all2 (\<lambda>b p. \<not> addr_refused (bd_words ?m b) (fst p)) (take n (g_free (groups ?r))) (frame_pieces ?k skb)
        \<Longrightarrow> frame_described (ram w') ?k skb (take n (g_free (groups ?r)))"
    ultimately show ?thesis
      by simp
  qed
qed

lemma send_internal_inv:
  assumes inv: "eth_inv s S P" and none: "deferred s = []" and skb: "skb \<noteq> NULL" "skb_ok (es_skb s skb)"
    and op: "axi_DmaSend_internal B skb s = (st, s')"
  shows "eth_inv s' (add_mset skb S) P \<and> (st = XST_SUCCESS \<longrightarrow> deferred s' = [])"
proof -
  let ?k = "es_skb s skb" and ?r = "eth_tx_ring s" and ?m = "ram (es_world s)"
  define n where "n = Suc (length (skb_frags ?k))"
  have rings: "eth_rings s" and idle: "ring_idle ?r" "ring_inv ?r"
    using inv by (auto simp: eth_inv_def eth_rings_def ring_idle_def)
  consider (long) "\<not> int (length (skb_frags ?k)) + 1 < 8192"
    | (full) "int (length (skb_frags ?k)) + 1 < 8192" "length (g_free (groups ?r)) < n"
    | (room) "int (length (skb_frags ?k)) + 1 < 8192" "n \<le> length (g_free (groups ?r))"
    by linarith
  then show ?thesis
  proof cases
    case long
    then have s': "s' = upd_stats (\<lambda>st. st\<lparr>tx_dropped := tx_dropped st + 1\<rparr>) (dev_kfree_skb skb s)" "st = XST_FAILURE"
      using op by (auto simp: axi_DmaSend_internal_def Let_def)
    show ?thesis
      using inv none by (simp add: s' eth_inv_def eth_rings_def tx_ids_def rx_ids_def deferred_def eth_tx_ring_def eth_rx_ring_def)
  next
    case full
    then have s': "s' = upd_lp (\<lambda>lp. lp\<lparr>lp_deferred_skb := skb\<rparr>) (netif_stop_queue s)" "st = XST_FAILURE"
      using op send_full [OF idle(2), of skb B] by (auto simp: n_def)
    show ?thesis
      using inv none skb full
      by (simp add: s' eth_inv_def eth_rings_def tx_ids_def rx_ids_def deferred_def eth_tx_ring_def eth_rx_ring_def
          skb_sendable_def)
  next
    case room
    let ?s = "upd_lp (count_csum ?k) s"
    obtain r' w' where s': "s' = set_eth_tx r' (?s\<lparr>es_world := w'\<rparr>)" "st = XST_SUCCESS"
      and r': "ring_idle r'" "same_bds ?r r'"
      and ids: "hw_ids (ram w') r' = hw_ids ?m ?r @ skb # replicate (length (skb_frags ?k)) NULL"
      and loc: "ring_local ?r ?m (ram w')"
      using send_room [OF idle(1) skb(2) room(1) room(2) [unfolded n_def], of B] op by (metis prod.inject)
    have rx: "hw_ids (ram w') (eth_rx_ring s) = rx_ids s"
      using hw_ids_apart [OF _ loc] rings by (simp add: eth_rings_def ring_idle_def rx_ids_def)
    have lp: "lp_AxiDma (es_lp (?s\<lparr>es_world := w'\<rparr>)) = lp_AxiDma (es_lp s)"
      by (simp add: count_csum_def)
    have "eth_rings s'"
      unfolding s' by (rule eth_rings_tx [OF rings r' lp])
    moreover have "eth_rx_ring s' = eth_rx_ring s"
      using ring_lp(2) [OF lp] unfolding s' by simp
    ultimately have "eth_rings s'" "tx_ids s' = tx_ids s @ [skb]" "rx_ids s' = rx_ids s" "deferred s' = deferred s"
      using ids skb(1) rx by (simp_all add: s' tx_ids_def rx_ids_def deferred_def count_csum_def)
    then show ?thesis
      using inv none s' by (simp add: eth_inv_def count_csum_def)
  qed
qed

section \<open>Completed transmissions\<close>

lemma send_clean_bd_state:
  "es_world (send_clean_bd r b s) = (es_world s)\<lparr>ram := XAxiDma_BdSetId (ram (es_world s)) b NULL\<rparr>"
  "es_freed (send_clean_bd r b s) = es_freed s @ filter (\<lambda>x. x \<noteq> NULL) [XAxiDma_BdGetId (ram (es_world s)) b]"
  "es_rcvd (send_clean_bd r b s) = es_rcvd s" "es_skb (send_clean_bd r b s) = es_skb s"
  "\<exists>st. es_lp (send_clean_bd r b s) = (es_lp s)\<lparr>lp_stats := st\<rparr>"
  by (auto simp: send_clean_bd_def Let_def)

lemma send_clean_loop_state:
  assumes g: "ring_geom r"
  shows "k \<le> ring_size r \<Longrightarrow> s' = send_clean_loop k r (ring_at r (a mod ring_size r)) s \<Longrightarrow>
    es_world s' = (es_world s)\<lparr>ram := unset_ids r a k (ram (es_world s))\<rparr>
    \<and> es_freed s' = es_freed s @ filter (\<lambda>x. x \<noteq> NULL) (map (XAxiDma_BdGetId (ram (es_world s))) (ring_seg r a k))
    \<and> es_rcvd s' = es_rcvd s \<and> es_skb s' = es_skb s \<and> (\<exists>st. es_lp s' = (es_lp s)\<lparr>lp_stats := st\<rparr>)"
proof (induction k arbitrary: a s)
  case 0
  have "\<exists>st. es_lp s = (es_lp s)\<lparr>lp_stats := st\<rparr>"
    by (rule exI [of _ "lp_stats (es_lp s)"]) simp
  then show ?case
    using 0 by (simp add: unset_ids_simps)
next
  case (Suc k)
  let ?b = "ring_at r (a mod ring_size r)"
  obtain st where st: "es_lp (send_clean_bd r ?b s) = (es_lp s)\<lparr>lp_stats := st\<rparr>"
    using send_clean_bd_state(5) by blast
  have "s' = send_clean_loop k r (ring_at r (Suc a mod ring_size r)) (send_clean_bd r ?b s)"
    using Suc.prems(2) by (simp add: next_seg [OF g])
  note ih = Suc.IH [OF Suc_leD [OF Suc.prems(1)] this, unfolded send_clean_bd_state(1-4) st]
  show ?case
    using ih ids_after_unset [OF g Suc.prems(1), of "ram (es_world s)" a]
    by (simp add: unset_ids_simps ring_seg_Suc)
qed

text \<open>One round of the outer loop: the completed set leaves the ring, its buffers are freed.\<close>

lemma send_round:
  assumes inv: "ring_inv r" "g_post (groups r) = []"
    and op: "XAxiDma_BdRingFromHw r N (ram (es_world s)) = (n, r1, b)" and n: "0 < n"
  obtains r2 s' where "send_clean_loop (nat n) r1 b s = s'" and "XAxiDma_BdRingFree r1 n b = (XST_SUCCESS, r2)"
    and "taken_back r (ram (es_world s)) r2 (ram (es_world s'))"
    and "es_freed s' @ filter (\<lambda>x. x \<noteq> NULL) (hw_ids (ram (es_world s')) r2)
      = es_freed s @ filter (\<lambda>x. x \<noteq> NULL) (hw_ids (ram (es_world s)) r)"
    and "es_rcvd s' = es_rcvd s" and "es_skb s' = es_skb s" and "\<exists>st. es_lp s' = (es_lp s)\<lparr>lp_stats := st\<rparr>"
proof -
  obtain a r2 where r1: "ring_geom r1" "b = ring_at r1 (a mod ring_size r1)" "nat n \<le> ring_size r1"
    and r2: "XAxiDma_BdRingFree r1 n b = (XST_SUCCESS, r2)"
      "taken_back r (ram (es_world s)) r2 (unset_ids r1 a (nat n) (ram (es_world s)))"
    and ids: "hw_ids (ram (es_world s)) r = map (XAxiDma_BdGetId (ram (es_world s))) (ring_seg r1 a (nat n))
      @ hw_ids (unset_ids r1 a (nat n) (ram (es_world s))) r2"
    by (rule take_back_ids [OF inv op n])
  show ?thesis
    using that [OF refl r2(1)] send_clean_loop_state [OF r1(1,3), of _ a s, folded r1(2), OF refl] ids r2(2) by simp
qed

text \<open>The outer loop frees everything it takes back; it never meets the error of \<^verbatim>\<open>XAxiDma_BdRingFree\<close>.\<close>

definition send_drained :: "XAxiDma_BdRing \<Rightarrow> 'd eth_state \<Rightarrow> XAxiDma_BdRing \<Rightarrow> 'd eth_state \<Rightarrow> bool" where
  "send_drained r s r' s' \<longleftrightarrow> taken_back r (ram (es_world s)) r' (ram (es_world s'))
    \<and> nothing_done (nat ETH_TX_BD_NUM) r' (ram (es_world s'))
    \<and> es_freed s' @ filter (\<lambda>x. x \<noteq> NULL) (hw_ids (ram (es_world s')) r')
        = es_freed s @ filter (\<lambda>x. x \<noteq> NULL) (hw_ids (ram (es_world s)) r)
    \<and> es_rcvd s' = es_rcvd s \<and> es_skb s' = es_skb s \<and> (\<exists>st. es_lp s' = (es_lp s)\<lparr>lp_stats := st\<rparr>)"

lemma send_drain_ok:
  assumes "ring_inv r" and "g_post (groups r) = []" and "send_drain r v s = (freed, r', v', s')"
  shows "freed \<and> send_drained r s r' s'
    \<and> (v \<noteq> 0 \<or> 0 < fst (XAxiDma_BdRingFromHw r ETH_TX_BD_NUM (ram (es_world s))) \<longrightarrow> v' \<noteq> 0)"
  using assms
proof (induction r v s rule: send_drain.induct)
  case (1 r v s)
  obtain n r1 b where op: "XAxiDma_BdRingFromHw r 8192 (ram (es_world s)) = (n, r1, b)"
    by (metis prod_cases3)
  show ?case
  proof (cases "0 < n")
    case True
    obtain r2 s1 where round: "send_clean_loop (nat n) r1 b s = s1" "XAxiDma_BdRingFree r1 n b = (XST_SUCCESS, r2)"
      "taken_back r (ram (es_world s)) r2 (ram (es_world s1))"
      "es_freed s1 @ filter (\<lambda>x. x \<noteq> NULL) (hw_ids (ram (es_world s1)) r2)
        = es_freed s @ filter (\<lambda>x. x \<noteq> NULL) (hw_ids (ram (es_world s)) r)"
      "es_rcvd s1 = es_rcvd s" "es_skb s1 = es_skb s" "\<exists>st. es_lp s1 = (es_lp s)\<lparr>lp_stats := st\<rparr>"
      by (rule send_round [OF 1(2,3) op True])
    have step: "send_drain r2 n s1 = (freed, r', v', s')"
      using 1(4) op True round(1,2) by (simp add: send_drain.simps [of r v s])
    note ih = 1(1) [OF op [symmetric] refl refl True round(1) [symmetric] round(2) [symmetric] refl _ _ _ step]
    then have "freed \<and> send_drained r2 s1 r' s' \<and> v' \<noteq> 0"
      using round(3) True by (auto simp: taken_back_def)
    then show ?thesis
      using round taken_back_trans [OF round(3)] by (auto simp: send_drained_def)
  next
    case False
    then have "r' = r1" "s' = s" "v' = v" "freed"
      using 1(4) op by (auto simp: send_drain.simps [of r v s])
    moreover have "\<exists>st. es_lp s = (es_lp s)\<lparr>lp_stats := st\<rparr>"
      by (rule exI [of _ "lp_stats (es_lp s)"]) simp
    ultimately show ?thesis
      using nothing_taken [OF 1(2,3) op False] op by (simp add: send_drained_def hw_ids_def)
  qed
qed

lemma drained_inv:
  assumes inv: "eth_inv s S P" and d: "send_drained (eth_tx_ring s) s r' s'"
  shows "eth_inv (set_eth_tx r' s') S P" and "deferred (set_eth_tx r' s') = deferred s"
proof -
  obtain st where lp: "es_lp s' = (es_lp s)\<lparr>lp_stats := st\<rparr>"
    using d by (auto simp: send_drained_def)
  have rings: "eth_rings s" and ring: "eth_rx_ring s' = eth_rx_ring s"
    using inv lp by (simp_all add: eth_inv_def eth_rx_ring_def)
  have "ring_idle r'" "same_bds (eth_tx_ring s) r'"
    using d rings taken_back_idle by (auto simp: send_drained_def eth_rings_def) (simp add: taken_back_def)
  then have "eth_rings (set_eth_tx r' s')"
    by (rule eth_rings_tx [OF rings]) (simp add: lp)
  moreover have rx: "rx_ids (set_eth_tx r' s') = rx_ids s"
    using hw_ids_apart [of "eth_rx_ring s" "eth_tx_ring s" "ram (es_world s)" "ram (es_world s')"] d rings
    by (simp add: rx_ids_def ring send_drained_def taken_back_def eth_rings_def ring_idle_def)
  moreover have "mset (es_freed s' @ tx_ids (set_eth_tx r' s')) = mset (es_freed s @ tx_ids s)"
    using d by (simp add: send_drained_def tx_ids_def del: mset_append)
  moreover show "deferred (set_eth_tx r' s') = deferred s"
    by (simp add: deferred_def lp)
  ultimately show "eth_inv (set_eth_tx r' s') S P"
    using inv d by (simp add: eth_inv_def lp send_drained_def)
qed

lemma wake_inv: "eth_inv s S P \<Longrightarrow> deferred s = [] \<Longrightarrow> eth_inv (netif_wake_queue s) S P"
  by (simp add: eth_inv_def eth_rings_def tx_ids_def rx_ids_def deferred_def eth_tx_ring_def eth_rx_ring_def)

text \<open>The bottom half looks at the deferred buffer only if it took something back or the uninitialised counter is not
  zero. Otherwise it restarts the queue with the buffer still deferred; the assumption excludes this.\<close>

definition bh_looks :: "int \<Rightarrow> 'd eth_state \<Rightarrow> bool" where
  "bh_looks save0 s \<longleftrightarrow> save0 \<noteq> 0 \<or> 0 < fst (XAxiDma_BdRingFromHw (eth_tx_ring s) ETH_TX_BD_NUM (ram (es_world s)))"

lemma send_bh_netdev_inv:
  assumes inv: "eth_inv s S P" and ok: "deferred s = [] \<or> bh_looks save0 s"
  shows "eth_inv (DmaSendHandlerBH_netdev B save0 s) S P"
proof -
  obtain freed r' v s' where d: "send_drain (eth_tx_ring s) save0 s = (freed, r', v, s')"
    by (metis prod_cases4)
  have r: "ring_inv (eth_tx_ring s)" "g_post (groups (eth_tx_ring s)) = []"
    using inv by (simp_all add: eth_inv_def eth_rings_def ring_idle_def)
  note dr = send_drain_ok [OF r d]
  let ?s = "set_eth_tx r' s'" and ?d = "lp_deferred_skb (es_lp (set_eth_tx r' s'))"
  have inv1: "eth_inv ?s S P" and def1: "deferred ?s = deferred s"
    using drained_inv [OF inv] dr by auto
  show ?thesis
  proof (cases "deferred s = []")
    case True
    then have "?d = NULL"
      using def1 by (auto simp: deferred_def split: if_splits)
    then have "DmaSendHandlerBH_netdev B save0 s = netif_wake_queue ?s"
      using d dr by (simp add: DmaSendHandlerBH_netdev_def Let_def)
    then show ?thesis
      using wake_inv [OF inv1] def1 True by simp
  next
    case False
    then have nn: "?d \<noteq> NULL" and v: "v \<noteq> 0"
      using def1 dr ok by (auto simp: deferred_def bh_looks_def split: if_splits)
    let ?s2 = "upd_lp (\<lambda>lp. lp\<lparr>lp_deferred_skb := NULL\<rparr>) ?s"
    obtain st s3 where op: "axi_DmaSend_internal B ?d ?s2 = (st, s3)"
      by (metis surj_pair)
    have "deferred ?s = [?d]"
      using nn by (simp add: deferred_def)
    then obtain S' where S: "S = add_mset ?d S'" and inv2: "eth_inv ?s2 S' P" and none: "deferred ?s2 = []"
      and sendable: "skb_sendable (es_skb ?s2 ?d)"
      using inv1 by (simp add: eth_inv_def eth_rings_def tx_ids_def rx_ids_def deferred_def [of ?s2] eth_tx_ring_def eth_rx_ring_def)
    have "eth_inv s3 S P \<and> (st = XST_SUCCESS \<longrightarrow> deferred s3 = [])"
      using send_internal_inv [OF inv2 none nn _ op] sendable S by (simp add: skb_sendable_def)
    then show ?thesis
      using wake_inv [of s3] d dr nn v op by (simp add: DmaSendHandlerBH_netdev_def Let_def)
  qed
qed

lemma quiet_xmit: "eth_quiet s (upd_lp (\<lambda>lp. lp\<lparr>lp_xmit := b\<rparr>) s)"
  by (simp add: eth_quiet_def eth_tx_ring_def eth_rx_ring_def)

lemma quiet_eth_world: "ram w = ram (es_world s) \<Longrightarrow> eth_quiet s (s\<lparr>es_world := w\<rparr>)"
  by (simp add: eth_quiet_def)

lemma ram_int [simp]:
  "ram (XAxiDma_mBdRingIntEnable B r k w) = ram w" "ram (XAxiDma_mBdRingIntDisable B r k w) = ram w"
  "ram (XAxiDma_mBdRingAckIrq B r k w) = ram w"
  by (simp_all add: XAxiDma_mBdRingIntEnable_def XAxiDma_mBdRingIntDisable_def XAxiDma_mBdRingAckIrq_def split_beta Let_def ram_reg)

lemma send_bh_inv:
  assumes inv: "eth_inv s S P" and ok: "deferred s = [] \<or> bh_looks save0 s"
  shows "eth_inv (DmaSendHandlerBH B save0 s) S P"
proof (cases "lp_xmit (es_lp s)")
  case True
  let ?s = "upd_lp (\<lambda>lp. lp\<lparr>lp_xmit := False\<rparr>) s"
  have "deferred ?s = [] \<or> bh_looks save0 ?s"
    using ok by (simp add: deferred_def bh_looks_def eth_tx_ring_def)
  then have "eth_inv (DmaSendHandlerBH_netdev B save0 ?s) S P"
    by (rule send_bh_netdev_inv [OF quiet_eth_inv [OF inv quiet_xmit]])
  then show ?thesis
    using True by (simp add: DmaSendHandlerBH_def Let_def) (rule quiet_eth_inv [OF _ quiet_eth_world], simp_all)
qed (use inv in \<open>simp add: DmaSendHandlerBH_def\<close>)

section \<open>Receiving\<close>

lemma recv_clean_bd_state:
  assumes "XAxiDma_BdGetId (ram (es_world s)) b \<noteq> NULL"
  obtains s' where "recv_clean_bd E b s = Some (XAxiDma_BdGetId (ram (es_world s)) b, s')"
    and "es_world s' = (es_world s)\<lparr>ram := XAxiDma_BdSetId (ram (es_world s)) b NULL\<rparr>"
    and "es_freed s' = es_freed s" and "es_rcvd s' = es_rcvd s" and "\<forall>x. skb_shape (es_skb s' x) = skb_shape (es_skb s x)"
    and "\<exists>st c. es_lp s' = (es_lp s)\<lparr>lp_stats := st, lp_rx_hw_csums := c\<rparr>"
proof -
  have lp: "\<exists>st c. (es_lp s)\<lparr>lp_rx_hw_csums := lp_rx_hw_csums (es_lp s) + 1, lp_stats := z\<rparr> = (es_lp s)\<lparr>lp_stats := st, lp_rx_hw_csums := c\<rparr>"
    "\<exists>st c. (es_lp s)\<lparr>lp_stats := z\<rparr> = (es_lp s)\<lparr>lp_stats := st, lp_rx_hw_csums := c\<rparr>" for z
    by (cases "es_lp s"; auto)+
  show ?thesis
    using that assms lp by (auto simp: recv_clean_bd_def Let_def skb_shape_def split_beta)
qed

lemma recv_clean_loop_state:
  assumes g: "ring_geom r"
  shows "k \<le> ring_size r \<Longrightarrow> NULL \<notin> set (map (XAxiDma_BdGetId (ram (es_world s))) (ring_seg r a k)) \<Longrightarrow>
    \<exists>s'. recv_clean_loop k E r (ring_at r (a mod ring_size r)) xs s
        = Some (xs @ map (XAxiDma_BdGetId (ram (es_world s))) (ring_seg r a k), s')
    \<and> es_world s' = (es_world s)\<lparr>ram := unset_ids r a k (ram (es_world s))\<rparr>
    \<and> es_freed s' = es_freed s \<and> es_rcvd s' = es_rcvd s \<and> (\<forall>x. skb_shape (es_skb s' x) = skb_shape (es_skb s x))
    \<and> (\<exists>st c. es_lp s' = (es_lp s)\<lparr>lp_stats := st, lp_rx_hw_csums := c\<rparr>)"
proof (induction k arbitrary: a xs s)
  case 0
  have "\<exists>st c. es_lp s = (es_lp s)\<lparr>lp_stats := st, lp_rx_hw_csums := c\<rparr>"
    by (rule exI [of _ "lp_stats (es_lp s)"], rule exI [of _ "lp_rx_hw_csums (es_lp s)"]) simp
  then show ?case
    by (simp add: unset_ids_simps)
next
  case (Suc k)
  let ?b = "ring_at r (a mod ring_size r)" and ?m = "ram (es_world s)"
  have "XAxiDma_BdGetId ?m ?b \<noteq> NULL"
    using Suc.prems(2) by (auto simp: ring_seg_Suc)
  then obtain s1 where s1: "recv_clean_bd E ?b s = Some (XAxiDma_BdGetId ?m ?b, s1)"
    "es_world s1 = (es_world s)\<lparr>ram := XAxiDma_BdSetId ?m ?b NULL\<rparr>"
    "es_freed s1 = es_freed s" "es_rcvd s1 = es_rcvd s" "\<forall>x. skb_shape (es_skb s1 x) = skb_shape (es_skb s x)"
    "\<exists>st c. es_lp s1 = (es_lp s)\<lparr>lp_stats := st, lp_rx_hw_csums := c\<rparr>"
    by (rule recv_clean_bd_state [where E = E])
  obtain st c where lp: "es_lp s1 = (es_lp s)\<lparr>lp_stats := st, lp_rx_hw_csums := c\<rparr>"
    using s1(6) by blast
  have ids: "map (XAxiDma_BdGetId (ram (es_world s1))) (ring_seg r (Suc a) k) = map (XAxiDma_BdGetId ?m) (ring_seg r (Suc a) k)"
    using ids_after_unset [OF g Suc.prems(1)] by (simp add: s1(2))
  have "NULL \<notin> set (map (XAxiDma_BdGetId (ram (es_world s1))) (ring_seg r (Suc a) k))"
    unfolding ids using Suc.prems(2) by (simp add: ring_seg_Suc)
  from Suc.IH [OF Suc_leD [OF Suc.prems(1)] this, of "xs @ [XAxiDma_BdGetId ?m ?b]", unfolded ids]
  obtain s' where s': "recv_clean_loop k E r (ring_at r (Suc a mod ring_size r)) (xs @ [XAxiDma_BdGetId ?m ?b]) s1
        = Some ((xs @ [XAxiDma_BdGetId ?m ?b]) @ map (XAxiDma_BdGetId ?m) (ring_seg r (Suc a) k), s')"
    "es_world s' = (es_world s1)\<lparr>ram := unset_ids r (Suc a) k (ram (es_world s1))\<rparr>"
    "es_freed s' = es_freed s1" "es_rcvd s' = es_rcvd s1" "\<forall>x. skb_shape (es_skb s' x) = skb_shape (es_skb s1 x)"
    "\<exists>st c. es_lp s' = (es_lp s1)\<lparr>lp_stats := st, lp_rx_hw_csums := c\<rparr>"
    by blast
  have "\<exists>st c. es_lp s' = (es_lp s)\<lparr>lp_stats := st, lp_rx_hw_csums := c\<rparr>"
    using s'(6) by (auto simp: lp)
  then show ?case
    using s' s1 by (simp add: next_seg [OF g] ring_seg_Suc unset_ids_simps)
qed

text \<open>What stays of the transmit side when only the receive ring and its memory change.\<close>

lemma rx_change_inv:
  assumes inv: "eth_inv s S P" and r': "ring_idle r'" "same_bds (eth_rx_ring s) r'"
    and loc: "ring_local (eth_rx_ring s) (ram (es_world s)) (ram (es_world s'))"
    and rcvd: "P' = es_rcvd s' @ hw_ids (ram (es_world s')) r'" "NULL \<notin> set (hw_ids (ram (es_world s')) r')"
    and same: "es_freed s' = es_freed s" "\<forall>x. skb_shape (es_skb s' x) = skb_shape (es_skb s x)"
      "\<exists>st c. es_lp s' = (es_lp s)\<lparr>lp_stats := st, lp_rx_hw_csums := c\<rparr>"
  shows "eth_inv (set_eth_rx r' s') S P'"
proof -
  obtain st c where lp: "es_lp s' = (es_lp s)\<lparr>lp_stats := st, lp_rx_hw_csums := c\<rparr>"
    using same(3) by blast
  have rings: "eth_rings s" and ne: "RxBdRing (lp_AxiDma (es_lp s')) \<noteq> []" and ring: "eth_tx_ring s' = eth_tx_ring s"
    using inv lp by (simp_all add: eth_inv_def eth_rings_def eth_tx_ring_def)
  have "eth_rings (set_eth_rx r' s')"
    by (rule eth_rings_rx [OF rings r']) (simp add: lp)
  moreover have "tx_ids (set_eth_rx r' s') = tx_ids s"
    using hw_ids_apart [OF _ loc] rings by (simp add: tx_ids_def ring eth_rings_def ring_idle_def)
  moreover have "rx_ids (set_eth_rx r' s') = hw_ids (ram (es_world s')) r'"
    using ne by (simp add: rx_ids_def)
  moreover have "deferred (set_eth_rx r' s') = deferred s"
    by (simp add: deferred_def lp)
  ultimately show ?thesis
    using inv rcvd same skb_sendable_shape [of "es_skb s' (lp_deferred_skb (es_lp s))"] by (auto simp: eth_inv_def lp)
qed

text \<open>Taking one completed set of receive buffers out of the ring.\<close>

lemma recv_round:
  assumes r: "ring_inv r" "g_post (groups r) = []" and nn: "NULL \<notin> set (hw_ids (ram (es_world s)) r)"
    and op: "XAxiDma_BdRingFromHw r N (ram (es_world s)) = (n, r1, b)" and n: "0 < n"
  obtains skbs s' r2 where "recv_clean_loop (nat n) E r1 b [] s = Some (skbs, s')"
    and "XAxiDma_BdRingFree r1 n b = (XST_SUCCESS, r2)" and "taken_back r (ram (es_world s)) r2 (ram (es_world s'))"
    and "FreeCnt r2 = FreeCnt r + int (length skbs)"
    and "hw_ids (ram (es_world s)) r = skbs @ hw_ids (ram (es_world s')) r2"
    and "es_freed s' = es_freed s" and "es_rcvd s' = es_rcvd s" and "\<forall>x. skb_shape (es_skb s' x) = skb_shape (es_skb s x)"
    and "\<exists>st c. es_lp s' = (es_lp s)\<lparr>lp_stats := st, lp_rx_hw_csums := c\<rparr>"
proof -
  obtain a r2 where r1: "ring_geom r1" "b = ring_at r1 (a mod ring_size r1)" "nat n \<le> ring_size r1"
    and r2: "XAxiDma_BdRingFree r1 n b = (XST_SUCCESS, r2)"
      "taken_back r (ram (es_world s)) r2 (unset_ids r1 a (nat n) (ram (es_world s)))" "FreeCnt r2 = FreeCnt r + n"
    and ids: "hw_ids (ram (es_world s)) r = map (XAxiDma_BdGetId (ram (es_world s))) (ring_seg r1 a (nat n))
      @ hw_ids (unset_ids r1 a (nat n) (ram (es_world s))) r2"
    by (rule take_back_ids [OF r op n])
  have "NULL \<notin> set (map (XAxiDma_BdGetId (ram (es_world s))) (ring_seg r1 a (nat n)))"
    using nn ids by simp
  from recv_clean_loop_state [OF r1(1,3) this, of E "[]", folded r1(2)] obtain s' where
    loop: "recv_clean_loop (nat n) E r1 b [] s = Some (map (XAxiDma_BdGetId (ram (es_world s))) (ring_seg r1 a (nat n)), s')"
    and w: "es_world s' = (es_world s)\<lparr>ram := unset_ids r1 a (nat n) (ram (es_world s))\<rparr>"
    and same: "es_freed s' = es_freed s" "es_rcvd s' = es_rcvd s" "\<forall>x. skb_shape (es_skb s' x) = skb_shape (es_skb s x)"
      "\<exists>st c. es_lp s' = (es_lp s)\<lparr>lp_stats := st, lp_rx_hw_csums := c\<rparr>"
    by auto
  show ?thesis
    by (rule that [OF loop r2(1) _ _ _ same]) (use r2 ids n w in simp_all)
qed

lemma recv_bh_ok:
  assumes inv: "eth_inv s S P"
  obtains skbs s' where "DmaRecvHandlerBH_netdev B E s = Some (skbs, s')"
    and "eth_inv (s'\<lparr>es_rcvd := es_rcvd s' @ skbs\<rparr>) S P"
    and "FreeCnt (eth_rx_ring s') = FreeCnt (eth_rx_ring s) + int (length skbs)"
proof -
  let ?r = "eth_rx_ring s" and ?m = "ram (es_world s)"
  have r: "ring_inv ?r" "g_post (groups ?r) = []" and idle: "ring_idle ?r" and ne: "RxBdRing (lp_AxiDma (es_lp s)) \<noteq> []"
    and P: "P = es_rcvd s @ hw_ids ?m ?r" "NULL \<notin> set (hw_ids ?m ?r)"
    using inv by (simp_all add: eth_inv_def eth_rings_def ring_idle_def rx_ids_def)
  have rcvd: "set_eth_rx r' (s'\<lparr>es_rcvd := x\<rparr>) = (set_eth_rx r' s')\<lparr>es_rcvd := x\<rparr>" for r' x and s' :: "'a eth_state"
    by (simp add: set_eth_rx_def upd_lp_def)
  obtain n r1 b where op: "XAxiDma_BdRingFromHw ?r 8192 ?m = (n, r1, b)"
    by (metis prod_cases3)
  show ?thesis
  proof (cases "0 < n")
    case False
    note none = nothing_taken [OF r op False]
    have "ring_idle r1"
      by (rule taken_back_idle [OF idle none(3)])
    moreover have r1: "groups r1 = groups ?r" "ring_inv r1" "same_bds ?r r1"
      using none(2,3) by (simp_all add: taken_back_def)
    moreover have "FreeCnt r1 = FreeCnt ?r"
      using r1(1) free_cnt [OF r(1)] free_cnt [OF r1(2)] by simp
    moreover have "\<exists>st c. es_lp s = (es_lp s)\<lparr>lp_stats := st, lp_rx_hw_csums := c\<rparr>"
      by (rule exI [of _ "lp_stats (es_lp s)"], rule exI [of _ "lp_rx_hw_csums (es_lp s)"]) simp
    ultimately have "eth_inv (set_eth_rx r1 (s\<lparr>es_rcvd := es_rcvd s @ []\<rparr>)) S P"
      using P r1(1) by (intro rx_change_inv [OF inv _ r1(3)]) (simp_all add: hw_ids_def)
    moreover have "DmaRecvHandlerBH_netdev B E s = Some ([], set_eth_rx r1 s)"
      using op False by (simp add: DmaRecvHandlerBH_netdev_def)
    ultimately show ?thesis
      using that [of "[]" "set_eth_rx r1 s"] ne \<open>FreeCnt r1 = FreeCnt ?r\<close> unfolding rcvd by simp
  next
    case True
    obtain skbs s' r2 where loop: "recv_clean_loop (nat n) E r1 b [] s = Some (skbs, s')"
      "XAxiDma_BdRingFree r1 n b = (XST_SUCCESS, r2)"
      and r2: "taken_back ?r ?m r2 (ram (es_world s'))" "FreeCnt r2 = FreeCnt ?r + int (length skbs)"
      and ids: "hw_ids ?m ?r = skbs @ hw_ids (ram (es_world s')) r2"
      and same: "es_freed s' = es_freed s" "es_rcvd s' = es_rcvd s" "\<forall>x. skb_shape (es_skb s' x) = skb_shape (es_skb s x)"
        "\<exists>st c. es_lp s' = (es_lp s)\<lparr>lp_stats := st, lp_rx_hw_csums := c\<rparr>"
      by (rule recv_round [OF r P(2) op True, where E = E])
    have "eth_inv (set_eth_rx r2 (s'\<lparr>es_rcvd := es_rcvd s' @ skbs\<rparr>)) S P"
      by (rule rx_change_inv [OF inv taken_back_idle [OF idle r2(1)]]) (use P ids r2(1) same in \<open>auto simp: taken_back_def\<close>)
    moreover have "DmaRecvHandlerBH_netdev B E s = Some (skbs, set_eth_rx r2 s')"
      using op True loop by (simp add: DmaRecvHandlerBH_netdev_def)
    moreover have "RxBdRing (lp_AxiDma (es_lp s')) \<noteq> []"
      using same(4) ne by auto
    ultimately show ?thesis
      using that [of skbs "set_eth_rx r2 s'"] r2(2) unfolding rcvd by simp
  qed
qed

lemma setup_recv_inv:
  assumes inv: "eth_inv s S P"
  shows "eth_inv (axi_DmaSetupRecvBuffers B E s) S
    (P @ takeWhile (\<lambda>skb. skb \<noteq> NULL) (take (nat (FreeCnt (eth_rx_ring s))) (re_alloc E)))"
proof -
  let ?r = "eth_rx_ring s" and ?m = "ram (es_world s)" and ?fs = "lp_frame_size (es_lp s)"
  define skbs where "skbs = takeWhile (\<lambda>skb. skb \<noteq> NULL) (take (nat (FreeCnt ?r)) (re_alloc E))"
  have idle: "ring_idle ?r" and fits: "len_fits ?fs" and P: "P = es_rcvd s @ hw_ids ?m ?r" "NULL \<notin> set (hw_ids ?m ?r)"
    using inv by (simp_all add: eth_inv_def eth_rings_def rx_ids_def)
  have nn: "NULL \<notin> set skbs" and room: "length skbs \<le> length (g_free (groups ?r))"
    using length_takeWhile_le [of "\<lambda>skb. skb \<noteq> NULL" "take (nat (FreeCnt ?r)) (re_alloc E)"] free_cnt [of ?r] idle
    by (auto simp: skbs_def ring_idle_def dest: set_takeWhileD)
  show ?thesis
  proof (cases "skbs = []")
    case True
    then have "axi_DmaSetupRecvBuffers B E s = s"
      by (simp add: axi_DmaSetupRecvBuffers_def skbs_def Let_def)
    then show ?thesis
      using inv True by (simp add: skbs_def)
  next
    case False
    obtain b r1 r' w' where hw: "XAxiDma_BdRingAlloc ?r (int (length skbs)) = (XST_SUCCESS, r1, Some b)"
      "XAxiDma_BdRingToHw B r1 (int (length skbs)) b 0 ((es_world s)\<lparr>ram := recv_fills r1 ?fs E skbs b ?m\<rparr>) = (XST_SUCCESS, r', w')"
      and r': "ring_idle r'" "same_bds ?r r'" and ids: "hw_ids (ram w') r' = hw_ids ?m ?r @ skbs"
      and loc: "ring_local ?r ?m (ram w')"
      by (rule ring_post [OF idle fits False room, where B = B and w = "es_world s" and E = E])
    have "axi_DmaSetupRecvBuffers B E s = set_eth_rx r' (s\<lparr>es_world := w'\<rparr>)"
      using False hw by (simp add: axi_DmaSetupRecvBuffers_def skbs_def [symmetric] Let_def)
    moreover have "\<exists>st c. es_lp s = (es_lp s)\<lparr>lp_stats := st, lp_rx_hw_csums := c\<rparr>"
      by (rule exI [of _ "lp_stats (es_lp s)"], rule exI [of _ "lp_rx_hw_csums (es_lp s)"]) simp
    then have "eth_inv (set_eth_rx r' (s\<lparr>es_world := w'\<rparr>)) S (P @ skbs)"
      using P nn ids loc by (intro rx_change_inv [OF inv r']) simp_all
    ultimately show ?thesis
      by (simp add: skbs_def)
  qed
qed

lemma setup_recv_tx:
  assumes "RxBdRing (lp_AxiDma (es_lp s)) \<noteq> []"
  shows "same_queue (eth_tx_ring s) (eth_tx_ring (axi_DmaSetupRecvBuffers B E s))"
proof -
  have reset: "same_queue (eth_tx_ring x) (eth_tx_ring (eth_dma_reset B x))"
    if "RxBdRing (lp_AxiDma (es_lp x)) \<noteq> []" for x :: "'a eth_state"
    using quiet_dma_reset(1) [OF that] by (simp add: eth_quiet_def)
  have lp: "es_lp (fold dev_kfree_skb xs x) = es_lp x" for xs and x :: "'a eth_state"
    by (induction xs arbitrary: x) simp_all
  have ring: "eth_tx_ring (fold dev_kfree_skb xs x) = eth_tx_ring x" "eth_tx_ring (upd_ram f x) = eth_tx_ring x"
    for xs f and x :: "'a eth_state"
    by (simp_all add: eth_tx_ring_def lp)
  have "same_queue (eth_tx_ring s) (eth_tx_ring (eth_dma_reset B (fold dev_kfree_skb xs s)))" for xs
    using reset [of "fold dev_kfree_skb xs s"] assms by (simp add: ring lp)
  moreover have "same_queue (eth_tx_ring s) (eth_tx_ring (eth_dma_reset B (upd_ram f (set_eth_rx r (s\<lparr>es_world := w\<rparr>)))))" for f r w
    using reset [of "upd_ram f (set_eth_rx r (s\<lparr>es_world := w\<rparr>))"] assms by (simp add: ring)
  ultimately show ?thesis
    by (auto simp: axi_DmaSetupRecvBuffers_def Let_def split: prod.splits option.splits)
qed

text \<open>The buffers that a poll which delivers \<open>n\<close> frames posts.\<close>

definition rx_posted :: "rx_env \<Rightarrow> nat \<Rightarrow> 'd eth_state \<Rightarrow> ptr list" where
  "rx_posted E n s = (if n = 0 then []
     else takeWhile (\<lambda>skb. skb \<noteq> NULL) (take (nat (FreeCnt (eth_rx_ring s) + int n)) (re_alloc E)))"

lemma poll_ok:
  assumes inv: "eth_inv s S P"
  obtains n s' where "axi_poll B E budget s = Some (n, s')" and "eth_inv s' S (P @ rx_posted E n s)"
proof -
  obtain skbs s1 where bh: "DmaRecvHandlerBH_netdev B E s = Some (skbs, s1)"
    and inv1: "eth_inv (s1\<lparr>es_rcvd := es_rcvd s1 @ skbs\<rparr>) S P"
    and cnt: "FreeCnt (eth_rx_ring s1) = FreeCnt (eth_rx_ring s) + int (length skbs)"
    by (rule recv_bh_ok [OF inv, where B = B and E = E])
  let ?s1 = "s1\<lparr>es_rcvd := es_rcvd s1 @ skbs\<rparr>"
  define s2 where "s2 = (if length skbs \<noteq> 0 then axi_DmaSetupRecvBuffers B E ?s1 else ?s1)"
  have "eth_rx_ring ?s1 = eth_rx_ring s1"
    by (simp add: eth_rx_ring_def)
  then have inv2: "eth_inv s2 S (P @ rx_posted E (length skbs) s)"
    using inv1 setup_recv_inv [OF inv1, of B E] cnt by (cases "skbs = []") (simp_all add: s2_def rx_posted_def)
  have clean: "axi_rx_clean B E s = Some (length skbs, s2)"
    using bh by (simp add: axi_rx_clean_def s2_def Let_def)
  let ?s3 = "upd_lp (\<lambda>lp. lp\<lparr>lp_napi_sched := False\<rparr>) s2"
  have "eth_quiet s2 (?s3\<lparr>es_world := XAxiDma_mBdRingIntEnable B (eth_rx_ring ?s3) XAXIDMA_IRQ_ALL_MASK (es_world ?s3)\<rparr>)"
    by (simp add: eth_quiet_def eth_tx_ring_def eth_rx_ring_def)
  then show ?thesis
    using that quiet_eth_inv [OF inv2] inv2 clean by (auto simp: axi_poll_def Let_def)
qed

section \<open>Interrupts, timer and reset\<close>

lemma ram_eth_dump [simp]: "ram (eth_ring_dump B r w) = ram w"
  by (simp add: eth_ring_dump_def Let_def ram_reg)

lemma quiet_eth_isr:
  "eth_quiet s (snd (axi_dma_rx_interrupt B s))" "eth_quiet s (snd (axi_dma_tx_interrupt B s))"
  by (auto simp: axi_dma_rx_interrupt_def axi_dma_tx_interrupt_def eth_quiet_def Let_def split_beta ram_reg
      eth_tx_ring_def eth_rx_ring_def)

lemma quiet_eth_interrupt: "eth_quiet s (snd (axi_interrupt B s))"
proof -
  let ?w = "snd (XAxiDma_ReadReg B (ChanBase (eth_rx_ring s)) XAXIDMA_SR_OFFSET
    (snd (XAxiDma_ReadReg B (ChanBase (eth_tx_ring s)) XAXIDMA_SR_OFFSET (es_world s))))"
  have w: "eth_quiet s (s\<lparr>es_world := ?w\<rparr>)"
    by (rule quiet_eth_world) (simp add: ram_reg)
  show ?thesis
    by (auto simp: axi_interrupt_def Let_def split_beta intro: w eth_quiet_trans [OF w] quiet_eth_isr eth_quiet_trans [OF quiet_eth_isr(2)])
qed

lemma quiet_poll_isr: "eth_quiet s (axi_poll_isr B T s)"
proof (rule eth_quiet_trans [OF quiet_eth_interrupt [of s B]])
  show "eth_quiet (snd (axi_interrupt B s)) (axi_poll_isr B T s)"
    by (simp add: axi_poll_isr_def eth_quiet_def eth_tx_ring_def eth_rx_ring_def)
qed

lemma ram_coalesce [simp]:
  "ram (snd (XAxiDma_BdRingGetCoalesce B r w)) = ram w" "ram (snd (XAxiDma_BdRingSetCoalesce B r c t w)) = ram w"
  by (simp_all add: XAxiDma_BdRingGetCoalesce_def XAxiDma_BdRingSetCoalesce_def split_beta Let_def ram_reg)

lemma ram_wait [simp]: "ram (snd (CfgInitialize_wait n B I w)) = ram w"
proof -
  have "ram (snd (XAxiDma_ResetIsDone B I w)) = ram w" for w
    by (simp add: XAxiDma_ResetIsDone_def split_beta Let_def ram_reg)
  then show ?thesis
    by (induction n arbitrary: w) (simp_all add: split_beta Let_def)
qed

text \<open>Dropping the deferred buffer.\<close>

lemma drop_deferred_inv:
  assumes "eth_inv s S P"
  shows "eth_inv (let skb = lp_deferred_skb (es_lp s) in if skb \<noteq> NULL
      then upd_stats f (upd_lp (\<lambda>lp. lp\<lparr>lp_deferred_skb := NULL\<rparr>) (dev_kfree_skb skb s)) else s) S P"
    and "deferred (let skb = lp_deferred_skb (es_lp s) in if skb \<noteq> NULL
      then upd_stats f (upd_lp (\<lambda>lp. lp\<lparr>lp_deferred_skb := NULL\<rparr>) (dev_kfree_skb skb s)) else s) = []"
  using assms
  by (simp_all add: eth_inv_def eth_rings_def tx_ids_def rx_ids_def deferred_def eth_tx_ring_def eth_rx_ring_def Let_def)

lemma quiet_napi: "eth_quiet s (napi_enable s)"
  by (simp add: eth_quiet_def eth_tx_ring_def eth_rx_ring_def)

lemma axi_reset_inv:
  assumes inv: "eth_inv s S P"
  shows "eth_inv (axi_reset B s) S P"
proof -
  let ?s0 = "upd_lp (\<lambda>lp. lp\<lparr>nd_stopped := True\<rparr>) s"
  define g where "g = XAxiDma_BdRingGetCoalesce B (eth_rx_ring ?s0) (es_world ?s0)"
  define g' where "g' = XAxiDma_BdRingGetCoalesce B (eth_tx_ring ?s0) (snd g)"
  define s1 where "s1 = eth_dma_reset B (?s0\<lparr>es_world := snd g'\<rparr>)"
  define t where "t = CfgInitialize_wait 500 B (lp_AxiDma (es_lp s1)) (es_world s1)"
  define s2 where "s2 = s1\<lparr>es_world := snd t\<rparr>"
  have "eth_quiet s (?s0\<lparr>es_world := snd g'\<rparr>)"
    by (simp add: eth_quiet_def eth_tx_ring_def eth_rx_ring_def g'_def g_def)
  moreover have "eth_quiet (?s0\<lparr>es_world := snd g'\<rparr>) s1"
    unfolding s1_def using inv by (intro quiet_dma_reset) (simp add: eth_inv_def eth_rings_def)
  moreover have "eth_quiet s1 s2"
    unfolding s2_def by (rule quiet_eth_world) (simp add: t_def)
  ultimately have inv2: "eth_inv s2 S P"
    using quiet_eth_inv inv by blast
  let ?d = "\<lambda>s. let skb = lp_deferred_skb (es_lp s) in if skb \<noteq> NULL
      then upd_stats (\<lambda>st. st\<lparr>tx_errors := tx_errors st + 1\<rparr>)
             (upd_lp (\<lambda>lp. lp\<lparr>lp_deferred_skb := NULL\<rparr>) (dev_kfree_skb skb s)) else s"
  define w where "w = axitemac_start B (lp_reg_base (es_lp (?d s2)))
    (XAxiDma_mBdRingIntEnable B (eth_tx_ring s2) XAXIDMA_IRQ_ALL_MASK (XAxiDma_mBdRingIntEnable B (eth_rx_ring s2) XAXIDMA_IRQ_ALL_MASK
      (snd (XAxiDma_BdRingSetCoalesce B (eth_tx_ring s2) (fst (fst g')) (snd (fst g'))
        (snd (XAxiDma_BdRingSetCoalesce B (eth_rx_ring s2) (fst (fst g)) (snd (fst g)) (snd t)))))))"
  have "axi_reset B s = (if fst t = 0 then s2 else napi_enable (netif_wake_queue ((?d s2)\<lparr>es_world := w\<rparr>)))"
    by (simp add: axi_reset_def g_def g'_def s1_def t_def s2_def w_def split_beta Let_def)
  moreover have "ram w = ram (es_world (?d s2))"
    by (simp add: w_def s2_def Let_def)
  then have "eth_quiet (?d s2) ((?d s2)\<lparr>es_world := w\<rparr>)"
    by (rule quiet_eth_world)
  then have "eth_inv ((?d s2)\<lparr>es_world := w\<rparr>) S P" "deferred ((?d s2)\<lparr>es_world := w\<rparr>) = []"
    using drop_deferred_inv [OF inv2, where f = "\<lambda>st. st\<lparr>tx_errors := tx_errors st + 1\<rparr>"] quiet_eth_inv
    by (blast, simp add: deferred_def Let_def)
  note final = quiet_eth_inv [OF wake_inv [OF this] quiet_napi]
  ultimately show ?thesis
    using final inv2 by (simp only: split: if_split) blast
qed

lemma tx_timeout_inv: "eth_inv s S P \<Longrightarrow> eth_inv (axi_tx_timeout B s) S P"
proof -
  assume inv: "eth_inv s S P"
  have "eth_quiet s (upd_stats f s)" for f
    by (simp add: eth_quiet_def eth_tx_ring_def eth_rx_ring_def)
  then show ?thesis
    unfolding axi_tx_timeout_def by (intro axi_reset_inv quiet_eth_inv [OF inv])
qed

end
