(* ===== verification/Eth_Machine.thy ===== *)
theory Eth_Machine
  imports Eth_Steps Ring_Setup
begin

text \<open>
  The Ethernet driver under any interleaving of opening and closing, sending, interrupts, bottom
  halves, polls, timeouts and hardware activity.
\<close>

section \<open>Opening and closing\<close>

lemma ram_irq [simp]:
  "ram (snd (snd (vpci_request_irq B vp p vd irq h q w))) = ram w" "ram (snd (vpci_free_irq B vp p vd irq w)) = ram w"
  by (simp_all add: vpci_request_irq_def vpci_free_irq_def VPCI_READ_def VPCI_WRITE_def split_beta Let_def ram_io)

lemma ram_irq_setup [simp]:
  "ram (snd (snd (axi_irq_setup B isr self p vd vp w))) = ram w" "ram (snd (axi_irq_free B p vd vp w)) = ram w"
  by (simp_all add: axi_irq_setup_def axi_irq_free_def split_beta Let_def)

lemma start_ram: "XAxiDma_BdRingStart B r i w = Some (st, r', w') \<Longrightarrow> ram w' = ram w"
  by (auto simp: XAxiDma_BdRingStart_def XAxiDma_UpdateBdRingCDesc_def XAxiDma_StartBdRingHw_def ram_reg Let_def
      split: prod.splits if_splits option.splits cdesc_search.splits dest!: arg_cong [of _ _ "\<lambda>x. ram (snd x)"])

lemma quiet_set_tx:
  assumes "same_queue (eth_tx_ring s) r'" and "ram w' = ram (es_world s)"
  shows "eth_quiet s (set_eth_tx r' (s\<lparr>es_world := w'\<rparr>))"
  using assms by (simp add: eth_quiet_def)

lemma quiet_set_rx:
  assumes "RxBdRing (lp_AxiDma (es_lp s)) \<noteq> []" and "same_queue (eth_rx_ring s) r'" and "ram w' = ram (es_world s)"
  shows "eth_quiet s (set_eth_rx r' (s\<lparr>es_world := w'\<rparr>))"
  using assms by (simp add: eth_quiet_def)

lemma open_inv:
  assumes inv: "eth_inv s S P" and none: "deferred s = []"
    and op: "axi_open B T isr self p vd vp s = Some (ret, vp', s')"
  shows "eth_inv s' S P"
proof -
  let ?s0 = "upd_lp (\<lambda>lp. lp\<lparr>lp_xmit := False\<rparr>) (netif_stop_queue s)"
  define w where "w = snd (snd (axi_irq_setup B isr self p vd vp (axitemac_start B (lp_reg_base (es_lp s)) (es_world s))))"
  have w: "ram w = ram (es_world ?s0)"
    by (simp add: w_def)
  have ne: "RxBdRing (lp_AxiDma (es_lp s)) \<noteq> []"
    using inv by (simp add: eth_inv_def eth_rings_def)
  have q0: "eth_quiet s ?s0"
    by (simp add: eth_quiet_def eth_tx_ring_def eth_rx_ring_def)
  obtain e1 r1 w1 where tx: "XAxiDma_BdRingStart B (eth_tx_ring ?s0) 0 w = Some (e1, r1, w1)"
    using op by (auto simp: axi_open_def w_def split_beta Let_def split: option.splits)
  let ?s1 = "set_eth_tx r1 (?s0\<lparr>es_world := w1\<rparr>)"
  have "ram w1 = ram (es_world ?s0)"
    using start_ram [OF tx] w by simp
  then have q1: "eth_quiet ?s0 ?s1"
    by (rule quiet_set_tx [OF start_queue [OF tx]])
  have inv1: "eth_inv ?s1 S P" and none1: "deferred ?s1 = []"
    using quiet_eth_inv [OF quiet_eth_inv [OF inv q0] q1] none by (simp_all add: deferred_def)
  show ?thesis
  proof (cases "e1 = XST_FAILURE")
    case True
    then have "s' = ?s1"
      using op tx by (simp add: axi_open_def w_def split_beta Let_def)
    then show ?thesis
      using inv1 by simp
  next
    case False
    then obtain e2 r2 w2 where rx: "XAxiDma_BdRingStart B (eth_rx_ring ?s1) 0 w1 = Some (e2, r2, w2)"
      using op tx by (auto simp: axi_open_def w_def split_beta Let_def split: option.splits)
    let ?s2 = "set_eth_rx r2 (?s1\<lparr>es_world := w2\<rparr>)"
    have "eth_quiet ?s1 ?s2"
      using start_queue [OF rx] start_ram [OF rx] ne by (intro quiet_set_rx) simp_all
    then have inv2: "eth_inv ?s2 S P" and none2: "deferred ?s2 = []"
      using quiet_eth_inv inv1 none1 by (blast, simp add: deferred_def)
    let ?s3 = "upd_lp (\<lambda>lp. lp\<lparr>lp_poll_expires := jiffies T + HZ T, lp_poll_pending := True\<rparr>) (napi_enable (netif_wake_queue ?s2))"
    have "s' = (if e2 = XST_FAILURE then ?s2 else ?s3)"
      using op tx rx False by (simp add: axi_open_def w_def split_beta Let_def split: if_splits)
    moreover have "eth_quiet (netif_wake_queue ?s2) ?s3"
      by (simp add: eth_quiet_def eth_tx_ring_def eth_rx_ring_def)
    then have "eth_inv ?s3 S P"
      by (rule quiet_eth_inv [OF wake_inv [OF inv2 none2]])
    ultimately show ?thesis
      using inv2 by simp
  qed
qed

lemma open_started:
  fixes B :: "'d bus"
  assumes "\<And>w :: 'd world. ram w = ram (es_world s) \<Longrightarrow> \<exists>e r' w'. XAxiDma_BdRingStart B (eth_tx_ring s) 0 w = Some (e, r', w') \<and> e \<noteq> XST_FAILURE"
    and "\<And>w :: 'd world. ram w = ram (es_world s) \<Longrightarrow> \<exists>e r' w'. XAxiDma_BdRingStart B (eth_rx_ring s) 0 w = Some (e, r', w') \<and> e \<noteq> XST_FAILURE"
  obtains vp' s' where "axi_open B T isr self p vd vp s = Some (0, vp', s')"
proof -
  let ?s = "upd_lp (\<lambda>lp. lp\<lparr>lp_xmit := False\<rparr>) (netif_stop_queue s)"
  define w where "w = snd (snd (axi_irq_setup B isr self p vd vp (axitemac_start B (lp_reg_base (es_lp s)) (es_world s))))"
  have rings: "eth_tx_ring ?s = eth_tx_ring s" "eth_rx_ring (set_eth_tx r (?s\<lparr>es_world := v\<rparr>)) = eth_rx_ring s" for r v
    by (simp add: eth_tx_ring_def, simp, simp add: eth_rx_ring_def)
  have ram: "ram w = ram (es_world s)"
    by (simp add: w_def)
  then obtain e1 r1 w1 where tx: "XAxiDma_BdRingStart B (eth_tx_ring s) 0 w = Some (e1, r1, w1)" "e1 \<noteq> XST_FAILURE"
    using assms(1) by blast
  moreover obtain e2 r2 w2 where rx: "XAxiDma_BdRingStart B (eth_rx_ring s) 0 w1 = Some (e2, r2, w2)" "e2 \<noteq> XST_FAILURE"
    using assms(2) start_ram [OF tx(1)] ram by metis
  ultimately show ?thesis
    using that by (simp add: axi_open_def Let_def split_beta w_def rings [simplified])
qed

lemma open_queue:
  assumes "axi_open B T isr self p vd vp s = Some (ret, vp', s')"
  shows "same_queue (eth_tx_ring s) (eth_tx_ring s')" and "ret = 0 \<Longrightarrow> \<not> nd_stopped (es_lp s')"
proof -
  have lp: "eth_tx_ring (upd_lp f x) = eth_tx_ring x" if "\<And>lp. lp_AxiDma (f lp) = lp_AxiDma lp" for f and x :: "'a eth_state"
    using that by (simp add: eth_tx_ring_def)
  show "same_queue (eth_tx_ring s) (eth_tx_ring s')" "ret = 0 \<Longrightarrow> \<not> nd_stopped (es_lp s')"
    using assms by (auto simp: axi_open_def Let_def lp split: prod.splits option.splits if_splits dest: start_queue)
qed

lemma quiet_close: "eth_quiet s (snd (axi_close B p vd vp s))"
  by (simp add: axi_close_def eth_AxiDma_Stop_def split_beta Let_def ram_reg eth_quiet_def eth_tx_ring_def eth_rx_ring_def)

section \<open>The machine\<close>

text \<open>A run is indexed by the buffers sent and the receive buffers posted so far. The stack sends only while the queue is
  not stopped, and may prepare any buffer but the deferred one. The hardware may change memory as it likes, other than
  the software words of the descriptors. The device is opened without a deferred buffer, and the bottom half does not
  run into the uninitialised counter.\<close>

inductive eth_run :: "'d bus \<Rightarrow> 'd eth_state \<Rightarrow> 'd eth_state \<Rightarrow> ptr multiset \<Rightarrow> ptr list \<Rightarrow> bool" for B s0 where
  eth_init: "eth_run B s0 s0 {#} (es_rcvd s0 @ rx_ids s0)"
| eth_open: "eth_run B s0 s S P \<Longrightarrow> deferred s = [] \<Longrightarrow> axi_open B T isr self p vd vp s = Some (ret, vp', s')
    \<Longrightarrow> eth_run B s0 s' S P"
| eth_close: "eth_run B s0 s S P \<Longrightarrow> axi_close B p vd vp s = (vp', s') \<Longrightarrow> eth_run B s0 s' S P"
| eth_send: "eth_run B s0 s S P \<Longrightarrow> \<not> nd_stopped (es_lp s) \<Longrightarrow> skb \<noteq> NULL \<Longrightarrow> skb_ok (es_skb s skb)
    \<Longrightarrow> axi_send B skb s = (ret, s') \<Longrightarrow> eth_run B s0 s' (add_mset skb S) P"
| eth_tx_bh: "eth_run B s0 s S P \<Longrightarrow> deferred s = [] \<or> bh_looks save0 s
    \<Longrightarrow> eth_run B s0 (DmaSendHandlerBH B save0 s) S P"
| eth_poll: "eth_run B s0 s S P \<Longrightarrow> axi_poll B E budget s = Some (n, s') \<Longrightarrow> eth_run B s0 s' S (P @ rx_posted E n s)"
| eth_tx_isr: "eth_run B s0 s S P \<Longrightarrow> axi_dma_tx_interrupt B s = (ret, s') \<Longrightarrow> eth_run B s0 s' S P"
| eth_rx_isr: "eth_run B s0 s S P \<Longrightarrow> axi_dma_rx_interrupt B s = (ret, s') \<Longrightarrow> eth_run B s0 s' S P"
| eth_isr: "eth_run B s0 s S P \<Longrightarrow> axi_interrupt B s = (ret, s') \<Longrightarrow> eth_run B s0 s' S P"
| eth_timer: "eth_run B s0 s S P \<Longrightarrow> eth_run B s0 (axi_poll_isr B T s) S P"
| eth_timeout: "eth_run B s0 s S P \<Longrightarrow> eth_run B s0 (axi_tx_timeout B s) S P"
| eth_stack: "eth_run B s0 s S P \<Longrightarrow> \<forall>x\<in>set (deferred s). f x = es_skb s x \<Longrightarrow> eth_run B s0 (s\<lparr>es_skb := f\<rparr>) S P"
| eth_hardware: "eth_run B s0 s S P
    \<Longrightarrow> \<forall>r\<in>{eth_tx_ring s, eth_rx_ring s}. \<forall>j<ring_size r.
         XAxiDma_BdGetId (ram w) (ring_at r j) = XAxiDma_BdGetId (ram (es_world s)) (ring_at r j)
    \<Longrightarrow> eth_run B s0 (s\<lparr>es_world := w\<rparr>) S P"

lemma running_not_deferred: "eth_inv s S P \<Longrightarrow> \<not> nd_stopped (es_lp s) \<Longrightarrow> deferred s = []"
  by (auto simp: eth_inv_def)

lemma send_inv:
  assumes inv: "eth_inv s S P" and skb: "\<not> nd_stopped (es_lp s)" "skb \<noteq> NULL" "skb_ok (es_skb s skb)"
    and op: "axi_send B skb s = (ret, s')"
  shows "eth_inv s' (add_mset skb S) P"
proof -
  obtain st where "axi_DmaSend_internal B skb s = (st, s')"
    using op by (metis axi_send_def snd_conv surj_pair)
  then show ?thesis
    using send_internal_inv [OF inv running_not_deferred [OF inv skb(1)] skb(2,3)] by blast
qed

lemma eth_run_inv:
  assumes "eth_run B s0 s S P" and "eth_inv s0 {#} (es_rcvd s0 @ rx_ids s0)"
  shows "eth_inv s S P"
  using assms
proof (induction rule: eth_run.induct)
  case eth_init
  then show ?case by simp
next
  case (eth_open s S P T isr self p vd vp ret vp' s')
  then show ?case
    using open_inv by blast
next
  case (eth_close s S P p vd vp vp' s')
  then show ?case
    using quiet_eth_inv [OF _ quiet_close, of s S P B p vd vp] by simp
next
  case (eth_send s S P skb ret s')
  then show ?case
    using send_inv by blast
next
  case (eth_tx_bh s S P save0)
  then show ?case
    using send_bh_inv by blast
next
  case (eth_poll s S P E budget n s')
  obtain n' s'' where "axi_poll B E budget s = Some (n', s'')" "eth_inv s'' S (P @ rx_posted E n' s)"
    using eth_poll by (metis poll_ok)
  then show ?case
    using eth_poll by simp
next
  case (eth_tx_isr s S P ret s')
  then show ?case
    using quiet_eth_inv [OF _ quiet_eth_isr(2), of s S P B] by simp
next
  case (eth_rx_isr s S P ret s')
  then show ?case
    using quiet_eth_inv [OF _ quiet_eth_isr(1), of s S P B] by simp
next
  case (eth_isr s S P ret s')
  then show ?case
    using quiet_eth_inv [OF _ quiet_eth_interrupt, of s S P B] by simp
next
  case (eth_timer s S P T)
  then show ?case
    using quiet_eth_inv quiet_poll_isr by blast
next
  case (eth_timeout s S P)
  then show ?case
    using tx_timeout_inv by blast
next
  case (eth_stack s S P f)
  then show ?case
    by (auto simp: eth_inv_def eth_rings_def tx_ids_def rx_ids_def deferred_def eth_tx_ring_def eth_rx_ring_def split: if_splits)
next
  case (eth_hardware s S P w)
  then have "eth_quiet s (s\<lparr>es_world := w\<rparr>)"
    by (simp add: eth_quiet_def)
  then show ?case
    using eth_hardware quiet_eth_inv by blast
qed

section \<open>Completion\<close>

lemma finished_looks:
  assumes "eth_inv s S P" and "ring_finished (ram (es_world s)) (eth_tx_ring s)" and "g_hw (groups (eth_tx_ring s)) \<noteq> []"
  shows "bh_looks save0 s"
proof -
  let ?r = "eth_tx_ring s" and ?m = "ram (es_world s)"
  have r: "ring_inv ?r" "ring_size ?r = 8192"
    using assms(1) by (simp_all add: eth_inv_def eth_rings_def ring_idle_def)
  obtain n r' b where op: "XAxiDma_BdRingFromHw ?r 8192 ?m = (n, r', b)"
    by (metis prod_cases3)
  have "n = int (length (g_hw (groups ?r)))"
    using fromhw_cases [OF r(1) op] hw_length [OF r(1)] r(2) assms(2) by (simp add: ring_finished_def whole_packets_all)
  then show ?thesis
    using op assms(3) by (simp add: bh_looks_def)
qed

text \<open>On a transmit ring that is finished, the bottom half frees everything, submits the deferred buffer and restarts the
  queue.\<close>

lemma send_netdev_finishes:
  fixes B :: "'d bus"
  assumes inv: "eth_inv s S P" and fin: "ring_finished (ram (es_world s)) (eth_tx_ring s)"
    and ok: "deferred s = [] \<or> bh_looks save0 s"
  defines "s' \<equiv> DmaSendHandlerBH_netdev B save0 s"
  shows "\<not> nd_stopped (es_lp s') \<and> deferred s' = [] \<and> tx_ids s' = deferred s"
proof -
  obtain freed r' v s1 where d: "send_drain (eth_tx_ring s) save0 s = (freed, r', v, s1)"
    by (metis prod_cases4)
  have r: "ring_inv (eth_tx_ring s)" "g_post (groups (eth_tx_ring s)) = []" "ring_idle (eth_tx_ring s)" "ring_size (eth_tx_ring s) = 8192"
    using inv by (simp_all add: eth_inv_def eth_rings_def ring_idle_def)
  note dr = send_drain_ok [OF r(1,2) d]
  have tb: "taken_back (eth_tx_ring s) (ram (es_world s)) r' (ram (es_world s1))" "nothing_done 8192 r' (ram (es_world s1))"
    using dr by (simp_all add: send_drained_def)
  have hw: "g_hw (groups r') = []" and idle: "ring_idle r'"
    using finished_empty [OF r(1) _ tb fin] r(4) taken_back_idle [OF r(3) tb(1)] by simp_all
  let ?s = "set_eth_tx r' s1" and ?d = "lp_deferred_skb (es_lp (set_eth_tx r' s1))"
  have inv1: "eth_inv ?s S P" and def1: "deferred ?s = deferred s"
    using drained_inv [OF inv] dr by auto
  show ?thesis
  proof (cases "deferred s = []")
    case True
    then have "?d = NULL"
      using def1 by (auto simp: deferred_def split: if_splits)
    then have "s' = netif_wake_queue ?s"
      using d dr by (simp add: s'_def DmaSendHandlerBH_netdev_def Let_def)
    then show ?thesis
      using True def1 hw by (simp add: tx_ids_def hw_ids_def deferred_def) (simp add: eth_tx_ring_def set_eth_tx_def)
  next
    case False
    then have nn: "?d \<noteq> NULL" and v: "v \<noteq> 0"
      using def1 dr ok by (auto simp: deferred_def bh_looks_def split: if_splits)
    let ?s2 = "upd_lp (\<lambda>lp. lp\<lparr>lp_deferred_skb := NULL\<rparr>) ?s"
    have ring2: "eth_tx_ring ?s2 = r'"
      using ring_lp(1) [of ?s2 ?s] by simp
    have "skb_sendable (es_skb ?s2 ?d)" "deferred ?s = [?d]"
      using inv1 nn by (simp_all add: eth_inv_def deferred_def)
    then have ok: "skb_ok (es_skb ?s2 ?d)" "int (length (skb_frags (es_skb ?s2 ?d))) + 1 < 8192"
      by (simp_all add: skb_sendable_def)
    have "length (g_free (groups r')) = 8192"
      using idle_lengths [OF idle] hw tb(1) r(4) by (simp add: taken_back_def same_bds_def)
    then have room: "Suc (length (skb_frags (es_skb ?s2 ?d))) \<le> length (g_free (groups (eth_tx_ring ?s2)))"
      using ok(2) ring2 by simp
    obtain r3 w3 where op: "axi_DmaSend_internal B ?d ?s2
        = (XST_SUCCESS, set_eth_tx r3 ((upd_lp (count_csum (es_skb ?s2 ?d)) ?s2)\<lparr>es_world := w3\<rparr>))" (is "_ = (_, ?s3)")
      and ids: "hw_ids (ram w3) r3 = hw_ids (ram (es_world ?s2)) (eth_tx_ring ?s2)
        @ ?d # replicate (length (skb_frags (es_skb ?s2 ?d))) NULL"
      by (rule send_room [OF _ ok room, where B = B]) (use idle ring2 in simp_all)
    have s': "s' = netif_wake_queue ?s3"
      using d dr nn v op by (simp add: s'_def DmaSendHandlerBH_netdev_def Let_def)
    have "hw_ids (ram w3) r3 = ?d # replicate (length (skb_frags (es_skb ?s2 ?d))) NULL"
      using ids hw by (simp add: ring2 hw_ids_def)
    moreover have "eth_tx_ring s' = r3" "es_world s' = w3"
      unfolding s' using ring_lp(1) [of "netif_wake_queue ?s3" ?s3] by simp_all
    ultimately have "tx_ids s' = [?d]"
      using nn by (simp add: tx_ids_def)
    moreover have "deferred s' = []" "\<not> nd_stopped (es_lp s')"
      by (simp_all add: s' deferred_def count_csum_def)
    ultimately show ?thesis
      using \<open>deferred ?s = [?d]\<close> def1 by simp
  qed
qed

lemma send_bh_finishes:
  fixes B :: "'d bus"
  assumes inv: "eth_inv s S P" and xmit: "lp_xmit (es_lp s)" and fin: "ring_finished (ram (es_world s)) (eth_tx_ring s)"
    and ok: "deferred s = [] \<or> bh_looks save0 s"
  defines "s' \<equiv> DmaSendHandlerBH B save0 s"
  shows "\<not> nd_stopped (es_lp s') \<and> deferred s' = [] \<and> tx_ids s' = deferred s"
proof -
  let ?s = "upd_lp (\<lambda>lp. lp\<lparr>lp_xmit := False\<rparr>) s"
  have same: "deferred ?s = deferred s" "bh_looks save0 ?s = bh_looks save0 s" "eth_tx_ring ?s = eth_tx_ring s"
    by (simp_all add: deferred_def bh_looks_def eth_tx_ring_def)
  have "\<not> nd_stopped (es_lp (DmaSendHandlerBH_netdev B save0 ?s)) \<and> deferred (DmaSendHandlerBH_netdev B save0 ?s) = []
    \<and> tx_ids (DmaSendHandlerBH_netdev B save0 ?s) = deferred ?s"
    using fin ok same by (intro send_netdev_finishes [OF quiet_eth_inv [OF inv quiet_xmit]]) simp_all
  then show ?thesis
    using xmit same(1) by (simp add: s'_def DmaSendHandlerBH_def Let_def tx_ids_def deferred_def)
qed

end
