(* ===== verification/Eth_Probe.thy ===== *)
theory Eth_Probe
  imports Eth_Machine Ring_Setup
begin

text \<open>
  The probe of the Ethernet driver leaves it with both rings set up and the receive buffers posted.
\<close>

section \<open>Setting up the rings\<close>

text \<open>Aligned and disjoint memory for the two rings, as the kernel hands it out.\<close>

definition eth_mem_ok :: "eth_mem \<Rightarrow> bool" where
  "eth_mem_ok M \<longleftrightarrow> create_args (em_tx_p M) (em_tx_v M) 64 (nat ETH_TX_BD_NUM)
     \<and> create_args (em_rx_p M) (em_rx_v M) 64 (nat ETH_RX_BD_NUM)
     \<and> (unat (em_tx_v M) + 64 * nat ETH_TX_BD_NUM \<le> unat (em_rx_v M)
         \<or> unat (em_rx_v M) + 64 * nat ETH_RX_BD_NUM \<le> unat (em_tx_v M))"

text \<open>The state after a successful probe: the receive buffers are posted, nothing is being sent.\<close>

definition eth_fresh :: "'d eth_state \<Rightarrow> bool" where
  "eth_fresh s \<longleftrightarrow> eth_inv s {#} (es_rcvd s @ rx_ids s) \<and> g_hw (groups (eth_tx_ring s)) = []"

text \<open>The private data before the first use.\<close>

definition eth_blank :: "'d eth_state \<Rightarrow> bool" where
  "eth_blank s \<longleftrightarrow> es_freed s = [] \<and> es_rcvd s = [] \<and> lp_deferred_skb (es_lp s) = NULL"

lemma descriptor_init_ok:
  assumes M: "eth_mem_ok M" and s: "eth_blank s" "len_fits (lp_frame_size (es_lp s))" "RxBdRing (lp_AxiDma (es_lp s)) \<noteq> []"
    and max: "MaxTransferLen (eth_tx_ring s) = XAXIDMA_MAX_TRANSFER_LEN" "MaxTransferLen (eth_rx_ring s) = XAXIDMA_MAX_TRANSFER_LEN"
  obtains s' P where "descriptor_init B M E s = (XST_SUCCESS, s')" and "eth_inv s' {#} P" and "g_hw (groups (eth_tx_ring s')) = []"
proof -
  define n where "n = nat 8192"
  have n: "8192 = int n"
    by (simp add: n_def)
  have args: "create_args (em_tx_p M) (em_tx_v M) 64 n" "create_args (em_rx_p M) (em_rx_v M) 64 n"
    and disj: "unat (em_tx_v M) + 64 * n \<le> unat (em_rx_v M) \<or> unat (em_rx_v M) + 64 * n \<le> unat (em_tx_v M)"
    using M unfolding eth_mem_ok_def n_def by blast+
  let ?t = "create_ring (eth_tx_ring s) (em_tx_p M) (em_tx_v M) 64 n"
  let ?r = "create_ring (eth_rx_ring s) (em_rx_p M) (em_rx_v M) 64 n"
  let ?s0 = "upd_lp (\<lambda>lp. lp\<lparr>lp_tx_bd_v := em_tx_v M, lp_tx_bd_p := em_tx_p M,
    lp_tx_bd_size := XAxiDma_mBdRingMemCalc XAXIDMA_BD_MINIMUM_ALIGNMENT ETH_TX_BD_NUM,
    lp_rx_bd_v := em_rx_v M, lp_rx_bd_p := em_rx_p M,
    lp_rx_bd_size := XAxiDma_mBdRingMemCalc XAXIDMA_BD_MINIMUM_ALIGNMENT ETH_RX_BD_NUM\<rparr>) s"
  obtain m1 where m1: "XAxiDma_BdRingCreate (eth_tx_ring s) (em_tx_p M) (em_tx_v M) 64 8192 (ram (es_world s)) = (XST_SUCCESS, ?t, m1)"
    using create_result [OF args(1)] unfolding n by blast
  obtain m2 where m2: "XAxiDma_BdRingCreate (eth_rx_ring s) (em_rx_p M) (em_rx_v M) 64 8192 m1 = (XST_SUCCESS, ?r, m2)"
    using create_result [OF args(2)] unfolding n by blast
  define s1 where "s1 = set_eth_tx ?t (upd_ram (\<lambda>_. m1) ?s0)"
  define s2 where "s2 = set_eth_rx ?r (upd_ram (\<lambda>_. m2) s1)"
  have ring0: "eth_tx_ring ?s0 = eth_tx_ring s" "eth_rx_ring (upd_ram f s') = eth_rx_ring s'" "eth_tx_ring (upd_ram f s') = eth_tx_ring s'"
    "eth_rx_ring ?s0 = eth_rx_ring s" for f and s' :: "'a eth_state"
    by (simp_all add: eth_tx_ring_def eth_rx_ring_def)
  have init: "descriptor_init B M E s = (XST_SUCCESS, axi_DmaSetupRecvBuffers B E s2)"
    using m1 m2 by (simp add: descriptor_init_def s1_def s2_def ring0 Let_def)
  have rings: "eth_tx_ring s2 = ?t" "eth_rx_ring s2 = ?r"
    using s(3) by (simp_all add: s1_def s2_def ring0)
  have "rings_apart ?t ?r" "rings_apart ?r ?t"
    using created_apart args disj by blast+
  moreover have "n \<le> 65536" and "n = 8192" and "RxBdRing (lp_AxiDma (es_lp s2)) \<noteq> []"
    using s(3) by (simp_all add: n_def s1_def s2_def)
  ultimately have "eth_rings s2" "tx_ids s2 = []" "rx_ids s2 = []"
    using created_idle [OF args(1) _ max(1)] created_idle [OF args(2) _ max(2)] create_geom(2) [OF args(1)] create_geom(2) [OF args(2)]
    by (simp_all add: eth_rings_def rings tx_ids_def rx_ids_def hw_ids_def)
  then have "eth_inv s2 {#} []"
    using s by (simp add: eth_inv_def deferred_def eth_blank_def s1_def s2_def)
  note inv = setup_recv_inv [OF this]
  have "g_hw (groups (eth_tx_ring (axi_DmaSetupRecvBuffers B E s2))) = []"
    using same_queue_ring(1) [OF setup_recv_tx, of s2 B E] created_idle(2) [OF args(1) _ max(1)] \<open>n \<le> 65536\<close> \<open>eth_rings s2\<close>
    by (simp add: rings eth_rings_def)
  from that [OF init inv this] show ?thesis .
qed

section \<open>The probe\<close>

lemma frame_size_fits: "len_fits ((if mtu > XTE_JUMBO_MTU then XTE_JUMBO_MTU else mtu) + XTE_HDR_SIZE + XTE_TRL_SIZE)"
proof -
  define x :: u32 where "x = (if mtu > 8982 then 8982 else mtu)"
  have "unat x \<le> 8982"
    by (auto simp: x_def word_less_nat_alt)
  then have "unat (x + 14 + 4) = unat x + 18"
    by (simp add: unat_word_ariths add.assoc)
  then have "len_fits (x + 14 + 4)"
    using \<open>unat x \<le> 8982\<close> by (simp add: len_fits_def word_less_nat_alt word_le_nat_alt)
  then show ?thesis
    by (simp only: x_def)
qed

lemma mac_address_frame:
  "es_freed (axi_set_mac_address v r a s) = es_freed s" "es_rcvd (axi_set_mac_address v r a s) = es_rcvd s"
  "lp_deferred_skb (es_lp (axi_set_mac_address v r a s)) = lp_deferred_skb (es_lp s)"
  "lp_frame_size (es_lp (axi_set_mac_address v r a s)) = lp_frame_size (es_lp s)"
  "lp_reg_base (es_lp (axi_set_mac_address v r a s)) = lp_reg_base (es_lp s)"
  by (simp_all add: axi_set_mac_address_def Let_def split: option.split)

lemma probe_common_ok:
  assumes M: "eth_mem_ok M" and blank: "eth_blank s" and op: "eth_probe_common B A M E s = (ret, s')"
  shows "(ret = 0 \<longrightarrow> eth_fresh s')
    \<and> ((\<forall>a d. fst (bus_in32 B a d) AND XAXIDMA_CR_RESET_MASK = 0) \<and> ep_register A = 0 \<longrightarrow> ret = 0)"
proof -
  let ?reg = "lp_reg_base (es_lp s)" and ?C = "AxiDma_Config (lp_reg_base (es_lp s) + AXI_DMA_REG)"
  define s1 where "s1 = axi_set_mac_address (ep_valid A) (ep_rand A) None
    (upd_lp (\<lambda>lp. lp\<lparr>lp_frame_size := nd_mtu lp + XTE_HDR_SIZE + XTE_TRL_SIZE, lp_lro_norm := False\<rparr>)
      (upd_lp (\<lambda>lp. if nd_mtu lp > XTE_JUMBO_MTU then lp\<lparr>nd_mtu := XTE_JUMBO_MTU\<rparr> else lp) s))"
  define w1 where "w1 = axitemac_stop B ?reg (axitemac_init B ?reg (es_world s))"
  obtain err I w where cfg: "XAxiDma_CfgInitialize B (lp_AxiDma (es_lp s1)) (Some ?C) w1 = (err, I, w)"
    by (metis prod_cases3)
  define s2 where "s2 = upd_lp (\<lambda>lp. lp\<lparr>lp_AxiDma := I\<rparr>) (s1\<lparr>es_world := w\<rparr>)"
  obtain e2 s3 where di: "descriptor_init B M E s2 = (e2, s3)"
    by (metis surj_pair)
  define w3 where "w3 = XAxiDma_mBdRingIntEnable B (eth_rx_ring s3) XAXIDMA_IRQ_ALL_MASK
    (snd (XAxiDma_BdRingSetCoalesce B (eth_rx_ring s3) 1 254 (XAxiDma_mBdRingIntEnable B (eth_tx_ring s3) XAXIDMA_IRQ_ALL_MASK
      (snd (XAxiDma_BdRingSetCoalesce B (eth_tx_ring s3) 24 254 (es_world s3))))))"
  have reg: "lp_reg_base (es_lp s1) = ?reg"
    by (simp add: s1_def mac_address_frame)
  have run: "eth_probe_common B A M E s = (if err \<noteq> XST_SUCCESS then (- 11, s2)
      else if HasSg I = 0 then (- 2, s2) else if e2 \<noteq> XST_SUCCESS then (- 1, s3)
      else (if ep_register A \<noteq> 0 then - 1 else 0,
        upd_lp (\<lambda>lp. lp\<lparr>lp_lro_norm := True, lp_tx_hw_csums := 0, lp_rx_hw_csums := 0\<rparr>) (s3\<lparr>es_world := w3\<rparr>)))"
    using cfg di reg by (simp add: eth_probe_common_def s1_def w1_def s2_def w3_def Let_def mac_address_frame split: prod.split)
  show ?thesis
  proof (cases "err = XST_SUCCESS")
    case True
    note inst = cfg_instance [OF cfg [unfolded True], simplified AxiDma_Config_def, simplified]
    have "eth_blank s2" "len_fits (lp_frame_size (es_lp s2))"
      using blank frame_size_fits [of "nd_mtu (es_lp s)"] by (simp_all add: eth_blank_def s1_def s2_def mac_address_frame split: if_splits)
    moreover have "RxBdRing (lp_AxiDma (es_lp s2)) \<noteq> []" "MaxTransferLen (eth_tx_ring s2) = XAXIDMA_MAX_TRANSFER_LEN"
      "MaxTransferLen (eth_rx_ring s2) = XAXIDMA_MAX_TRANSFER_LEN"
      using inst by (auto simp: s2_def eth_tx_ring_def eth_rx_ring_def XAxiDma_GetRxRing_def)
    ultimately obtain P where inv: "eth_inv s3 {#} P" and "e2 = XST_SUCCESS" and hw: "g_hw (groups (eth_tx_ring s3)) = []"
      using descriptor_init_ok [OF M, where s = s2 and B = B and E = E] di by (metis prod.inject)
    then have ok: "ret = (if ep_register A \<noteq> 0 then - 1 else 0)"
      "s' = upd_lp (\<lambda>lp. lp\<lparr>lp_lro_norm := True, lp_tx_hw_csums := 0, lp_rx_hw_csums := 0\<rparr>) (s3\<lparr>es_world := w3\<rparr>)"
      using op True inst(4) unfolding run by auto
    have "eth_quiet s3 s'"
      by (simp add: ok(2) w3_def eth_quiet_def eth_tx_ring_def eth_rx_ring_def)
    then have "eth_inv s' {#} P" "groups (eth_tx_ring s') = groups (eth_tx_ring s3)"
      using quiet_eth_inv [OF inv] same_queue_ring(1) by (blast, simp add: eth_quiet_def)
    then show ?thesis
      using ok(1) hw by (simp add: eth_fresh_def eth_inv_def)
  next
    case False
    then have "ret \<noteq> 0"
      using op unfolding run by auto
    moreover have "\<not> (\<forall>a d. fst (bus_in32 B a d) AND XAXIDMA_CR_RESET_MASK = 0)"
      using False cfg cfg_reset_done [where B = B and Config = ?C and w = w1] by (metis prod.collapse prod.inject)
    ultimately show ?thesis
      by simp
  qed
qed

lemma probe_ok:
  assumes "eth_mem_ok M" and "eth_blank z" and "eth_probe B A M E vd z = (0, True, s)"
  shows "eth_fresh s"
proof -
  let ?z = "upd_lp (\<lambda>lp. lp\<lparr>lp_reg_base := vd_mmio vd\<rparr>) z"
  have "eth_probe_common B A M E ?z = (0, s)"
    using assms(3) by (auto simp: eth_probe_def Let_def split: if_splits prod.splits)
  moreover have "eth_blank ?z"
    using assms(2) by (simp add: eth_blank_def)
  ultimately show ?thesis
    using probe_common_ok [OF assms(1)] by blast
qed

lemma probe_succeeds:
  assumes "eth_mem_ok M" and "eth_blank z" and "ep_alloc A" and "ep_register A = 0" and "vd_mmio vd \<noteq> NULL"
    and "\<forall>a d. fst (bus_in32 B a d) AND XAXIDMA_CR_RESET_MASK = 0"
  obtains s where "eth_probe B A M E vd z = (0, True, s)"
proof -
  let ?z = "upd_lp (\<lambda>lp. lp\<lparr>lp_reg_base := vd_mmio vd\<rparr>) z"
  obtain ret s where c: "eth_probe_common B A M E ?z = (ret, s)"
    by (metis surj_pair)
  have "eth_blank ?z"
    using assms(2) by (simp add: eth_blank_def)
  then have "ret = 0"
    using probe_common_ok [OF assms(1) _ c] assms by blast
  then show ?thesis
    using that [of s] assms c by (simp add: eth_probe_def Let_def)
qed

end
