(* ===== verification/Eth_Props.thy ===== *)
theory Eth_Props
  imports Eth_Probe Vpci_Props
begin

unbundle bit_operations_syntax

text \<open>
  Properties of the Ethernet driver.
\<close>

section \<open>A run of the driver\<close>

text \<open>The demonstration device asks for service all the time. The card is brought up, the stack prepares buffer 1
  with 8190 fragments and buffer 2 with one fragment, and sends both. The second does not fit.\<close>

definition demo_eth_mem :: eth_mem where
  "demo_eth_mem = \<lparr>em_tx_v = 0x1000000, em_tx_p = 0x1000000, em_rx_v = 0x2000000, em_rx_p = 0x2000000\<rparr>"

definition demo_eth_pci :: eth_pci where
  "demo_eth_pci = \<lparr>ep_alloc = True, ep_enable = 0, ep_regions = 0, ep_mask64 = 0, ep_cmask64 = 0, ep_mask32 = 0,
     ep_cmask32 = 0, ep_ioremap = 0x80000000, ep_register = 0, ep_valid = (\<lambda>_. False), ep_rand = [2, 0, 0, 0, 0, 1]\<rparr>"

definition demo_eth_vd :: virt_device where
  "demo_eth_vd = \<lparr>vd_id = vpci_funs ! 0, vd_mmio = 0x80010000, vd_mmio_len = 0x10000, vd_irqs = replicate 4 NULL,
     vd_irqs_priv = replicate 4 NULL, vd_drv = NULL, vd_pd = NULL, vd_port = 0\<rparr>"

definition demo_rx :: rx_env where
  "demo_rx = \<lparr>re_type = (\<lambda>_ len. (0x0800, len - 14)), re_alloc = [0x51, 0x52, 0x53], re_map = (\<lambda>skb. push_bit 12 skb)\<rparr>"

definition demo_skb :: "u32 \<Rightarrow> skb_frag list \<Rightarrow> sk_buff" where
  "demo_skb data frags = \<lparr>skb_data = data, skb_headlen = 60, skb_frags = frags,
     skb_ip_summed = CHECKSUM_PARTIAL, skb_transport_offset = 34, skb_csum_offset = 16, skb_len = 60,
     skb_protocol = 0x0800, skb_csum = 0\<rparr>"

definition demo_stack :: "ptr \<Rightarrow> sk_buff" where
  "demo_stack skb = demo_skb 0 (replicate (if skb = 1 then 8190 else 1) \<lparr>frag_addr = 0, frag_size = 100\<rparr>)"

definition demo_eth :: "(u32 \<Rightarrow> u32) eth_state" where
  "demo_eth = \<lparr>es_lp = \<lparr>lp_reg_base = 0, lp_AxiDma = zero_XAxiDma, lp_frame_size = 0, lp_deferred_skb = NULL,
       lp_stats = \<lparr>rx_packets = 0, tx_packets = 0, rx_bytes = 0, tx_bytes = 0, tx_errors = 0, tx_dropped = 0\<rparr>,
       lp_tx_bd_v = 0, lp_tx_bd_p = 0, lp_tx_bd_size = 0, lp_rx_bd_v = 0, lp_rx_bd_p = 0, lp_rx_bd_size = 0,
       lp_tx_hw_csums = 0, lp_rx_hw_csums = 0, lp_lro_norm = False, lp_xmit = False, lp_napi_sched = True,
       lp_poll_pending = False, lp_poll_expires = 0, nd_stopped = False, nd_up = False, nd_mtu = 1500, nd_addr = replicate 6 0\<rparr>,
     es_skb = demo_stack, es_freed = [], es_rcvd = [], es_unmapped = [], es_world = demo_world\<rparr>"

lemma demo_eth_mem_ok: "eth_mem_ok demo_eth_mem"
  by (simp add: eth_mem_ok_def demo_eth_mem_def create_args_def)

lemma demo_eth_blank: "eth_blank demo_eth"
  by (simp add: eth_blank_def demo_eth_def)

lemma demo_stack_ok:
  "skb_ok (demo_stack skb)" "length (skb_frags (demo_stack 1)) = 8190" "length (skb_frags (demo_stack 2)) = 1"
  by (simp_all add: demo_stack_def skb_ok_def demo_skb_def len_fits_def list_all_iff)

lemma demo_stack_addr: "p \<in> set (frame_pieces (demo_stack skb) skb) \<Longrightarrow> \<not> addr_refused old (fst p)"
  by (auto simp: demo_stack_def demo_skb_def frame_pieces_def addr_refused_def)

lemma demo_eth_probed:
  obtains s where "eth_probe service_bus demo_eth_pci demo_eth_mem demo_rx demo_eth_vd demo_eth = (0, True, s)"
  by (rule probe_succeeds [OF demo_eth_mem_ok demo_eth_blank, where A = demo_eth_pci and vd = demo_eth_vd and B = service_bus])
    (simp_all add: demo_eth_pci_def demo_eth_vd_def stuck_bus_def)

text \<open>A device that was opened, with the buffers prepared.\<close>

lemma demo_eth_opened:
  assumes fresh: "eth_fresh s0"
  obtains s where "eth_run service_bus s0 s {#} (es_rcvd s0 @ rx_ids s0)" and "\<not> nd_stopped (es_lp s)"
    and "g_hw (groups (eth_tx_ring s)) = []" and "es_skb s = demo_stack" and "eth_inv s {#} (es_rcvd s0 @ rx_ids s0)"
proof -
  let ?P = "es_rcvd s0 @ rx_ids s0"
  have inv0: "eth_inv s0 {#} ?P" and none: "deferred s0 = []"
    using fresh by (auto simp: eth_fresh_def eth_inv_def)
  have cnt: "AllCnt (eth_tx_ring s0) \<noteq> 0" "AllCnt (eth_rx_ring s0) \<noteq> 0"
    using inv0 idle_count by (auto simp: eth_inv_def eth_rings_def)
  let ?T = "\<lparr>HZ = 100, jiffies = 0, round_jiffies_up = (\<lambda>j. j)\<rparr>"
  obtain vp s1 where op: "axi_open service_bus ?T (1, 2) 3 0 demo_eth_vd demo_vpci s0 = Some (0, vp, s1)"
    by (rule open_started [where B = service_bus and s = s0])
      (use service_start [OF cnt(1)] service_start [OF cnt(2)] in \<open>fastforce\<close>)+
  note run = eth_stack [OF eth_open [OF eth_init none op], where f = demo_stack]
  have none1: "deferred s1 = []"
    using open_inv [OF inv0 none op] open_queue(2) [OF op] by (auto simp: eth_inv_def)
  then have run': "eth_run service_bus s0 (s1\<lparr>es_skb := demo_stack\<rparr>) {#} ?P"
    by (intro run) simp
  show ?thesis
  proof (rule that [OF run'])
    show "g_hw (groups (eth_tx_ring (s1\<lparr>es_skb := demo_stack\<rparr>))) = []"
      using same_queue_ring(1) [OF open_queue(1) [OF op]] fresh by (simp add: eth_fresh_def eth_tx_ring_def)
  qed (use open_queue(2) [OF op] eth_run_inv [OF run' inv0] in simp_all)
qed

lemma demo_tx_isr:
  "lp_xmit (es_lp (snd (axi_dma_tx_interrupt service_bus s)))"
  "ram (es_world (snd (axi_dma_tx_interrupt service_bus s))) = ram (es_world s)"
  "eth_tx_ring (snd (axi_dma_tx_interrupt service_bus s)) = eth_tx_ring s"
  "es_skb (snd (axi_dma_tx_interrupt service_bus s)) = es_skb s"
  "lp_deferred_skb (es_lp (snd (axi_dma_tx_interrupt service_bus s))) = lp_deferred_skb (es_lp s)"
  by (simp_all add: axi_dma_tx_interrupt_def Let_def split_beta ram_reg eth_tx_ring_def)

text \<open>Both buffers are sent and the transmit interrupt is taken.\<close>

lemma demo_eth_deferred:
  assumes fresh: "eth_fresh s0"
  obtains s where "eth_run service_bus s0 s {#1, 2#} (es_rcvd s0 @ rx_ids s0)" and "deferred s = [2]"
    and "es_skb s = demo_stack" and "lp_xmit (es_lp s)" and "length (g_hw (groups (eth_tx_ring s))) = 8191"
    and "\<not> bd_done (ram (es_world s)) (hd (g_hw (groups (eth_tx_ring s))))"
proof -
  let ?P = "es_rcvd s0 @ rx_ids s0"
  obtain s where run: "eth_run service_bus s0 s {#} ?P" and up: "\<not> nd_stopped (es_lp s)"
    and hw: "g_hw (groups (eth_tx_ring s)) = []" and stack: "es_skb s = demo_stack" and inv: "eth_inv s {#} ?P"
    by (rule demo_eth_opened [OF fresh])
  have idle: "ring_idle (eth_tx_ring s)" and free: "length (g_free (groups (eth_tx_ring s))) = 8192"
    using inv idle_lengths [of "eth_tx_ring s"] hw by (simp_all add: eth_inv_def eth_rings_def)
  let ?bs = "take (Suc (length (skb_frags (es_skb s 1)))) (g_free (groups (eth_tx_ring s)))"
  have len: "length ?bs = 8191" "length (skb_frags (es_skb s 1)) = 8190"
    using free by (simp_all add: stack demo_stack_ok)
  have pieces: "length (frame_pieces (es_skb s 1) 1) = 8191"
    by (simp add: frame_pieces_def stack demo_stack_ok)
  have addr: "list_all2 (\<lambda>b p. \<not> addr_refused (bd_words (ram (es_world s)) b) (fst p)) ?bs (frame_pieces (es_skb s 1) 1)"
  proof (rule list_all2_all_nthI)
    show "length ?bs = length (frame_pieces (es_skb s 1) 1)"
      unfolding len(1) pieces ..
  next
    fix n
    assume "n < length ?bs"
    then show "\<not> addr_refused (bd_words (ram (es_world s)) (?bs ! n)) (fst (frame_pieces (es_skb s 1) 1 ! n))"
      using pieces unfolding len(1) by (intro demo_stack_addr [of _ 1]) (simp add: stack)
  qed
  have ok: "skb_ok (es_skb s 1)" "int (length (skb_frags (es_skb s 1))) + 1 < 8192"
    "Suc (length (skb_frags (es_skb s 1))) \<le> length (g_free (groups (eth_tx_ring s)))"
    using len free by (simp_all add: stack demo_stack_ok)
  obtain r1 w1 where send: "axi_DmaSend_internal service_bus 1 s
      = (XST_SUCCESS, set_eth_tx r1 ((upd_lp (count_csum (es_skb s 1)) s)\<lparr>es_world := w1\<rparr>))" (is "_ = (_, ?s1)")
    and r1: "ring_idle r1" "same_bds (eth_tx_ring s) r1" "g_hw (groups r1) = ?bs"
    and desc: "frame_described (ram w1) (es_skb s 1) 1 ?bs"
    by (rule send_room [OF idle ok, where B = service_bus])
      (rule that, assumption, assumption, assumption, simp only: hw append_Nil, use addr in blast)
  have "nd_stopped (es_lp ?s1) = nd_stopped (es_lp s)"
    by (simp add: count_csum_def)
  then have run1: "eth_run service_bus s0 ?s1 {#1#} ?P"
    using eth_send [OF run up, where skb = 1] send by (simp add: axi_send_def stack demo_stack_ok)
  have stack1: "es_skb ?s1 = demo_stack" and ring1: "eth_tx_ring ?s1 = r1"
    by (simp_all add: stack)
  have hw1: "length (g_hw (groups r1)) = 8191"
    by (simp only: r1(3) len(1))
  have full: "length (g_free (groups r1)) < 2"
    using idle_lengths [OF r1(1)] hw1 same_bds_size [OF r1(2)] inv by (simp add: eth_inv_def eth_rings_def)
  let ?s2 = "upd_lp (\<lambda>lp. lp\<lparr>lp_deferred_skb := 2\<rparr>) (netif_stop_queue ?s1)"
  have "axi_DmaSend_internal service_bus 2 ?s1 = (XST_FAILURE, ?s2)"
    using r1(1) full stack1 ring1 by (intro send_full) (simp_all add: ring_idle_def demo_stack_ok)
  then have run2: "eth_run service_bus s0 ?s2 {#2, 1#} ?P"
    using eth_send [OF run1, where skb = 2] stack1 demo_stack_ok(1) up \<open>nd_stopped (es_lp ?s1) = nd_stopped (es_lp s)\<close>
    by (simp add: axi_send_def)
  have "hd ?bs \<in> set ?bs"
    using len(1) by (intro hd_in_set) auto
  then have nd: "\<not> bd_done (ram w1) (hd ?bs)"
    using desc by (auto simp: frame_described_def list_all2_conv_all_nth in_set_conv_nth split_beta)
  let ?s3 = "snd (axi_dma_tx_interrupt service_bus ?s2)"
  have ring: "eth_tx_ring ?s3 = r1"
    using ring_lp(1) [of ?s2 ?s1] ring1 demo_tx_isr(3) [of ?s2] by simp
  have "eth_run service_bus s0 ?s3 {#2, 1#} ?P"
    by (rule eth_tx_isr [OF run2 surjective_pairing])
  then show ?thesis
  proof (rule that [unfolded add_mset_commute [of 1 2]])
    show "length (g_hw (groups (eth_tx_ring ?s3))) = 8191"
      unfolding ring by (rule hw1)
    show "\<not> bd_done (ram (es_world ?s3)) (hd (g_hw (groups (eth_tx_ring ?s3))))"
      unfolding ring r1(3) using nd by (simp add: demo_tx_isr)
  qed (simp_all add: demo_tx_isr stack deferred_def)
qed

text \<open>The hardware completes the first buffer.\<close>

lemma demo_eth_finished:
  assumes fresh: "eth_fresh s0"
  obtains s where "eth_run service_bus s0 s {#1, 2#} (es_rcvd s0 @ rx_ids s0)" and "deferred s = [2]"
    and "lp_xmit (es_lp s)" and "ring_finished (ram (es_world s)) (eth_tx_ring s)" and "g_hw (groups (eth_tx_ring s)) \<noteq> []"
proof -
  obtain s where run: "eth_run service_bus s0 s {#1, 2#} (es_rcvd s0 @ rx_ids s0)" and d: "deferred s = [2]" "lp_xmit (es_lp s)"
    and hw: "length (g_hw (groups (eth_tx_ring s))) = 8191"
    by (rule demo_eth_deferred [OF fresh])
  let ?t = "eth_tx_ring s" and ?r = "eth_rx_ring s" and ?m = "ram (es_world s)"
  have "eth_rings s"
    using eth_run_inv [OF run] fresh by (simp add: eth_fresh_def eth_inv_def)
  then have inv: "ring_inv ?t" and g: "ring_geom ?t" and apart: "rings_apart ?t ?r"
    by (auto simp: eth_rings_def ring_idle_def ring_inv_def ring_view_def)
  let ?m' = "finish_ring ?t (ring_size ?t) ?m"
  note fin = finish_ring_finished [OF inv, of ?m]
  have rx: "XAxiDma_BdGetId ?m' (ring_at ?r j) = XAxiDma_BdGetId ?m (ring_at ?r j)" if "j < ring_size ?r" for j
    using ring_local_apart [OF finish_ring_local [OF g order_refl] apart that, of "0x34"]
    by (simp add: XAxiDma_BdGetId_def bd_words_def bd_off_def)
  let ?s = "s\<lparr>es_world := (es_world s)\<lparr>ram := ?m'\<rparr>\<rparr>"
  have "eth_run service_bus s0 ?s {#1, 2#} (es_rcvd s0 @ rx_ids s0)"
    using fin(2) rx by (intro eth_hardware [OF run]) simp
  then show ?thesis
    by (rule that) (use fin(1) hw d in \<open>auto simp: deferred_def\<close>)
qed

section \<open>Socket buffers\<close>



text \<open>C4: when the hardware has completed everything it holds in the transmit ring and the device is queued for the bottom half,
  one activation of it frees every buffer that was with the hardware, hands the deferred buffer over, and restarts
  the queue.\<close>

theorem queue_restarts:
  fixes save0 :: int
  assumes "eth_mem_ok M" and "eth_blank z" and "eth_probe B A M E vd z = (0, True, s0)" and "eth_run B s0 s S P"
    and "lp_xmit (es_lp s)" and "ring_finished (ram (es_world s)) (eth_tx_ring s)" and "g_hw (groups (eth_tx_ring s)) \<noteq> []"
  defines "s' \<equiv> DmaSendHandlerBH B save0 s"
  shows "\<not> nd_stopped (es_lp s') \<and> deferred s' = [] \<and> tx_ids s' = deferred s \<and> mset (es_freed s') + mset (deferred s) = S"
proof -
  have inv: "eth_inv s S P"
    using eth_run_inv [OF assms(4)] probe_ok [OF assms(1-3)] by (simp add: eth_fresh_def)
  have looks: "deferred s = [] \<or> bh_looks save0 s"
    using finished_looks [OF inv assms(6,7)] by simp
  have "eth_inv s' S P"
    unfolding s'_def by (rule send_bh_inv [OF inv looks])
  then show ?thesis
    using send_bh_finishes [OF inv assms(5,6) looks, of B, folded s'_def] by (auto simp: eth_inv_def)
qed

theorem queue_restarts_witness:
  "\<exists>s0 s. eth_probe service_bus demo_eth_pci demo_eth_mem demo_rx demo_eth_vd demo_eth = (0, True, s0)
    \<and> eth_run service_bus s0 s {#1, 2#} (es_rcvd s0 @ rx_ids s0) \<and> deferred s = [2]
    \<and> \<not> nd_stopped (es_lp (DmaSendHandlerBH service_bus 0 s)) \<and> tx_ids (DmaSendHandlerBH service_bus 0 s) = [2]"
proof -
  obtain s0 where p: "eth_probe service_bus demo_eth_pci demo_eth_mem demo_rx demo_eth_vd demo_eth = (0, True, s0)"
    by (rule demo_eth_probed)
  obtain s where s: "eth_run service_bus s0 s {#1, 2#} (es_rcvd s0 @ rx_ids s0)" "deferred s = [2]" "lp_xmit (es_lp s)"
    "ring_finished (ram (es_world s)) (eth_tx_ring s)" "g_hw (groups (eth_tx_ring s)) \<noteq> []"
    by (rule demo_eth_finished [OF probe_ok [OF demo_eth_mem_ok demo_eth_blank p]])
  show ?thesis
    using queue_restarts [OF demo_eth_mem_ok demo_eth_blank p s(1,3-5), of 0] p s(1,2) by auto
qed

text \<open>C5: every reachable state of the Ethernet driver is well formed, and no operation gets stuck in it: both rings keep
  their invariant with nothing left allocated or unreturned, in disjoint memory and of the size they were created with;
  the poll never follows a null pointer, and the bottom half never meets the error return of the ring.\<close>

theorem eth_well_formed:
  assumes "eth_mem_ok M" and "eth_blank z" and "eth_probe B A M E vd z = (0, True, s0)" and "eth_run B s0 s S P"
  shows "eth_rings s \<and> (\<exists>n s'. axi_poll B E' budget s = Some (n, s') \<and> eth_rings s')
    \<and> fst (send_drain (eth_tx_ring s) save0 s)"
proof -
  have inv: "eth_inv s S P"
    using eth_run_inv [OF assms(4)] probe_ok [OF assms(1-3)] by (simp add: eth_fresh_def)
  obtain n s' where "axi_poll B E' budget s = Some (n, s')" "eth_inv s' S (P @ rx_posted E' n s)"
    by (rule poll_ok [OF inv])
  moreover have "fst (send_drain (eth_tx_ring s) save0 s)"
    using send_drain_ok [of "eth_tx_ring s" save0 s] inv
    by (cases "send_drain (eth_tx_ring s) save0 s") (auto simp: eth_inv_def eth_rings_def ring_idle_def)
  ultimately show ?thesis
    using inv by (auto simp: eth_inv_def)
qed

theorem eth_well_formed_witness:
  "\<exists>s0 s n s'. eth_probe service_bus demo_eth_pci demo_eth_mem demo_rx demo_eth_vd demo_eth = (0, True, s0)
    \<and> eth_run service_bus s0 s {#1, 2#} (es_rcvd s0 @ rx_ids s0)
    \<and> axi_poll service_bus demo_rx 64 s = Some (n, s') \<and> eth_rings s'"
proof -
  obtain s0 where p: "eth_probe service_bus demo_eth_pci demo_eth_mem demo_rx demo_eth_vd demo_eth = (0, True, s0)"
    by (rule demo_eth_probed)
  obtain s where s: "eth_run service_bus s0 s {#1, 2#} (es_rcvd s0 @ rx_ids s0)"
    by (rule demo_eth_deferred [OF probe_ok [OF demo_eth_mem_ok demo_eth_blank p]])
  show ?thesis
    using eth_well_formed [OF demo_eth_mem_ok demo_eth_blank p s, of demo_rx 64] p s by blast
qed

section \<open>Sending\<close>

text \<open>C11: sending a buffer on a transmit ring with room for it hands one descriptor per piece to the hardware, in ring order: the
  header first, then the fragments. Each has the address and length of its piece and the completed bit cleared, the
  first names the buffer and the others nothing, and exactly the first and the last are marked as start and end of the
  frame.\<close>

theorem send_describes_frame:
  assumes idle: "ring_idle (eth_tx_ring s)" and ok: "skb_ok (es_skb s skb)"
    and short: "int (length (skb_frags (es_skb s skb))) + 1 < ETH_TX_BD_NUM"
  defines "bs \<equiv> take (Suc (length (skb_frags (es_skb s skb)))) (g_free (groups (eth_tx_ring s)))"
  assumes room: "Suc (length (skb_frags (es_skb s skb))) \<le> length (g_free (groups (eth_tx_ring s)))"
    and addr: "list_all2 (\<lambda>b p. \<not> addr_refused (bd_words (ram (es_world s)) b) (fst p)) bs (frame_pieces (es_skb s skb) skb)"
  shows "\<exists>s'. axi_DmaSend_internal B skb s = (XST_SUCCESS, s') \<and> ring_idle (eth_tx_ring s')
    \<and> g_hw (groups (eth_tx_ring s')) = g_hw (groups (eth_tx_ring s)) @ bs
    \<and> frame_described (ram (es_world s')) (es_skb s skb) skb bs"
  by (rule send_room [OF idle ok short room, where B = B]) (use addr in \<open>auto simp: bs_def\<close>)

definition demo_sender :: "(u32 \<Rightarrow> u32) eth_state" where
  "demo_sender = set_eth_tx (demo_ring 4) (demo_eth\<lparr>es_skb := (\<lambda>_. demo_skb 0x5000
     [\<lparr>frag_addr = 0x6000, frag_size = 100\<rparr>, \<lparr>frag_addr = 0x7000, frag_size = 200\<rparr>]),
     es_world := \<lparr>ram = (\<lambda>_. 0xFF), dev = (\<lambda>_. 0)\<rparr>\<rparr>)"

theorem send_describes_frame_witness:
  "\<exists>s'. axi_DmaSend_internal service_bus 0x99 demo_sender = (XST_SUCCESS, s')
    \<and> map (XAxiDma_BdGetId (ram (es_world s'))) [0x40000000, 0x40000040, 0x40000080] = [0x99, NULL, NULL]
    \<and> map (XAxiDma_BdGetBufAddr (ram (es_world s'))) [0x40000000, 0x40000040, 0x40000080] = [0x5000, 0x6000, 0x7000]
    \<and> map (XAxiDma_BdGetCtrl (ram (es_world s'))) [0x40000000, 0x40000040, 0x40000080]
        = [XAXIDMA_BD_CTRL_TXSOF_MASK, 0, XAXIDMA_BD_CTRL_TXEOF_MASK]"
proof -
  let ?k = "es_skb demo_sender 0x99"
  have ring: "eth_tx_ring demo_sender = demo_ring 4"
    by (simp add: demo_sender_def)
  have k: "?k = demo_skb 0x5000 [\<lparr>frag_addr = 0x6000, frag_size = 100\<rparr>, \<lparr>frag_addr = 0x7000, frag_size = 200\<rparr>]"
    by (simp add: demo_sender_def)
  have free: "g_free (groups (demo_ring 4)) = [0x40000000, 0x40000040, 0x40000080, 0x400000C0]"
    by (simp add: demo_groups upt_rec)
  have bs: "take (Suc (length (skb_frags ?k))) (g_free (groups (eth_tx_ring demo_sender))) = [0x40000000, 0x40000040, 0x40000080]"
    by (simp add: k demo_skb_def ring free)
  have ps: "frame_pieces ?k 0x99 = [(0x5000, 60, 0x99), (0x6000, 100, 0), (0x7000, 200, 0)]"
    by (simp add: k frame_pieces_def demo_skb_def)
  have "ring_idle (eth_tx_ring demo_sender)" "skb_ok ?k" "int (length (skb_frags ?k)) + 1 < 8192"
    "Suc (length (skb_frags ?k)) \<le> length (g_free (groups (eth_tx_ring demo_sender)))"
    "list_all2 (\<lambda>b p. \<not> addr_refused (bd_words (ram (es_world demo_sender)) b) (fst p))
      (take (Suc (length (skb_frags ?k))) (g_free (groups (eth_tx_ring demo_sender)))) (frame_pieces ?k 0x99)"
    unfolding bs ps
    by (simp_all add: ring free demo_idle k skb_ok_def demo_skb_def len_fits_def demo_sender_def addr_refused_def bd_words_def
        XAxiDma_BdRead_def load32_def)
  note send_describes_frame [OF this, of service_bus, unfolded bs]
  then show ?thesis
    by (auto simp: frame_described_def ps upt_rec frame_ctrl_def)
qed

section \<open>Defects\<close>

text \<open>C35: the bottom half reads a counter that it has not initialised. If the counter happens to be zero and nothing was
  completed, it restarts the queue although a buffer is deferred. The next buffer that does not fit takes its place,
  and the driver has lost the first one: it is neither freed, nor with the hardware, nor deferred.\<close>

theorem deferred_lost:
  assumes "eth_mem_ok M" and "eth_blank z" and "eth_probe B A M E vd z = (0, True, s0)" and "eth_run B s0 s S P"
    and d: "deferred s = [x]" and xmit: "lp_xmit (es_lp s)" and none: "\<not> bh_looks 0 s"
    and skb: "skb \<noteq> NULL" "skb_sendable (es_skb s skb)" "length (g_free (groups (eth_tx_ring s))) < Suc (length (skb_frags (es_skb s skb)))"
  defines "s1 \<equiv> DmaSendHandlerBH B 0 s"
  defines "s2 \<equiv> snd (axi_send B skb s1)"
  shows "\<not> nd_stopped (es_lp s1) \<and> S = mset (es_freed s2) + mset (tx_ids s2) + {#x#} \<and> deferred s2 = [skb]"
proof -
  have inv: "eth_inv s S P"
    using eth_run_inv [OF assms(4)] probe_ok [OF assms(1-3)] by (simp add: eth_fresh_def)
  have r: "ring_inv (eth_tx_ring s)" "g_post (groups (eth_tx_ring s)) = []"
    using inv by (simp_all add: eth_inv_def eth_rings_def ring_idle_def)
  let ?s = "upd_lp (\<lambda>lp. lp\<lparr>lp_xmit := False\<rparr>) s"
  have ring: "eth_tx_ring ?s = eth_tx_ring s"
    by (simp add: eth_tx_ring_def)
  obtain n r1 b where op: "XAxiDma_BdRingFromHw (eth_tx_ring s) 8192 (ram (es_world s)) = (n, r1, b)"
    by (metis prod_cases3)
  have n: "\<not> 0 < n"
    using none op by (simp add: bh_looks_def)
  note r1 = nothing_taken(2,3) [OF r op n]
  let ?s1 = "upd_lp (\<lambda>lp. lp\<lparr>nd_stopped := False\<rparr>) (set_eth_tx r1 ?s)"
  have "send_drain (eth_tx_ring ?s) 0 ?s = (True, r1, 0, ?s)"
    using op n by (simp add: send_drain.simps [of "eth_tx_ring s"] ring)
  then have s1: "s1 = ?s1\<lparr>es_world := XAxiDma_mBdRingIntEnable B (eth_tx_ring ?s1) XAXIDMA_IRQ_ALL_MASK (es_world ?s1)\<rparr>"
    using xmit by (simp add: s1_def DmaSendHandlerBH_def DmaSendHandlerBH_netdev_def Let_def)
  have ring1: "eth_tx_ring s1 = r1" "es_skb s1 = es_skb s" "es_freed s1 = es_freed s" "ram (es_world s1) = ram (es_world s)"
    "\<not> nd_stopped (es_lp s1)"
    using ring_lp(1) [of ?s1 "set_eth_tx r1 ?s"] by (simp_all add: s1)
  have "axi_DmaSend_internal B skb s1 = (XST_FAILURE, upd_lp (\<lambda>lp. lp\<lparr>lp_deferred_skb := skb\<rparr>) (netif_stop_queue s1))"
    using skb r1 by (intro send_full) (simp_all add: ring1 taken_back_def skb_sendable_def)
  then have s2: "s2 = upd_lp (\<lambda>lp. lp\<lparr>lp_deferred_skb := skb\<rparr>) (netif_stop_queue s1)"
    by (simp add: s2_def axi_send_def)
  have "eth_tx_ring s2 = r1"
    using ring_lp(1) [of s2 s1] ring1(1) by (simp add: s2)
  then have "tx_ids s2 = tx_ids s" "es_freed s2 = es_freed s" "deferred s2 = [skb]"
    using r1(1) ring1 skb(1) by (simp_all add: tx_ids_def hw_ids_def) (simp_all add: s2 ring1 deferred_def)
  then show ?thesis
    using inv d ring1(5) by (simp add: eth_inv_def)
qed

theorem deferred_lost_witness:
  "\<exists>s0 s. eth_probe service_bus demo_eth_pci demo_eth_mem demo_rx demo_eth_vd demo_eth = (0, True, s0)
    \<and> eth_run service_bus s0 s {#1, 2#} (es_rcvd s0 @ rx_ids s0) \<and> deferred s = [2]
    \<and> deferred (snd (axi_send service_bus 3 (DmaSendHandlerBH service_bus 0 s))) = [3]"
proof -
  obtain s0 where p: "eth_probe service_bus demo_eth_pci demo_eth_mem demo_rx demo_eth_vd demo_eth = (0, True, s0)"
    by (rule demo_eth_probed)
  note fresh = probe_ok [OF demo_eth_mem_ok demo_eth_blank p]
  obtain s where s: "eth_run service_bus s0 s {#1, 2#} (es_rcvd s0 @ rx_ids s0)" "deferred s = [2]" "lp_xmit (es_lp s)"
    and stack: "es_skb s = demo_stack" and hw: "length (g_hw (groups (eth_tx_ring s))) = 8191"
      "\<not> bd_done (ram (es_world s)) (hd (g_hw (groups (eth_tx_ring s))))"
    by (rule demo_eth_deferred [OF fresh])
  have idle: "ring_idle (eth_tx_ring s)" "ring_inv (eth_tx_ring s)" "ring_size (eth_tx_ring s) = 8192"
    using eth_run_inv [OF s(1)] fresh by (simp_all add: eth_fresh_def eth_inv_def eth_rings_def ring_idle_def)
  have free: "length (g_free (groups (eth_tx_ring s))) = 1"
    using idle_lengths [OF idle(1)] hw(1) idle(3) by simp
  obtain n r b where op: "XAxiDma_BdRingFromHw (eth_tx_ring s) 8192 (ram (es_world s)) = (n, r, b)"
    by (metis prod_cases3)
  have "n = 0"
    using fromhw_cases [OF idle(2) op] hw by (cases "g_hw (groups (eth_tx_ring s))") (simp_all add: whole_packets_def)
  then have none: "\<not> bh_looks 0 s"
    using op by (simp add: bh_looks_def)
  have k: "skb_sendable (es_skb s 3)" "length (skb_frags (es_skb s 3)) = 1"
    using demo_stack_ok(1) by (simp_all add: skb_sendable_def stack) (simp_all add: demo_stack_def demo_skb_def)
  show ?thesis
    using deferred_lost [OF demo_eth_mem_ok demo_eth_blank p s none, of 3] k free p s by auto
qed

lemma start_halted:
  assumes "XAxiDma_BdRingStart B r i w = Some (st, r', w')" and "\<And>a d. fst (bus_in32 B a d) AND XAXIDMA_HALTED_MASK \<noteq> 0"
  shows "r' = r \<and> st \<noteq> XST_FAILURE"
proof -
  have "\<not> fst (XAxiDma_mBdRingHwIsStarted B r v)" for v
    using assms(2) by (simp add: XAxiDma_mBdRingHwIsStarted_def XAxiDma_ReadReg_def XIo_In32_def split_beta Let_def)
  then show ?thesis
    using assms(1) by (auto simp: XAxiDma_BdRingStart_def XAxiDma_UpdateBdRingCDesc_def XAxiDma_StartBdRingHw_def Let_def split_beta
        split: option.splits if_splits cdesc_search.splits)
qed


definition demo_closed :: "(u32 \<Rightarrow> u32) eth_state" where
  "demo_closed = set_eth_rx (demo_ring 4) (set_eth_tx (demo_ring 4) demo_eth)"


end
