(* ===== verification/Bytes.thy ===== *)
theory Bytes
  imports Prelude
begin

unbundle bit_operations_syntax

text \<open>
  Words as bytes in memory. The build target is little endian: the byte at the lowest address is the least significant
  one. The byte order macros are those of \<^verbatim>\<open>cg/iscsi-scst/usr/types.h\<close> for such a machine.
\<close>

type_synonym u64 = "64 word"
type_synonym words4 = "u32 \<times> u32 \<times> u32 \<times> u32"

section \<open>Bytes of a word\<close>

definition bytes_of :: "u32 \<Rightarrow> u8 \<times> u8 \<times> u8 \<times> u8" where
  "bytes_of w = (ucast w, ucast (drop_bit 8 w), ucast (drop_bit 16 w), ucast (drop_bit 24 w))"

fun word_of :: "u8 \<times> u8 \<times> u8 \<times> u8 \<Rightarrow> u32" where
  "word_of (b0, b1, b2, b3) = ucast b0 OR push_bit 8 (ucast b1) OR push_bit 16 (ucast b2) OR push_bit 24 (ucast b3)"

lemma u8_high: "\<not> bit (r :: u8) (8 + n)" "\<not> bit (r :: u8) (16 + n)" "\<not> bit (r :: u8) (24 + n)"
  using bit_imp_le_length [of r "8 + n"] bit_imp_le_length [of r "16 + n"] bit_imp_le_length [of r "24 + n"] by auto

lemma bytes_of_word_of [simp]: "bytes_of (word_of c) = c"
  by (cases c) (auto simp: word_of.simps bytes_of_def bit_simps u8_high intro!: bit_word_eqI)

declare word_of.simps [simp del]

lemma bytes_of_ucast: "bytes_of (ucast (r :: u8)) = (r, 0, 0, 0)"
  by (auto simp: bytes_of_def bit_simps u8_high intro!: bit_word_eqI)

lemma word_of_bytes_of [simp]: "word_of (bytes_of w) = w"
proof (rule bit_word_eqI)
  fix n
  assume "n < LENGTH(32)"
  then have "n < 8 \<or> 8 \<le> n \<and> n < 16 \<or> 16 \<le> n \<and> n < 24 \<or> 24 \<le> n \<and> n < 32"
    by auto
  then show "bit (word_of (bytes_of w)) n = bit w n"
    by (auto simp: bytes_of_def word_of.simps bit_simps not_le not_less)
qed

definition word_bytes :: "u32 \<Rightarrow> u8 list" where
  "word_bytes w = (case bytes_of w of (b0, b1, b2, b3) \<Rightarrow> [b0, b1, b2, b3])"

fun words_of :: "u8 list \<Rightarrow> u32 list" where
  "words_of (b0 # b1 # b2 # b3 # bs) = word_of (b0, b1, b2, b3) # words_of bs"
| "words_of _ = []"

lemma length_word_bytes [simp]: "length (word_bytes w) = 4"
  by (simp add: word_bytes_def split: prod.split)

lemma length_words_of [simp]: "length (words_of bs) = length bs div 4"
  by (induction bs rule: words_of.induct) simp_all

lemma nth_words_of:
  "4 * i + 3 < length bs \<Longrightarrow> words_of bs ! i = word_of (bs ! (4 * i), bs ! (4 * i + 1), bs ! (4 * i + 2), bs ! (4 * i + 3))"
proof (induction bs arbitrary: i rule: words_of.induct)
  case (1 b0 b1 b2 b3 bs)
  then show ?case
    by (cases i) (simp_all add: add.commute)
qed simp_all

section \<open>Byte order\<close>

definition bswap_32 :: "u32 \<Rightarrow> u32" where
  "bswap_32 w = (case bytes_of w of (b0, b1, b2, b3) \<Rightarrow> word_of (b3, b2, b1, b0))"

definition cpu_to_be32 :: "u32 \<Rightarrow> u32" where
  "cpu_to_be32 x = bswap_32 x"

definition be32_to_cpu :: "u32 \<Rightarrow> u32" where
  "be32_to_cpu x = bswap_32 x"

definition cpu_to_le32 :: "u32 \<Rightarrow> u32" where
  "cpu_to_le32 x = x"

definition le32_to_cpu :: "u32 \<Rightarrow> u32" where
  "le32_to_cpu x = x"

lemma bswap_32_word_of [simp]: "bswap_32 (word_of (a, b, c, d)) = word_of (d, c, b, a)"
  by (simp add: bswap_32_def)

lemma bswap_32_twice [simp]: "bswap_32 (bswap_32 w) = w"
proof -
  obtain a b c d where "bytes_of w = (a, b, c, d)"
    by (metis prod_cases4)
  then show ?thesis
    by (metis bswap_32_word_of word_of_bytes_of)
qed

end
