(* ===== verification/Cipher.thy ===== *)
theory Cipher
  imports Bytes
begin

unbundle bit_operations_syntax

text \<open>
  The software cipher of the test bench, \<^verbatim>\<open>tb/dma/aes.c\<close> with the table of \<^verbatim>\<open>tb/dma/sbox.h\<close>. The arrays \<^verbatim>\<open>state\<close> and \<^verbatim>\<open>key\<close> are
  tuples of words; a word is seen through a byte pointer as its four bytes, least significant first. \<^verbatim>\<open>char\<close> is signed.
\<close>

section \<open>The table\<close>

definition table_0 :: "u8 list" where
  "table_0 = [99, 99, 165, 198, 124, 124, 132, 248, 119, 119, 153, 238, 123, 123, 141, 246, 242, 242, 13, 255, 107, 107, 189, 214, 111, 111, 177, 222, 197, 197, 84, 145,
    48, 48, 80, 96, 1, 1, 3, 2, 103, 103, 169, 206, 43, 43, 125, 86, 254, 254, 25, 231, 215, 215, 98, 181, 171, 171, 230, 77, 118, 118, 154, 236,
    202, 202, 69, 143, 130, 130, 157, 31, 201, 201, 64, 137, 125, 125, 135, 250, 250, 250, 21, 239, 89, 89, 235, 178, 71, 71, 201, 142, 240, 240, 11, 251,
    173, 173, 236, 65, 212, 212, 103, 179, 162, 162, 253, 95, 175, 175, 234, 69, 156, 156, 191, 35, 164, 164, 247, 83, 114, 114, 150, 228, 192, 192, 91, 155,
    183, 183, 194, 117, 253, 253, 28, 225, 147, 147, 174, 61, 38, 38, 106, 76, 54, 54, 90, 108, 63, 63, 65, 126, 247, 247, 2, 245, 204, 204, 79, 131,
    52, 52, 92, 104, 165, 165, 244, 81, 229, 229, 52, 209, 241, 241, 8, 249, 113, 113, 147, 226, 216, 216, 115, 171, 49, 49, 83, 98, 21, 21, 63, 42,
    4, 4, 12, 8, 199, 199, 82, 149, 35, 35, 101, 70, 195, 195, 94, 157, 24, 24, 40, 48, 150, 150, 161, 55, 5, 5, 15, 10, 154, 154, 181, 47,
    7, 7, 9, 14, 18, 18, 54, 36, 128, 128, 155, 27, 226, 226, 61, 223, 235, 235, 38, 205, 39, 39, 105, 78, 178, 178, 205, 127, 117, 117, 159, 234,
    9, 9, 27, 18, 131, 131, 158, 29, 44, 44, 116, 88, 26, 26, 46, 52, 27, 27, 45, 54, 110, 110, 178, 220, 90, 90, 238, 180, 160, 160, 251, 91,
    82, 82, 246, 164, 59, 59, 77, 118, 214, 214, 97, 183, 179, 179, 206, 125, 41, 41, 123, 82, 227, 227, 62, 221, 47, 47, 113, 94, 132, 132, 151, 19,
    83, 83, 245, 166, 209, 209, 104, 185, 0, 0, 0, 0, 237, 237, 44, 193, 32, 32, 96, 64, 252, 252, 31, 227, 177, 177, 200, 121, 91, 91, 237, 182,
    106, 106, 190, 212, 203, 203, 70, 141, 190, 190, 217, 103, 57, 57, 75, 114, 74, 74, 222, 148, 76, 76, 212, 152, 88, 88, 232, 176, 207, 207, 74, 133,
    208, 208, 107, 187, 239, 239, 42, 197, 170, 170, 229, 79, 251, 251, 22, 237, 67, 67, 197, 134, 77, 77, 215, 154, 51, 51, 85, 102, 133, 133, 148, 17,
    69, 69, 207, 138, 249, 249, 16, 233, 2, 2, 6, 4, 127, 127, 129, 254, 80, 80, 240, 160, 60, 60, 68, 120, 159, 159, 186, 37, 168, 168, 227, 75,
    81, 81, 243, 162, 163, 163, 254, 93, 64, 64, 192, 128, 143, 143, 138, 5, 146, 146, 173, 63, 157, 157, 188, 33, 56, 56, 72, 112, 245, 245, 4, 241,
    188, 188, 223, 99, 182, 182, 193, 119, 218, 218, 117, 175, 33, 33, 99, 66, 16, 16, 48, 32, 255, 255, 26, 229, 243, 243, 14, 253, 210, 210, 109, 191,
    205, 205, 76, 129, 12, 12, 20, 24, 19, 19, 53, 38, 236, 236, 47, 195, 95, 95, 225, 190, 151, 151, 162, 53, 68, 68, 204, 136, 23, 23, 57, 46,
    196, 196, 87, 147, 167, 167, 242, 85, 126, 126, 130, 252, 61, 61, 71, 122, 100, 100, 172, 200, 93, 93, 231, 186, 25, 25, 43, 50, 115, 115, 149, 230,
    96, 96, 160, 192, 129, 129, 152, 25, 79, 79, 209, 158, 220, 220, 127, 163, 34, 34, 102, 68, 42, 42, 126, 84, 144, 144, 171, 59, 136, 136, 131, 11,
    70, 70, 202, 140, 238, 238, 41, 199, 184, 184, 211, 107, 20, 20, 60, 40, 222, 222, 121, 167, 94, 94, 226, 188, 11, 11, 29, 22, 219, 219, 118, 173,
    224, 224, 59, 219, 50, 50, 86, 100, 58, 58, 78, 116, 10, 10, 30, 20, 73, 73, 219, 146, 6, 6, 10, 12, 36, 36, 108, 72, 92, 92, 228, 184,
    194, 194, 93, 159, 211, 211, 110, 189, 172, 172, 239, 67, 98, 98, 166, 196, 145, 145, 168, 57, 149, 149, 164, 49, 228, 228, 55, 211, 121, 121, 139, 242,
    231, 231, 50, 213, 200, 200, 67, 139, 55, 55, 89, 110, 109, 109, 183, 218, 141, 141, 140, 1, 213, 213, 100, 177, 78, 78, 210, 156, 169, 169, 224, 73,
    108, 108, 180, 216, 86, 86, 250, 172, 244, 244, 7, 243, 234, 234, 37, 207, 101, 101, 175, 202, 122, 122, 142, 244, 174, 174, 233, 71, 8, 8, 24, 16,
    186, 186, 213, 111, 120, 120, 136, 240, 37, 37, 111, 74, 46, 46, 114, 92, 28, 28, 36, 56, 166, 166, 241, 87, 180, 180, 199, 115, 198, 198, 81, 151,
    232, 232, 35, 203, 221, 221, 124, 161, 116, 116, 156, 232, 31, 31, 33, 62, 75, 75, 221, 150, 189, 189, 220, 97, 139, 139, 134, 13, 138, 138, 133, 15,
    112, 112, 144, 224, 62, 62, 66, 124, 181, 181, 196, 113, 102, 102, 170, 204, 72, 72, 216, 144, 3, 3, 5, 6, 246, 246, 1, 247, 14, 14, 18, 28,
    97, 97, 163, 194, 53, 53, 95, 106, 87, 87, 249, 174, 185, 185, 208, 105, 134, 134, 145, 23, 193, 193, 88, 153, 29, 29, 39, 58, 158, 158, 185, 39,
    225, 225, 56, 217, 248, 248, 19, 235, 152, 152, 179, 43, 17, 17, 51, 34, 105, 105, 187, 210, 217, 217, 112, 169, 142, 142, 137, 7, 148, 148, 167, 51,
    155, 155, 182, 45, 30, 30, 34, 60, 135, 135, 146, 21, 233, 233, 32, 201, 206, 206, 73, 135, 85, 85, 255, 170, 40, 40, 120, 80, 223, 223, 122, 165,
    140, 140, 143, 3, 161, 161, 248, 89, 137, 137, 128, 9, 13, 13, 23, 26, 191, 191, 218, 101, 230, 230, 49, 215, 66, 66, 198, 132, 104, 104, 184, 208,
    65, 65, 195, 130, 153, 153, 176, 41, 45, 45, 119, 90, 15, 15, 17, 30, 176, 176, 203, 123, 84, 84, 252, 168, 187, 187, 214, 109, 22, 22, 58, 44]"

section \<open>Reading the table\<close>

text \<open>The entry \<open>t[x*4]\<close> of the table as bytes, and \<open>t0[x]\<close> of the table as words.\<close>

definition tab :: "u8 \<Rightarrow> u8" where
  "tab x = table_0 ! (unat x * 4)"

definition t0 :: "u8 \<Rightarrow> u32" where
  "t0 x = word_of (table_0 ! (unat x * 4), table_0 ! (unat x * 4 + 1), table_0 ! (unat x * 4 + 2), table_0 ! (unat x * 4 + 3))"

section \<open>Macros\<close>

definition sub_byte :: "u32 \<Rightarrow> u32" where
  "sub_byte w = (case bytes_of w of (b0, b1, b2, b3) \<Rightarrow> word_of (tab b0, tab b1, tab b2, tab b3))"

definition rot_up_8 :: "u32 \<Rightarrow> u32" where
  "rot_up_8 x = push_bit 8 x OR drop_bit 24 x"

definition rot_16 :: "u32 \<Rightarrow> u32" where
  "rot_16 x = push_bit 16 x OR drop_bit 16 x"

definition rot_down_8 :: "u32 \<Rightarrow> u32" where
  "rot_down_8 x = drop_bit 8 x OR push_bit 24 x"

definition table_lookup :: "u32 \<Rightarrow> words4" where
  "table_lookup y = (case bytes_of y of (b0, b1, b2, b3) \<Rightarrow> (t0 b0, t0 b1, t0 b2, t0 b3))"

fun final_mask :: "bool \<Rightarrow> words4 \<Rightarrow> words4" where
  "final_mask is_final_round (p0, p1, p2, p3) =
    (if is_final_round then
       (p0 AND 0xFF, p1 AND 0xFF00, rot_16 p2 AND 0xFF0000, rot_down_8 p3 AND 0xFF000000)
     else (rot_up_8 p0, rot_16 p1, rot_down_8 p2, p3))"

fun rot_tab :: "words4 \<Rightarrow> words4" where
  "rot_tab (p0, p1, p2, p3) = (rot_up_8 p0, rot_16 p1, rot_down_8 p2, p3)"

section \<open>The steps of a round\<close>

text \<open>The round constant, with the integer promotion and the arithmetic shift of the code.\<close>

definition next_rcon :: "u8 \<Rightarrow> u8" where
  "next_rcon rcon =
    (let j = sint rcon;
         j = push_bit 1 j;
         j = j XOR (drop_bit 8 j AND 0x1B)
     in word_of_int j)"

definition key_temp :: "u32 \<Rightarrow> u8 \<Rightarrow> u32" where
  "key_temp k rcon =
    (let temp = rot_down_8 k;
         temp = sub_byte temp
     in temp XOR ucast rcon)"

text \<open>The four lookups of a round, each with its exclusive ors; \<open>f\<close> is what follows the lookup, and \<open>z\<close> starts as the round key.\<close>

fun lookup_round :: "(words4 \<Rightarrow> words4) \<Rightarrow> words4 \<Rightarrow> words4 \<Rightarrow> words4" where
  "lookup_round f (z0, z1, z2, z3) (s0, s1, s2, s3) =
    (let (p0, p1, p2, p3) = f (table_lookup s0);
         z0 = z0 XOR p0; z3 = z3 XOR p1; z2 = z2 XOR p2; z1 = z1 XOR p3;
         (p0, p1, p2, p3) = f (table_lookup s1);
         z1 = z1 XOR p0; z0 = z0 XOR p1; z3 = z3 XOR p2; z2 = z2 XOR p3;
         (p0, p1, p2, p3) = f (table_lookup s2);
         z2 = z2 XOR p0; z1 = z1 XOR p1; z0 = z0 XOR p2; z3 = z3 XOR p3;
         (p0, p1, p2, p3) = f (table_lookup s3)
     in (z0 XOR p3, z1 XOR p2, z2 XOR p1, z3 XOR p0))"

fun xor_state :: "words4 \<Rightarrow> words4 \<Rightarrow> words4" where
  "xor_state (k0, k1, k2, k3) (s0, s1, s2, s3) = (s0 XOR k0, s1 XOR k1, s2 XOR k2, s3 XOR k3)"

text \<open>A key word into whose bytes table entries are added, and the last round of the versions without branch.\<close>

definition xor_bytes :: "u32 \<Rightarrow> u8 \<Rightarrow> u8 \<Rightarrow> u8 \<Rightarrow> u8 \<Rightarrow> u32" where
  "xor_bytes k a0 a1 a2 a3 = (case bytes_of k of (b0, b1, b2, b3) \<Rightarrow>
     word_of (b0 XOR tab a0, b1 XOR tab a1, b2 XOR tab a2, b3 XOR tab a3))"

fun final_round :: "words4 \<Rightarrow> words4 \<Rightarrow> words4" where
  "final_round (k0, k1, k2, k3) (s0, s1, s2, s3) =
    (case (bytes_of s0, bytes_of s1, bytes_of s2, bytes_of s3) of
       ((a0, a1, a2, a3), (a4, a5, a6, a7), (a8, a9, a10, a11), (a12, a13, a14, a15)) \<Rightarrow>
         (xor_bytes k0 a0 a5 a10 a15, xor_bytes k1 a4 a9 a14 a3, xor_bytes k2 a8 a13 a2 a7, xor_bytes k3 a12 a1 a6 a11))"

section \<open>128 bit keys\<close>

fun key_128 :: "words4 \<Rightarrow> u8 \<Rightarrow> words4" where
  "key_128 (k0, k1, k2, k3) rcon =
    (let temp = key_temp k3 rcon;
         k0 = k0 XOR temp; k1 = k1 XOR k0; k2 = k2 XOR k1; k3 = k3 XOR k2
     in (k0, k1, k2, k3))"

text \<open>The loops; the state of the loop is the key words, the round constant and the state array.\<close>

primrec loop_128 :: "nat \<Rightarrow> nat list \<Rightarrow> words4 \<Rightarrow> u8 \<Rightarrow> words4 \<Rightarrow> words4 \<times> u8 \<times> words4" where
  "loop_128 nr [] k rcon s = (k, rcon, s)"
| "loop_128 nr (i # is) k rcon s =
    (let k = key_128 k rcon;
         rcon = next_rcon rcon;
         is_final_round = (i = nr)
     in loop_128 nr is k rcon (lookup_round (final_mask is_final_round) k s))"

definition encrypt_128_key_expand_inline :: "words4 \<Rightarrow> words4 \<Rightarrow> words4" where
  "encrypt_128_key_expand_inline state key =
    (let nr = 10;
         (k, rcon, s) = loop_128 nr [1..<nr + 1] key 1 (xor_state key state)
     in s)"

primrec loop_128_no_branch :: "nat list \<Rightarrow> words4 \<Rightarrow> u8 \<Rightarrow> words4 \<Rightarrow> words4 \<times> u8 \<times> words4" where
  "loop_128_no_branch [] k rcon s = (k, rcon, s)"
| "loop_128_no_branch (i # is) k rcon s =
    (let k = key_128 k rcon;
         rcon = next_rcon rcon
     in loop_128_no_branch is k rcon (lookup_round rot_tab k s))"

definition encrypt_128_key_expand_inline_no_branch :: "words4 \<Rightarrow> words4 \<Rightarrow> words4" where
  "encrypt_128_key_expand_inline_no_branch state key =
    (let nr = 10;
         (k, rcon, s) = loop_128_no_branch [1..<nr] key 1 (xor_state key state);
         k = key_128 k rcon
     in final_round k s)"

section \<open>192 bit keys\<close>

type_synonym words6 = "u32 \<times> u32 \<times> u32 \<times> u32 \<times> u32 \<times> u32"

text \<open>The parts of an iteration: before the label \<^verbatim>\<open>a\<close>, and the key words and rounds behind it.\<close>

fun key_192_top :: "words6 \<Rightarrow> words6" where
  "key_192_top (k0, k1, k2, k3, k4, k5) = (let k4 = k4 XOR k3; k5 = k5 XOR k4 in (k0, k1, k2, k3, k4, k5))"

fun key_192_half :: "words6 \<Rightarrow> u8 \<Rightarrow> words6" where
  "key_192_half (k0, k1, k2, k3, k4, k5) rcon =
    (let temp = key_temp k5 rcon; k0 = k0 XOR temp; k1 = k1 XOR k0 in (k0, k1, k2, k3, k4, k5))"

fun key_192_rest :: "words6 \<Rightarrow> words6" where
  "key_192_rest (k0, k1, k2, k3, k4, k5) =
    (let k2 = k2 XOR k1; k3 = k3 XOR k2; k4 = k4 XOR k3; k5 = k5 XOR k4 in (k0, k1, k2, k3, k4, k5))"

fun key_192_four :: "words6 \<Rightarrow> u8 \<Rightarrow> words6" where
  "key_192_four (k0, k1, k2, k3, k4, k5) rcon =
    (let temp = key_temp k5 rcon; k0 = k0 XOR temp; k1 = k1 XOR k0; k2 = k2 XOR k1; k3 = k3 XOR k2
     in (k0, k1, k2, k3, k4, k5))"

text \<open>The first two rounds of an iteration, from the label on; they appear again behind the loop.\<close>

definition rounds_192 :: "words6 \<Rightarrow> u8 \<Rightarrow> words4 \<Rightarrow> words6 \<times> u8 \<times> words4" where
  "rounds_192 k rcon s =
    (let k = key_192_half k rcon;
         rcon = next_rcon rcon;
         (k0, k1, k2, k3, k4, k5) = k;
         s = lookup_round rot_tab (k4, k5, k0, k1) s;
         k = key_192_rest k;
         (k0, k1, k2, k3, k4, k5) = k
     in (k, rcon, lookup_round rot_tab (k2, k3, k4, k5) s))"

text \<open>The jump to the label enters the first iteration behind the update of \<open>k4\<close> and \<open>k5\<close>.\<close>

primrec loop_192 :: "bool \<Rightarrow> nat list \<Rightarrow> words6 \<Rightarrow> u8 \<Rightarrow> words4 \<Rightarrow> words6 \<times> u8 \<times> words4" where
  "loop_192 at_a [] k rcon s = (k, rcon, s)"
| "loop_192 at_a (i # is) k rcon s =
    (let k = (if at_a then k else key_192_top k);
         (k, rcon, s) = rounds_192 k rcon s;
         k = key_192_four k rcon;
         rcon = next_rcon rcon;
         (k0, k1, k2, k3, k4, k5) = k
     in loop_192 False is k rcon (lookup_round rot_tab (k0, k1, k2, k3) s))"

definition encrypt_192_key_expand_inline_no_branch :: "words4 \<Rightarrow> words6 \<Rightarrow> words4" where
  "encrypt_192_key_expand_inline_no_branch state key =
    (let (k0, k1, k2, k3, k4, k5) = key;
         (k, rcon, s) = loop_192 True [1..<4] key 1 (xor_state (k0, k1, k2, k3) state);
         k = key_192_top k;
         (k, rcon, s) = rounds_192 k rcon s;
         (k0, k1, k2, k3, k4, k5) = key_192_four k rcon
     in final_round (k0, k1, k2, k3) s)"

section \<open>256 bit keys\<close>

type_synonym words8 = "words4 \<times> words4"

fun key_256_top :: "words8 \<Rightarrow> words8" where
  "key_256_top ((k0, k1, k2, k3), (k4, k5, k6, k7)) =
    (let temp = sub_byte k3; k4 = k4 XOR temp; k5 = k5 XOR k4; k6 = k6 XOR k5; k7 = k7 XOR k6
     in ((k0, k1, k2, k3), (k4, k5, k6, k7)))"

fun key_256_low :: "words8 \<Rightarrow> u8 \<Rightarrow> words8" where
  "key_256_low ((k0, k1, k2, k3), (k4, k5, k6, k7)) rcon =
    (let temp = key_temp k7 rcon; k0 = k0 XOR temp; k1 = k1 XOR k0; k2 = k2 XOR k1; k3 = k3 XOR k2
     in ((k0, k1, k2, k3), (k4, k5, k6, k7)))"

primrec loop_256 :: "bool \<Rightarrow> nat list \<Rightarrow> words8 \<Rightarrow> u8 \<Rightarrow> words4 \<Rightarrow> words8 \<times> u8 \<times> words4" where
  "loop_256 at_a [] k rcon s = (k, rcon, s)"
| "loop_256 at_a (i # is) k rcon s =
    (let k = (if at_a then k else key_256_top k);
         s = lookup_round rot_tab (snd k) s;
         k = key_256_low k rcon;
         rcon = next_rcon rcon
     in loop_256 False is k rcon (lookup_round rot_tab (fst k) s))"

definition encrypt_256_key_expand_inline_no_branch :: "words4 \<Rightarrow> words8 \<Rightarrow> words4" where
  "encrypt_256_key_expand_inline_no_branch state key =
    (let (k, rcon, s) = loop_256 True [1..<7] key 1 (xor_state (fst key) state);
         k = key_256_top k;
         s = lookup_round rot_tab (snd k) s;
         k = key_256_low k rcon
     in final_round (fst k) s)"

end
