(* ===== verification/Gf256.thy ===== *)
theory Gf256
  imports Prelude
begin

unbundle bit_operations_syntax

text \<open>
  The field with 256 elements of FIPS 197: bytes as polynomials modulo \<open>x^8 + x^4 + x^3 + x + 1\<close>. Addition is exclusive or.
  The algebraic laws are proved once for additive maps, which are equal when they agree on the eight powers of \<open>x\<close>.
\<close>

section \<open>Multiplication\<close>

definition xtime :: "u8 \<Rightarrow> u8" where
  "xtime a = push_bit 1 a XOR (if bit a 7 then 0x1B else 0)"

text \<open>The product of \<open>a\<close> with the part of \<open>b\<close> from bit \<open>8 - n\<close> on.\<close>

fun gmul_from :: "nat \<Rightarrow> u8 \<Rightarrow> u8 \<Rightarrow> u8" where
  "gmul_from 0 a b = 0"
| "gmul_from (Suc n) a b = (if bit b (7 - n) then a else 0) XOR gmul_from n (xtime a) b"

definition gmul :: "u8 \<Rightarrow> u8 \<Rightarrow> u8" where
  "gmul a b = gmul_from 8 a b"

lemma xtime_xor: "xtime (a XOR b) = xtime a XOR xtime b"
  by (rule bit_word_eqI) (auto simp: xtime_def bit_simps)

lemma xtime_0 [simp]: "xtime 0 = 0"
  by (simp add: xtime_def)

lemma gmul_from_xor:
  "gmul_from n (a XOR a') b = gmul_from n a b XOR gmul_from n a' b"
  "gmul_from n a (b XOR b') = gmul_from n a b XOR gmul_from n a b'"
  by (induction n arbitrary: a a') (auto simp: xtime_xor bit_xor_iff ac_simps)

lemma gmul_from_xtime: "gmul_from n (xtime a) b = xtime (gmul_from n a b)"
  by (induction n arbitrary: a) (auto simp: xtime_xor)

lemma gmul_from_0: "gmul_from n a 0 = 0" "gmul_from n 0 b = 0"
  by (induction n arbitrary: a) auto

lemmas gmul_xor = gmul_from_xor [of 8, folded gmul_def]
lemmas gmul_0 [simp] = gmul_from_0 [of 8, folded gmul_def]
lemmas gmul_xtime_left = gmul_from_xtime [of 8, folded gmul_def]

lemma gmul_eval: "gmul a b = gmul_from 8 a b"
  "gmul_from 8 a b = (if bit b 0 then a else 0) XOR gmul_from 7 (xtime a) b"
  "gmul_from 7 a b = (if bit b 1 then a else 0) XOR gmul_from 6 (xtime a) b"
  "gmul_from 6 a b = (if bit b 2 then a else 0) XOR gmul_from 5 (xtime a) b"
  "gmul_from 5 a b = (if bit b 3 then a else 0) XOR gmul_from 4 (xtime a) b"
  "gmul_from 4 a b = (if bit b 4 then a else 0) XOR gmul_from 3 (xtime a) b"
  "gmul_from 3 a b = (if bit b 5 then a else 0) XOR gmul_from 2 (xtime a) b"
  "gmul_from 2 a b = (if bit b 6 then a else 0) XOR gmul_from 1 (xtime a) b"
  "gmul_from 1 a b = (if bit b 7 then a else 0)"
  by (simp_all add: gmul_def numeral_eq_Suc split del: if_split)

section \<open>Laws\<close>

definition additive8 :: "(u8 \<Rightarrow> u8) \<Rightarrow> bool" where
  "additive8 f \<longleftrightarrow> (\<forall>x y. f (x XOR y) = f x XOR f y)"

lemma additive8_eq:
  assumes f: "additive8 f" and g: "additive8 g"
    and eq: "f 1 = g 1" "f 2 = g 2" "f 4 = g 4" "f 8 = g 8" "f 16 = g 16" "f 32 = g 32" "f 64 = g 64" "f 128 = g 128"
  shows "f x = g x"
proof -
  let ?b = "\<lambda>n v. if bit x n then v else (0 :: u8)"
  have x: "x = ?b 0 1 XOR ?b 1 2 XOR ?b 2 4 XOR ?b 3 8 XOR ?b 4 16 XOR ?b 5 32 XOR ?b 6 64 XOR ?b 7 128" (is "_ = ?x")
  proof (rule bit_word_eqI)
    fix n
    assume "n < LENGTH(8)"
    then have "n \<in> {0, 1, 2, 3, 4, 5, 6, 7}"
      by auto
    moreover have "bit (if c then v else 0) n = (c \<and> bit v n)" for c and v :: u8
      by simp
    ultimately show "bit x n = bit ?x n"
      by (elim insertE emptyE) (simp_all add: bit_xor_iff split del: if_split)
  qed
  have "f 0 = 0" "g 0 = 0"
    using f g by (metis additive8_def xor_self_eq)+
  then have "f (?b n v) = g (?b n v)" if "f v = g v" for n v
    using that by simp
  then have "f ?x = g ?x"
    using f g eq by (simp only: additive8_def)
  then show ?thesis
    by (simp only: x [symmetric])
qed

lemma gmul_one: "gmul 1 a = a"
  by (rule additive8_eq [where f = "gmul 1" and g = "\<lambda>x. x"]) (simp add: additive8_def gmul_xor, simp add: additive8_def,
      simp_all add: gmul_eval xtime_def)

lemma gmul_pow:
  "gmul a 1 = a" "gmul a 2 = xtime a" "gmul a 4 = xtime (xtime a)" "gmul a 8 = xtime (xtime (xtime a))"
  "gmul a 16 = xtime (xtime (xtime (xtime a)))" "gmul a 32 = xtime (xtime (xtime (xtime (xtime a))))"
  "gmul a 64 = xtime (xtime (xtime (xtime (xtime (xtime a)))))"
  "gmul a 128 = xtime (xtime (xtime (xtime (xtime (xtime (xtime a))))))"
  by (simp_all add: gmul_eval)

lemma xtime_pow: "xtime 1 = 2" "xtime 2 = 4" "xtime 4 = 8" "xtime 8 = 16" "xtime 16 = 32" "xtime 32 = 64" "xtime 64 = 128"
  "xtime 128 = 0x1B"
  by (simp_all add: xtime_def)

lemma xtime_8: "gmul a 0x1B = xtime (xtime (xtime (xtime (xtime (xtime (xtime (xtime a)))))))" (is "_ = ?g a")
proof (rule additive8_eq [where f = "\<lambda>a. gmul a 0x1B" and g = ?g])
  show "additive8 (\<lambda>a. gmul a 0x1B)" "additive8 ?g"
    by (simp_all add: additive8_def xtime_xor gmul_xor)
qed (simp_all add: gmul_eval xtime_def)

lemma gmul_xtime_right: "gmul a (xtime b) = xtime (gmul a b)"
  by (rule additive8_eq [where f = "\<lambda>b. gmul a (xtime b)" and g = "\<lambda>b. xtime (gmul a b)"])
    (simp_all add: additive8_def xtime_xor gmul_xor xtime_pow gmul_pow xtime_8)

lemma gmul_pow_left: "gmul 2 a = xtime a" "gmul 4 a = xtime (xtime a)" "gmul 8 a = xtime (xtime (xtime a))"
  "gmul 16 a = xtime (xtime (xtime (xtime a)))" "gmul 32 a = xtime (xtime (xtime (xtime (xtime a))))"
  "gmul 64 a = xtime (xtime (xtime (xtime (xtime (xtime a)))))"
  "gmul 128 a = xtime (xtime (xtime (xtime (xtime (xtime (xtime a))))))"
  by (metis gmul_one gmul_xtime_left xtime_pow(1-7))+

lemma gmul_comm: "gmul a b = gmul b a"
  by (rule additive8_eq [where f = "gmul a" and g = "\<lambda>b. gmul b a"])
    (simp_all add: additive8_def gmul_xor gmul_pow gmul_pow_left gmul_one)

lemma gmul_assoc: "gmul (gmul a b) c = gmul a (gmul b c)"
  by (rule additive8_eq [where f = "gmul (gmul a b)" and g = "\<lambda>c. gmul a (gmul b c)"])
    (simp_all add: additive8_def gmul_xor gmul_pow gmul_xtime_right)

section \<open>Inverses\<close>

definition all_bytes :: "u8 list" where
  "all_bytes = map of_nat [0..<256]"

lemma set_all_bytes: "x \<in> set all_bytes"
proof -
  have "unat x < 256" "x = of_nat (unat x)"
    using unsigned_less [of x] by simp_all
  then show ?thesis
    unfolding all_bytes_def by (metis atLeastLessThan_iff image_eqI list.set_map set_upt zero_le)
qed

text \<open>The multiplicative inverse, and 0 for 0.\<close>

definition ginv :: "u8 \<Rightarrow> u8" where
  "ginv x = (case find (\<lambda>y. gmul x y = 1) all_bytes of Some y \<Rightarrow> y | None \<Rightarrow> 0)"

lemma ginv_eqI:
  assumes "gmul x y = 1"
  shows "ginv x = y"
proof -
  have "y' = y" if "gmul x y' = 1" for y'
    using that assms by (metis gmul_assoc gmul_comm gmul_one)
  moreover have "find (\<lambda>y. gmul x y = 1) all_bytes \<noteq> None"
    using assms set_all_bytes by (auto simp: find_None_iff)
  then obtain y' where "find (\<lambda>y. gmul x y = 1) all_bytes = Some y'"
    by blast
  moreover from this have "gmul x y' = 1"
    by (auto simp: find_Some_iff)
  ultimately show ?thesis
    by (simp add: ginv_def)
qed

lemma ginv_0 [simp]: "ginv 0 = 0"
  by (simp add: ginv_def find_None_iff split: option.split) (auto simp: find_Some_iff)

text \<open>Lists of pairs of inverses, for the evaluation of the S-box.\<close>

definition inverses :: "u8 list \<Rightarrow> u8 list \<Rightarrow> bool" where
  "inverses = list_all2 (\<lambda>x y. gmul x y = 1)"

lemma inverses_map: "inverses xs ys \<Longrightarrow> map ginv xs = ys"
  unfolding inverses_def by (induction rule: list_all2_induct) (simp_all add: ginv_eqI)

lemma inverses_0:
  "inverses [1, 2, 3, 4, 5, 6, 7, 8, 9, 10, 11, 12, 13, 14, 15, 16, 17, 18, 19, 20, 21, 22, 23, 24, 25, 26,
    27, 28, 29, 30, 31, 32, 33, 34, 35, 36, 37, 38, 39, 40, 41, 42, 43, 44, 45, 46, 47, 48, 49, 50, 51, 52,
    53, 54, 55, 56, 57, 58, 59, 60, 61, 62, 63]
    [1, 141, 246, 203, 82, 123, 209, 232, 79, 41, 192, 176, 225, 229, 199, 116, 180, 170, 75, 153, 43, 96, 95, 88, 63, 253,
    204, 255, 64, 238, 178, 58, 110, 90, 241, 85, 77, 168, 201, 193, 10, 152, 21, 48, 68, 162, 194, 44, 69, 146, 108, 243,
    57, 102, 66, 242, 53, 32, 111, 119, 187, 89, 25]"
  by (simp add: inverses_def gmul_eval xtime_def)

lemma inverses_1:
  "inverses [64, 65, 66, 67, 68, 69, 70, 71, 72, 73, 74, 75, 76, 77, 78, 79, 80, 81, 82, 83, 84, 85, 86, 87, 88, 89,
    90, 91, 92, 93, 94, 95, 96, 97, 98, 99, 100, 101, 102, 103, 104, 105, 106, 107, 108, 109, 110, 111, 112, 113, 114, 115,
    116, 117, 118, 119, 120, 121, 122, 123, 124, 125, 126, 127]
    [29, 254, 55, 103, 45, 49, 245, 105, 167, 100, 171, 19, 84, 37, 233, 9, 237, 92, 5, 202, 76, 36, 135, 191, 24, 62,
    34, 240, 81, 236, 97, 23, 22, 94, 175, 211, 73, 166, 54, 67, 244, 71, 145, 223, 51, 147, 33, 59, 121, 183, 151, 133,
    16, 181, 186, 60, 182, 112, 208, 6, 161, 250, 129, 130]"
  by (simp add: inverses_def gmul_eval xtime_def)

lemma inverses_2:
  "inverses [128, 129, 130, 131, 132, 133, 134, 135, 136, 137, 138, 139, 140, 141, 142, 143, 144, 145, 146, 147, 148, 149, 150, 151, 152, 153,
    154, 155, 156, 157, 158, 159, 160, 161, 162, 163, 164, 165, 166, 167, 168, 169, 170, 171, 172, 173, 174, 175, 176, 177, 178, 179,
    180, 181, 182, 183, 184, 185, 186, 187, 188, 189, 190, 191]
    [131, 126, 127, 128, 150, 115, 190, 86, 155, 158, 149, 217, 247, 2, 185, 164, 222, 106, 50, 109, 216, 138, 132, 114, 42, 20,
    159, 136, 249, 220, 137, 154, 251, 124, 46, 195, 143, 184, 101, 72, 38, 200, 18, 74, 206, 231, 210, 98, 12, 224, 31, 239,
    17, 117, 120, 113, 165, 142, 118, 61, 189, 188, 134, 87]"
  by (simp add: inverses_def gmul_eval xtime_def)

lemma inverses_3:
  "inverses [192, 193, 194, 195, 196, 197, 198, 199, 200, 201, 202, 203, 204, 205, 206, 207, 208, 209, 210, 211, 212, 213, 214, 215, 216, 217,
    218, 219, 220, 221, 222, 223, 224, 225, 226, 227, 228, 229, 230, 231, 232, 233, 234, 235, 236, 237, 238, 239, 240, 241, 242, 243,
    244, 245, 246, 247, 248, 249, 250, 251, 252, 253, 254, 255]
    [11, 40, 47, 163, 218, 212, 228, 15, 169, 39, 83, 4, 27, 252, 172, 230, 122, 7, 174, 99, 197, 219, 226, 234, 148, 139,
    196, 213, 157, 248, 144, 107, 177, 13, 214, 235, 198, 14, 207, 173, 8, 78, 215, 227, 93, 80, 30, 179, 91, 35, 56, 52,
    104, 70, 3, 140, 221, 156, 125, 160, 205, 26, 65, 28]"
  by (simp add: inverses_def gmul_eval xtime_def)

lemma all_bytes_eq: "all_bytes = [0, 1, 2, 3, 4, 5, 6, 7, 8, 9, 10, 11, 12, 13, 14, 15, 16, 17, 18, 19, 20, 21, 22, 23, 24, 25, 26, 27, 28, 29,
    30, 31, 32, 33, 34, 35, 36, 37, 38, 39, 40, 41, 42, 43, 44, 45, 46, 47, 48, 49, 50, 51, 52, 53, 54, 55, 56, 57, 58, 59,
    60, 61, 62, 63, 64, 65, 66, 67, 68, 69, 70, 71, 72, 73, 74, 75, 76, 77, 78, 79, 80, 81, 82, 83, 84, 85, 86, 87, 88, 89,
    90, 91, 92, 93, 94, 95, 96, 97, 98, 99, 100, 101, 102, 103, 104, 105, 106, 107, 108, 109, 110, 111, 112, 113, 114, 115, 116, 117, 118, 119,
    120, 121, 122, 123, 124, 125, 126, 127, 128, 129, 130, 131, 132, 133, 134, 135, 136, 137, 138, 139, 140, 141, 142, 143, 144, 145, 146, 147, 148, 149,
    150, 151, 152, 153, 154, 155, 156, 157, 158, 159, 160, 161, 162, 163, 164, 165, 166, 167, 168, 169, 170, 171, 172, 173, 174, 175, 176, 177, 178, 179,
    180, 181, 182, 183, 184, 185, 186, 187, 188, 189, 190, 191, 192, 193, 194, 195, 196, 197, 198, 199, 200, 201, 202, 203, 204, 205, 206, 207, 208, 209,
    210, 211, 212, 213, 214, 215, 216, 217, 218, 219, 220, 221, 222, 223, 224, 225, 226, 227, 228, 229, 230, 231, 232, 233, 234, 235, 236, 237, 238, 239,
    240, 241, 242, 243, 244, 245, 246, 247, 248, 249, 250, 251, 252, 253, 254, 255]"
  by (simp add: all_bytes_def upt_rec)

text \<open>The inverses of all bytes.\<close>

lemma map_ginv: "map ginv all_bytes = [0, 1, 141, 246, 203, 82, 123, 209, 232, 79, 41, 192, 176, 225, 229, 199, 116, 180, 170, 75, 153, 43, 96, 95, 88, 63,
    253, 204, 255, 64, 238, 178, 58, 110, 90, 241, 85, 77, 168, 201, 193, 10, 152, 21, 48, 68, 162, 194, 44, 69, 146, 108,
    243, 57, 102, 66, 242, 53, 32, 111, 119, 187, 89, 25, 29, 254, 55, 103, 45, 49, 245, 105, 167, 100, 171, 19, 84, 37,
    233, 9, 237, 92, 5, 202, 76, 36, 135, 191, 24, 62, 34, 240, 81, 236, 97, 23, 22, 94, 175, 211, 73, 166, 54, 67,
    244, 71, 145, 223, 51, 147, 33, 59, 121, 183, 151, 133, 16, 181, 186, 60, 182, 112, 208, 6, 161, 250, 129, 130, 131, 126,
    127, 128, 150, 115, 190, 86, 155, 158, 149, 217, 247, 2, 185, 164, 222, 106, 50, 109, 216, 138, 132, 114, 42, 20, 159, 136,
    249, 220, 137, 154, 251, 124, 46, 195, 143, 184, 101, 72, 38, 200, 18, 74, 206, 231, 210, 98, 12, 224, 31, 239, 17, 117,
    120, 113, 165, 142, 118, 61, 189, 188, 134, 87, 11, 40, 47, 163, 218, 212, 228, 15, 169, 39, 83, 4, 27, 252, 172, 230,
    122, 7, 174, 99, 197, 219, 226, 234, 148, 139, 196, 213, 157, 248, 144, 107, 177, 13, 214, 235, 198, 14, 207, 173, 8, 78,
    215, 227, 93, 80, 30, 179, 91, 35, 56, 52, 104, 70, 3, 140, 221, 156, 125, 160, 205, 26, 65, 28]"
  using inverses_map [OF inverses_0] inverses_map [OF inverses_1] inverses_map [OF inverses_2] inverses_map [OF inverses_3]
  by (simp add: all_bytes_eq)

end
