(* ===== verification/Cipher_Ref.thy ===== *)
theory Cipher_Ref
  imports Gf256
begin

unbundle bit_operations_syntax

text \<open>
  The block cipher of FIPS 197 as the standard defines it, on a state of four columns of four bytes: the S-box from
  inversion and the affine map, the four transformations, the key schedule and the rounds.
\<close>

type_synonym column = "u8 \<times> u8 \<times> u8 \<times> u8"
type_synonym block = "column \<times> column \<times> column \<times> column"

section \<open>The S-box\<close>

definition rotl8 :: "nat \<Rightarrow> u8 \<Rightarrow> u8" where
  "rotl8 n b = push_bit n b OR drop_bit (8 - n) b"

definition affine :: "u8 \<Rightarrow> u8" where
  "affine b = b XOR rotl8 1 b XOR rotl8 2 b XOR rotl8 3 b XOR rotl8 4 b XOR 0x63"

definition sbox :: "u8 \<Rightarrow> u8" where
  "sbox x = affine (ginv x)"

section \<open>Transformations\<close>

fun xor_col :: "column \<Rightarrow> column \<Rightarrow> column" where
  "xor_col (a0, a1, a2, a3) (b0, b1, b2, b3) = (a0 XOR b0, a1 XOR b1, a2 XOR b2, a3 XOR b3)"

fun sub_word :: "column \<Rightarrow> column" where
  "sub_word (a0, a1, a2, a3) = (sbox a0, sbox a1, sbox a2, sbox a3)"

fun rot_word :: "column \<Rightarrow> column" where
  "rot_word (a0, a1, a2, a3) = (a1, a2, a3, a0)"

fun sub_bytes :: "block \<Rightarrow> block" where
  "sub_bytes (c0, c1, c2, c3) = (sub_word c0, sub_word c1, sub_word c2, sub_word c3)"

text \<open>Row \<open>r\<close> of the state is shifted to the left by \<open>r\<close> columns.\<close>

fun shift_rows :: "block \<Rightarrow> block" where
  "shift_rows ((a0, a1, a2, a3), (b0, b1, b2, b3), (c0, c1, c2, c3), (d0, d1, d2, d3)) =
    ((a0, b1, c2, d3), (b0, c1, d2, a3), (c0, d1, a2, b3), (d0, a1, b2, c3))"

fun mix_column :: "column \<Rightarrow> column" where
  "mix_column (s0, s1, s2, s3) =
    (gmul 2 s0 XOR gmul 3 s1 XOR s2 XOR s3, s0 XOR gmul 2 s1 XOR gmul 3 s2 XOR s3,
     s0 XOR s1 XOR gmul 2 s2 XOR gmul 3 s3, gmul 3 s0 XOR s1 XOR s2 XOR gmul 2 s3)"

fun mix_columns :: "block \<Rightarrow> block" where
  "mix_columns (c0, c1, c2, c3) = (mix_column c0, mix_column c1, mix_column c2, mix_column c3)"

fun add_round_key :: "block \<Rightarrow> block \<Rightarrow> block" where
  "add_round_key (k0, k1, k2, k3) (c0, c1, c2, c3) = (xor_col c0 k0, xor_col c1 k1, xor_col c2 k2, xor_col c3 k3)"

section \<open>Key schedule\<close>

text \<open>\<open>Rcon[j]\<close> is \<open>x^(j - 1)\<close>.\<close>

definition round_constant :: "nat \<Rightarrow> u8" where
  "round_constant j = (xtime ^^ (j - 1)) 1"

definition next_word :: "nat \<Rightarrow> column list \<Rightarrow> column" where
  "next_word Nk w =
    (let i = length w; temp = last w;
         temp = (if i mod Nk = 0 then xor_col (sub_word (rot_word temp)) (round_constant (i div Nk), 0, 0, 0)
                 else if Nk > 6 \<and> i mod Nk = 4 then sub_word temp else temp)
     in xor_col (w ! (i - Nk)) temp)"

fun key_schedule :: "nat \<Rightarrow> column list \<Rightarrow> column list" where
  "key_schedule 0 key = key"
| "key_schedule (Suc n) key = (let w = key_schedule n key in w @ [next_word (length key) w])"

section \<open>The cipher\<close>

definition round_key :: "column list \<Rightarrow> nat \<Rightarrow> block" where
  "round_key w r = (w ! (4 * r), w ! (4 * r + 1), w ! (4 * r + 2), w ! (4 * r + 3))"

fun cipher_rounds :: "nat \<Rightarrow> column list \<Rightarrow> block \<Rightarrow> block" where
  "cipher_rounds 0 w s = add_round_key (round_key w 0) s"
| "cipher_rounds (Suc r) w s =
    add_round_key (round_key w (Suc r)) (mix_columns (shift_rows (sub_bytes (cipher_rounds r w s))))"

definition cipher :: "column list \<Rightarrow> block \<Rightarrow> block" where
  "cipher key s =
    (let Nk = length key; Nr = Nk + 6; w = key_schedule (4 * (Nr + 1) - Nk) key
     in add_round_key (round_key w Nr) (shift_rows (sub_bytes (cipher_rounds (Nr - 1) w s))))"

section \<open>The words of the key schedule\<close>

lemma length_schedule [simp]: "length (key_schedule n key) = length key + n"
  by (induction n) (simp_all add: Let_def)

lemma schedule_prefix: "i < length key + n \<Longrightarrow> key_schedule (n + m) key ! i = key_schedule n key ! i"
  by (induction m) (simp_all add: Let_def nth_append)

lemma schedule_key: "i < length key \<Longrightarrow> key_schedule n key ! i = key ! i"
  using schedule_prefix [of i key 0 n] by simp

text \<open>The recurrence of the standard.\<close>

lemma schedule_word:
  assumes "0 < length key" and "length key \<le> i" and "i < length key + n"
  defines "w \<equiv> \<lambda>i. key_schedule n key ! i"
  shows "w i = xor_col (w (i - length key))
    (if i mod length key = 0 then xor_col (sub_word (rot_word (w (i - 1)))) (round_constant (i div length key), 0, 0, 0)
     else if length key > 6 \<and> i mod length key = 4 then sub_word (w (i - 1)) else w (i - 1))"
proof -
  obtain k where k: "i = length key + k" "k < n"
    using assms(2,3) by (metis le_Suc_ex nat_add_left_cancel_less)
  have w: "w j = key_schedule k key ! j" if "j < i" for j
    using schedule_prefix [of j key k "n - k"] that k by (simp add: w_def)
  have "w i = key_schedule (Suc k) key ! i"
    using schedule_prefix [of i key "Suc k" "n - Suc k"] k by (simp add: w_def)
  also have "\<dots> = next_word (length key) (key_schedule k key)"
    using k by (simp add: Let_def nth_append)
  moreover have "last (key_schedule k key) = w (i - 1)" "key_schedule k key ! (i - length key) = w (i - length key)"
    using assms(1) k w [of "i - 1"] w [of "i - length key"]
    by (simp_all add: last_conv_nth flip: length_greater_0_conv)
  ultimately show ?thesis
    using k by (simp add: next_word_def Let_def)
qed

end
