(* ===== verification/Cipher_Props.thy ===== *)
theory Cipher_Props
  imports Cipher Cipher_Ref
begin

unbundle bit_operations_syntax

text \<open>
  The software cipher computes FIPS 197: the table holds the S-box and its multiples, a lookup round is the composition
  of the four transformations, and the key words of the loops are those of the key schedule.
\<close>

section \<open>Bytes of words\<close>

lemma bytes_of_xor [simp]: "bytes_of (x XOR y) = xor_col (bytes_of x) (bytes_of y)"
  by (simp add: bytes_of_def) (intro conjI; rule bit_word_eqI; simp add: bit_simps)

lemma bytes_of_rot:
  assumes "bytes_of x = (b0, b1, b2, b3)"
  shows "bytes_of (rot_up_8 x) = (b3, b0, b1, b2)" and "bytes_of (rot_16 x) = (b2, b3, b0, b1)"
    and "bytes_of (rot_down_8 x) = (b1, b2, b3, b0)"
  using assms by (auto simp: bytes_of_def rot_up_8_def rot_16_def rot_down_8_def intro!: bit_word_eqI simp: bit_simps)

lemma bytes_of_mask:
  assumes "bytes_of x = (b0, b1, b2, b3)"
  shows "bytes_of (x AND 0xFF) = (b0, 0, 0, 0)" and "bytes_of (x AND 0xFF00) = (0, b1, 0, 0)"
    and "bytes_of (x AND 0xFF0000) = (0, 0, b2, 0)" and "bytes_of (x AND 0xFF000000) = (0, 0, 0, b3)"
proof -
  have m: "(0xFF :: u32) = mask 8" "(0xFF00 :: u32) = push_bit 8 (mask 8)" "(0xFF0000 :: u32) = push_bit 16 (mask 8)"
    "(0xFF000000 :: u32) = push_bit 24 (mask 8)"
    by (simp_all add: mask_eq_exp_minus_1)
  show "bytes_of (x AND 0xFF) = (b0, 0, 0, 0)" "bytes_of (x AND 0xFF00) = (0, b1, 0, 0)"
    "bytes_of (x AND 0xFF0000) = (0, 0, b2, 0)" "bytes_of (x AND 0xFF000000) = (0, 0, 0, b3)"
    unfolding m using assms by (auto simp: bytes_of_def bit_simps intro!: bit_word_eqI)
qed

section \<open>The table\<close>

definition table_entry :: "u8 \<Rightarrow> u8 list" where
  "table_entry s = [s, s, gmul 3 s, gmul 2 s]"

lemma gmul_3: "gmul 3 s = xtime s XOR s"
  using gmul_xor(1) [of 2 1 s] by (simp add: gmul_pow_left gmul_one)

lemma table_entries: "table_0 = concat (map table_entry (map sbox all_bytes))"
proof -
  have sbox: "map sbox all_bytes = map affine (map ginv all_bytes)"
    by (simp add: sbox_def)
  have "concat (map table_entry (map affine (map ginv all_bytes))) = table_0"
    unfolding map_ginv by (simp add: table_0_def table_entry_def affine_def rotl8_def gmul_pow_left gmul_3 xtime_def)
  then show ?thesis
    unfolding sbox ..
qed

lemma nth_concat_4:
  assumes "i < n" and "j < 4" and "\<And>i. length (f i) = 4"
  shows "concat (map f [0..<n]) ! (i * 4 + j) = f i ! j"
  using assms(1)
proof (induction n)
  case (Suc n)
  have len: "length (concat (map f [0..<n])) = n * 4"
    using assms(3) by (simp add: length_concat comp_def sum_list_triv)
  show ?case
  proof (cases "i = n")
    case True
    then show ?thesis
      using len by (simp add: nth_append)
  next
    case False
    then have "i < n"
      using Suc.prems by simp
    moreover from this have "i * 4 + j < n * 4"
      using assms(2) by linarith
    ultimately show ?thesis
      using Suc.IH len by (simp add: nth_append)
  qed
qed simp

lemma table_nth:
  assumes "j < 4"
  shows "table_0 ! (unat x * 4 + j) = table_entry (sbox x) ! j"
proof -
  have "unat x < 256" "of_nat (unat x) = x"
    using unsigned_less [of x] by simp_all
  then show ?thesis
    using nth_concat_4 [of "unat x" 256 j "\<lambda>i. table_entry (sbox (of_nat i))"] assms
    by (simp add: table_entries all_bytes_def comp_def table_entry_def)
qed

lemma tab_sbox: "tab x = sbox x"
  using table_nth [of 0 x] by (simp add: tab_def table_entry_def)

lemma bytes_of_t0: "bytes_of (t0 x) = (sbox x, sbox x, gmul 3 (sbox x), gmul 2 (sbox x))"
  using table_nth [of 0 x] table_nth [of 1 x] table_nth [of 2 x] table_nth [of 3 x]
  by (simp add: t0_def table_entry_def)

lemma bytes_of_sub_byte: "bytes_of (sub_byte w) = sub_word (bytes_of w)"
  by (cases "bytes_of w") (simp add: sub_byte_def tab_sbox)

section \<open>Rounds\<close>

fun block_of :: "words4 \<Rightarrow> block" where
  "block_of (a, b, c, d) = (bytes_of a, bytes_of b, bytes_of c, bytes_of d)"

lemma xor_state_block: "block_of (xor_state k s) = add_round_key (block_of k) (block_of s)"
  by (cases k; cases s) simp

lemma lookup_round_block:
  "block_of (lookup_round rot_tab k s) = add_round_key (block_of k) (mix_columns (shift_rows (sub_bytes (block_of s))))"
proof -
  obtain s0 s1 s2 s3 where s: "s = (s0, s1, s2, s3)"
    by (metis prod_cases4)
  obtain a0 a1 a2 a3 where a: "bytes_of s0 = (a0, a1, a2, a3)"
    by (metis prod_cases4)
  obtain b0 b1 b2 b3 where b: "bytes_of s1 = (b0, b1, b2, b3)"
    by (metis prod_cases4)
  obtain c0 c1 c2 c3 where c: "bytes_of s2 = (c0, c1, c2, c3)"
    by (metis prod_cases4)
  obtain d0 d1 d2 d3 where d: "bytes_of s3 = (d0, d1, d2, d3)"
    by (metis prod_cases4)
  obtain k0 k1 k2 k3 where k: "k = (k0, k1, k2, k3)"
    by (metis prod_cases4)
  note rots = bytes_of_rot [OF bytes_of_t0]
  show ?thesis
    by (cases "bytes_of k0"; cases "bytes_of k1"; cases "bytes_of k2"; cases "bytes_of k3")
      (simp add: s k table_lookup_def a b c d rots bytes_of_t0 Let_def ac_simps)
qed

lemma final_mask_False: "final_mask False = rot_tab"
  by (auto simp: fun_eq_iff)

lemma last_round_block:
  "block_of (lookup_round (final_mask True) k s) = add_round_key (block_of k) (shift_rows (sub_bytes (block_of s)))"
  "block_of (final_round k s) = add_round_key (block_of k) (shift_rows (sub_bytes (block_of s)))"
proof -
  obtain s0 s1 s2 s3 where s: "s = (s0, s1, s2, s3)"
    by (metis prod_cases4)
  obtain a0 a1 a2 a3 where a: "bytes_of s0 = (a0, a1, a2, a3)"
    by (metis prod_cases4)
  obtain b0 b1 b2 b3 where b: "bytes_of s1 = (b0, b1, b2, b3)"
    by (metis prod_cases4)
  obtain c0 c1 c2 c3 where c: "bytes_of s2 = (c0, c1, c2, c3)"
    by (metis prod_cases4)
  obtain d0 d1 d2 d3 where d: "bytes_of s3 = (d0, d1, d2, d3)"
    by (metis prod_cases4)
  obtain k0 k1 k2 k3 where k: "k = (k0, k1, k2, k3)"
    by (metis prod_cases4)
  note masks = bytes_of_mask [OF bytes_of_t0] bytes_of_mask [OF bytes_of_rot(2) [OF bytes_of_t0]]
    bytes_of_mask [OF bytes_of_rot(3) [OF bytes_of_t0]]
  show "block_of (lookup_round (final_mask True) k s) = add_round_key (block_of k) (shift_rows (sub_bytes (block_of s)))"
    by (cases "bytes_of k0"; cases "bytes_of k1"; cases "bytes_of k2"; cases "bytes_of k3")
      (simp add: s k table_lookup_def a b c d masks Let_def ac_simps)
  show "block_of (final_round k s) = add_round_key (block_of k) (shift_rows (sub_bytes (block_of s)))"
    by (cases "bytes_of k0"; cases "bytes_of k1"; cases "bytes_of k2"; cases "bytes_of k3")
      (simp add: s k a b c d xor_bytes_def tab_sbox ac_simps)
qed

section \<open>Key words\<close>

lemma next_rcon_xtime: "next_rcon r = xtime r"
proof (rule bit_word_eqI)
  fix n
  assume "n < LENGTH(8)"
  then have n: "n \<in> {0, 1, 2, 3, 4, 5, 6, 7}"
    by auto
  have "bit (sint r) m = bit r (min 7 m)" for m
    using bit_imp_le_length [of r m] by (cases "m = 7") (auto simp: bit_sint_iff min_def)
  then have j: "bit (push_bit 1 (sint r)) m = (m \<noteq> 0 \<and> bit r (min 7 (m - 1)))" for m
    by (simp only: bit_push_bit_iff_int) auto
  have p: "bit (push_bit 1 r) m = (m \<noteq> 0 \<and> m < 8 \<and> bit r (m - 1))" for m
    by (auto simp only: bit_push_bit_iff possible_bit_word) simp_all
  show "bit (next_rcon r) n = bit (xtime r) n"
    using n unfolding next_rcon_def xtime_def Let_def bit_xor_iff p
    by (elim insertE emptyE) (simp_all only: bit_word_of_int_iff bit_xor_iff bit_and_iff bit_drop_bit_eq comp_def j, simp_all)
qed

lemma key_temp_bytes: "bytes_of (key_temp k r) = xor_col (sub_word (rot_word (bytes_of k))) (r, 0, 0, 0)"
  by (cases "bytes_of k") (simp add: key_temp_def Let_def bytes_of_sub_byte bytes_of_rot bytes_of_ucast)

lemma round_constant_simps [simp]: "round_constant (Suc 0) = 1" "next_rcon (round_constant (Suc i)) = round_constant (Suc (Suc i))"
  by (simp_all add: round_constant_def next_rcon_xtime)

lemma xor_col_comm: "xor_col a b = xor_col b a"
  by (cases a; cases b) (simp add: ac_simps)

section \<open>128 bit keys\<close>

fun key_cols4 :: "words4 \<Rightarrow> column list" where
  "key_cols4 (k0, k1, k2, k3) = [bytes_of k0, bytes_of k1, bytes_of k2, bytes_of k3]"

definition schedule4 :: "words4 \<Rightarrow> column list" where
  "schedule4 key = key_schedule 40 (key_cols4 key)"

lemma length_cols4 [simp]: "length (key_cols4 key) = 4"
  by (cases key) simp

lemma schedule4_start: "round_key (schedule4 key) 0 = block_of key"
  by (cases key) (simp add: round_key_def schedule4_def schedule_key)

lemma schedule4_word:
  fixes key :: words4
  assumes "r < 10"
  defines "w \<equiv> \<lambda>i. schedule4 key ! i"
  shows "w (4 * r + 4) = xor_col (w (4 * r)) (xor_col (sub_word (rot_word (w (4 * r + 3)))) (round_constant (Suc r), 0, 0, 0))"
    and "w (4 * r + 5) = xor_col (w (4 * r + 1)) (w (4 * r + 4))"
    and "w (4 * r + 6) = xor_col (w (4 * r + 2)) (w (4 * r + 5))"
    and "w (4 * r + 7) = xor_col (w (4 * r + 3)) (w (4 * r + 6))"
proof -
  have m: "(4 * r + 4) mod 4 = 0" "(4 * r + 4) div 4 = Suc r" "(4 * r + 5) mod 4 = 1" "(4 * r + 6) mod 4 = 2" "(4 * r + 7) mod 4 = 3"
    by presburger+
  note s = schedule_word [of "key_cols4 key" _ 40, folded schedule4_def, unfolded length_cols4]
  show "w (4 * r + 4) = xor_col (w (4 * r)) (xor_col (sub_word (rot_word (w (4 * r + 3)))) (round_constant (Suc r), 0, 0, 0))"
    "w (4 * r + 5) = xor_col (w (4 * r + 1)) (w (4 * r + 4))" "w (4 * r + 6) = xor_col (w (4 * r + 2)) (w (4 * r + 5))"
    "w (4 * r + 7) = xor_col (w (4 * r + 3)) (w (4 * r + 6))"
    using s [of "4 * r + 4"] s [of "4 * r + 5"] s [of "4 * r + 6"] s [of "4 * r + 7"] assms(1) m by (simp_all add: w_def add.commute)
qed

lemma key_128_schedule:
  assumes "block_of k = round_key (schedule4 key) r" and "r < 10"
  shows "block_of (key_128 k (round_constant (Suc r))) = round_key (schedule4 key) (Suc r)"
  using assms(1) schedule4_word [OF assms(2), of key]
  by (cases k) (simp add: round_key_def key_temp_bytes Let_def xor_col_comm add.commute)

text \<open>What holds of the variables of the loop after round \<open>r\<close>.\<close>

fun after_round4 :: "words4 \<Rightarrow> block \<Rightarrow> nat \<Rightarrow> words4 \<times> u8 \<times> words4 \<Rightarrow> bool" where
  "after_round4 key b r (k, rcon, s) \<longleftrightarrow>
    block_of k = round_key (schedule4 key) r \<and> rcon = round_constant (Suc r) \<and>
    block_of s = cipher_rounds r (schedule4 key) b"

lemma loop_128_no_branch_rounds:
  "after_round4 key b r (k, rcon, s) \<Longrightarrow> r + length is \<le> 10 \<Longrightarrow>
    after_round4 key b (r + length is) (loop_128_no_branch is k rcon s)"
proof (induction "is" arbitrary: k r rcon s)
  case (Cons i "is")
  show ?case
    using Cons.IH [of "Suc r" "key_128 k rcon" "next_rcon rcon" "lookup_round rot_tab (key_128 k rcon) s"] Cons.prems
    by (simp add: Let_def key_128_schedule lookup_round_block)
qed simp

lemma loop_128_append:
  "nr \<notin> set is \<Longrightarrow> loop_128 nr (is @ js) k rcon s =
    (case loop_128_no_branch is k rcon s of (k', rcon', s') \<Rightarrow> loop_128 nr js k' rcon' s')"
  by (induction "is" arbitrary: k rcon s) (simp_all add: final_mask_False Let_def)

lemma encrypt_128_rounds:
  "after_round4 key (block_of state) 9 (loop_128_no_branch [1..<10] key 1 (xor_state key state))"
  using loop_128_no_branch_rounds [of key "block_of state" 0 key 1 "xor_state key state" "[1..<10]"]
  by (simp del: upt_rec_numeral upt_Suc add: schedule4_start xor_state_block)

lemma encrypt_128_cipher:
  "block_of (encrypt_128_key_expand_inline_no_branch state key) = cipher (key_cols4 key) (block_of state)"
  "block_of (encrypt_128_key_expand_inline state key) = cipher (key_cols4 key) (block_of state)"
proof -
  obtain k s where ks: "loop_128_no_branch [1..<10] key 1 (xor_state key state) = (k, round_constant 10, s)"
    "block_of k = round_key (schedule4 key) 9" "block_of s = cipher_rounds 9 (schedule4 key) (block_of state)"
    using encrypt_128_rounds [of key state]
    by (cases "loop_128_no_branch [1..<10] key 1 (xor_state key state)") simp
  have k: "block_of (key_128 k (round_constant 10)) = round_key (schedule4 key) 10"
    using key_128_schedule [OF ks(2)] by simp
  have c: "cipher (key_cols4 key) (block_of state) =
      add_round_key (round_key (schedule4 key) 10) (shift_rows (sub_bytes (block_of s)))"
    by (simp add: cipher_def schedule4_def ks(3) Let_def)
  show "block_of (encrypt_128_key_expand_inline_no_branch state key) = cipher (key_cols4 key) (block_of state)"
    unfolding encrypt_128_key_expand_inline_no_branch_def Let_def ks(1) c by (simp add: last_round_block k)
  have split: "[1..<10 + 1] = [1..<10] @ [10 :: nat]"
    using upt_Suc_append [of 1 10] by simp
  show "block_of (encrypt_128_key_expand_inline state key) = cipher (key_cols4 key) (block_of state)"
    unfolding encrypt_128_key_expand_inline_def Let_def split
    by (subst loop_128_append) (simp_all only: ks(1) c, simp_all add: last_round_block k Let_def)
qed

section \<open>192 bit keys\<close>

fun key_cols6 :: "words6 \<Rightarrow> column list" where
  "key_cols6 (k0, k1, k2, k3, k4, k5) = [bytes_of k0, bytes_of k1, bytes_of k2, bytes_of k3, bytes_of k4, bytes_of k5]"

definition schedule6 :: "words6 \<Rightarrow> column list" where
  "schedule6 key = key_schedule 46 (key_cols6 key)"

lemma length_cols6 [simp]: "length (key_cols6 key) = 6"
  by (cases key) simp

lemmas schedule6_word = schedule_word [of "key_cols6 key" _ 46 for key, folded schedule6_def, unfolded length_cols6]

lemma schedule6_half:
  fixes key :: words6
  assumes "12 * j + 11 < 52"
  defines "w \<equiv> \<lambda>i. schedule6 key ! (12 * j + i)"
  shows "w 6 = xor_col (w 0) (xor_col (sub_word (rot_word (w 5))) (round_constant (Suc (2 * j)), 0, 0, 0))"
    "w 7 = xor_col (w 1) (w 6)" "w 8 = xor_col (w 2) (w 7)" "w 9 = xor_col (w 3) (w 8)"
    "w 10 = xor_col (w 4) (w 9)" "w 11 = xor_col (w 5) (w 10)"
proof -
  have m: "(12 * j + 6) mod 6 = 0" "(12 * j + 6) div 6 = Suc (2 * j)" "(12 * j + 7) mod 6 = 1"
    "(12 * j + 8) mod 6 = 2" "(12 * j + 9) mod 6 = 3" "(12 * j + 10) mod 6 = 4" "(12 * j + 11) mod 6 = 5"
    by presburger+
  show "w 6 = xor_col (w 0) (xor_col (sub_word (rot_word (w 5))) (round_constant (Suc (2 * j)), 0, 0, 0))"
    "w 7 = xor_col (w 1) (w 6)" "w 8 = xor_col (w 2) (w 7)" "w 9 = xor_col (w 3) (w 8)"
    "w 10 = xor_col (w 4) (w 9)" "w 11 = xor_col (w 5) (w 10)"
    using schedule6_word [of "12 * j + 6" key] schedule6_word [of "12 * j + 7" key] schedule6_word [of "12 * j + 8" key]
      schedule6_word [of "12 * j + 9" key] schedule6_word [of "12 * j + 10" key] schedule6_word [of "12 * j + 11" key]
      assms(1) m
    by (simp_all add: w_def add.commute)
qed

lemma schedule6_four:
  fixes key :: words6
  assumes "12 * j + 15 < 52"
  defines "w \<equiv> \<lambda>i. schedule6 key ! (12 * j + i)"
  shows "w 12 = xor_col (w 6) (xor_col (sub_word (rot_word (w 11))) (round_constant (Suc (Suc (2 * j))), 0, 0, 0))"
    "w 13 = xor_col (w 7) (w 12)" "w 14 = xor_col (w 8) (w 13)" "w 15 = xor_col (w 9) (w 14)"
proof -
  have m: "(12 * j + 12) mod 6 = 0" "(12 * j + 12) div 6 = Suc (Suc (2 * j))" "(12 * j + 13) mod 6 = 1"
    "(12 * j + 14) mod 6 = 2" "(12 * j + 15) mod 6 = 3"
    by presburger+
  show "w 12 = xor_col (w 6) (xor_col (sub_word (rot_word (w 11))) (round_constant (Suc (Suc (2 * j))), 0, 0, 0))"
    "w 13 = xor_col (w 7) (w 12)" "w 14 = xor_col (w 8) (w 13)" "w 15 = xor_col (w 9) (w 14)"
    using schedule6_word [of "12 * j + 12" key] schedule6_word [of "12 * j + 13" key]
      schedule6_word [of "12 * j + 14" key] schedule6_word [of "12 * j + 15" key] assms(1) m
    by (simp_all add: w_def add.commute)
qed

text \<open>The key words and the state at the label, and behind an iteration, when \<open>3 * j\<close> rounds are done.\<close>

fun at_label6 :: "words6 \<Rightarrow> block \<Rightarrow> nat \<Rightarrow> words6 \<times> u8 \<times> words4 \<Rightarrow> bool" where
  "at_label6 key b j (k, rcon, s) \<longleftrightarrow>
    key_cols6 k = map (\<lambda>i. schedule6 key ! (12 * j + i)) [0, 1, 2, 3, 4, 5] \<and>
    rcon = round_constant (Suc (2 * j)) \<and> block_of s = cipher_rounds (3 * j) (schedule6 key) b"

fun behind6 :: "words6 \<Rightarrow> block \<Rightarrow> nat \<Rightarrow> words6 \<times> u8 \<times> words4 \<Rightarrow> bool" where
  "behind6 key b j (k, rcon, s) \<longleftrightarrow>
    key_cols6 k = map (\<lambda>i. schedule6 key ! (12 * j + i)) [12, 13, 14, 15, 10, 11] \<and>
    rcon = round_constant (Suc (2 * Suc j)) \<and> block_of s = cipher_rounds (3 * Suc j) (schedule6 key) b"

lemma key_192_top_label:
  assumes "behind6 key b j (k, rcon, s)" and "j < 3"
  shows "at_label6 key b (Suc j) (key_192_top k, rcon, s)"
proof -
  have m: "(12 * j + 16) mod 6 = 4" "(12 * j + 17) mod 6 = 5"
    by presburger+
  have w: "schedule6 key ! (12 * j + 16) = xor_col (schedule6 key ! (12 * j + 10)) (schedule6 key ! (12 * j + 15))"
    "schedule6 key ! (12 * j + 17) = xor_col (schedule6 key ! (12 * j + 11)) (schedule6 key ! (12 * j + 16))"
    using schedule6_word [of "12 * j + 16" key] schedule6_word [of "12 * j + 17" key] assms(2) m
    by (simp_all add: add.commute)
  have cols: "map (\<lambda>i. schedule6 key ! (12 * Suc j + i)) [0, 1, 2, 3, 4, 5] =
      map (\<lambda>i. schedule6 key ! (12 * j + i)) [12, 13, 14, 15, 16, 17]"
    by (simp add: add.commute)
  show ?thesis
    unfolding at_label6.simps cols using assms(1) w by (cases k) (simp add: Let_def del: mult_Suc_right)
qed

lemma round_key6:
  "round_key w (Suc (3 * j)) = (w ! (12 * j + 4), w ! (12 * j + 5), w ! (12 * j + 6), w ! (12 * j + 7))"
  "round_key w (Suc (Suc (3 * j))) = (w ! (12 * j + 8), w ! (12 * j + 9), w ! (12 * j + 10), w ! (12 * j + 11))"
  "round_key w (3 * Suc j) = (w ! (12 * j + 12), w ! (12 * j + 13), w ! (12 * j + 14), w ! (12 * j + 15))"
  by (simp_all add: round_key_def add.commute)

text \<open>The key words and the state when two of the three rounds of an iteration are done.\<close>

fun two_rounds6 :: "words6 \<Rightarrow> block \<Rightarrow> nat \<Rightarrow> words6 \<times> u8 \<times> words4 \<Rightarrow> bool" where
  "two_rounds6 key b j (k, rcon, s) \<longleftrightarrow>
    key_cols6 k = map (\<lambda>i. schedule6 key ! (12 * j + i)) [6, 7, 8, 9, 10, 11] \<and>
    rcon = round_constant (Suc (Suc (2 * j))) \<and> block_of s = cipher_rounds (Suc (Suc (3 * j))) (schedule6 key) b"

lemma rounds_192_schedule:
  assumes "at_label6 key b j (k, rcon, s)" and "j < 4"
  shows "two_rounds6 key b j (rounds_192 k rcon s)"
proof -
  have "12 * j + 11 < 52"
    using assms(2) by simp
  note w = schedule6_half [OF this, of key]
  show ?thesis
    using assms(1) w by (cases k) (simp add: rounds_192_def Let_def key_temp_bytes lookup_round_block round_key6)
qed

lemma key_192_four_schedule:
  assumes "key_cols6 k = map (\<lambda>i. schedule6 key ! (12 * j + i)) [6, 7, 8, 9, 10, 11]" and "j < 4"
  shows "key_cols6 (key_192_four k (round_constant (Suc (Suc (2 * j))))) =
    map (\<lambda>i. schedule6 key ! (12 * j + i)) [12, 13, 14, 15, 10, 11]"
proof -
  have "12 * j + 15 < 52"
    using assms(2) by simp
  note w = schedule6_four [OF this, of key]
  show ?thesis
    using assms(1) w by (cases k) (simp add: Let_def key_temp_bytes)
qed

text \<open>What is done behind the label in an iteration.\<close>

definition iteration_192 :: "words6 \<Rightarrow> u8 \<Rightarrow> words4 \<Rightarrow> words6 \<times> u8 \<times> words4" where
  "iteration_192 k rcon s = (case rounds_192 k rcon s of (k, rcon, s) \<Rightarrow>
     case key_192_four k rcon of (k0, k1, k2, k3, k4, k5) \<Rightarrow>
       ((k0, k1, k2, k3, k4, k5), next_rcon rcon, lookup_round rot_tab (k0, k1, k2, k3) s))"

lemma loop_192_step:
  "loop_192 at_a (i # is) k rcon s =
    (case iteration_192 (if at_a then k else key_192_top k) rcon s of (k, rcon, s) \<Rightarrow> loop_192 False is k rcon s)"
  by (simp add: iteration_192_def Let_def split: prod.split)

lemma cipher_rounds_3:
  "cipher_rounds (3 * Suc j) w b =
    add_round_key (round_key w (3 * Suc j)) (mix_columns (shift_rows (sub_bytes (cipher_rounds (Suc (Suc (3 * j))) w b))))"
proof -
  have "3 * Suc j = Suc (Suc (Suc (3 * j)))"
    by simp
  then show ?thesis
    by (simp only: cipher_rounds.simps)
qed

lemma iteration_192_behind:
  assumes "at_label6 key b j (k, rcon, s)" and "j < 4"
  shows "behind6 key b j (iteration_192 k rcon s)"
proof -
  obtain k' rcon' s' where r: "rounds_192 k rcon s = (k', rcon', s')" "two_rounds6 key b j (k', rcon', s')"
    using rounds_192_schedule [OF assms] by (metis prod_cases3)
  obtain k0 k1 k2 k3 k4 k5 where k: "key_192_four k' rcon' = (k0, k1, k2, k3, k4, k5)"
    by (metis prod_cases6)
  have "key_cols6 (k0, k1, k2, k3, k4, k5) = map (\<lambda>i. schedule6 key ! (12 * j + i)) [12, 13, 14, 15, 10, 11]"
    using key_192_four_schedule [of k' key j] assms(2) r(2) k by simp
  moreover have "iteration_192 k rcon s = ((k0, k1, k2, k3, k4, k5), next_rcon rcon', lookup_round rot_tab (k0, k1, k2, k3) s')"
    by (simp add: iteration_192_def r(1) k)
  moreover have "Suc (2 * Suc j) = Suc (Suc (Suc (2 * j)))"
    by simp
  ultimately show ?thesis
    using r(2) by (simp add: lookup_round_block cipher_rounds_3 round_key6 del: mult_Suc_right)
qed

lemma loop_192_behind:
  "behind6 key b j (k, rcon, s) \<Longrightarrow> j + length is \<le> 3 \<Longrightarrow> behind6 key b (j + length is) (loop_192 False is k rcon s)"
proof (induction "is" arbitrary: j k rcon s)
  case (Cons i "is")
  have "behind6 key b (Suc j) (iteration_192 (key_192_top k) rcon s)"
    using Cons.prems by (intro iteration_192_behind key_192_top_label) simp_all
  then show ?case
    using Cons.IH [of "Suc j"] Cons.prems(2)
    by (cases "iteration_192 (key_192_top k) rcon s") (simp add: loop_192_step del: loop_192.simps behind6.simps)
qed simp

lemma at_label6_start:
  assumes "key = (k0, k1, k2, k3, k4, k5)"
  shows "at_label6 key (block_of state) 0 (key, 1, xor_state (k0, k1, k2, k3) state)"
  using assms by (simp add: schedule6_def schedule_key xor_state_block round_key_def)

section \<open>256 bit keys\<close>

fun key_cols8 :: "words8 \<Rightarrow> column list" where
  "key_cols8 (k, m) = key_cols4 k @ key_cols4 m"

definition schedule8 :: "words8 \<Rightarrow> column list" where
  "schedule8 key = key_schedule 52 (key_cols8 key)"

lemma length_cols8 [simp]: "length (key_cols8 key) = 8"
  by (cases key) simp

lemmas schedule8_word = schedule_word [of "key_cols8 key" _ 52 for key, folded schedule8_def, unfolded length_cols8]

lemma schedule8_low:
  fixes key :: words8
  assumes "8 * j + 11 < 60"
  defines "w \<equiv> \<lambda>i. schedule8 key ! (8 * j + i)"
  shows "w 8 = xor_col (w 0) (xor_col (sub_word (rot_word (w 7))) (round_constant (Suc j), 0, 0, 0))"
    "w 9 = xor_col (w 1) (w 8)" "w 10 = xor_col (w 2) (w 9)" "w 11 = xor_col (w 3) (w 10)"
proof -
  have m: "(8 * j + 8) mod 8 = 0" "(8 * j + 8) div 8 = Suc j" "(8 * j + 9) mod 8 = 1" "(8 * j + 10) mod 8 = 2"
    "(8 * j + 11) mod 8 = 3"
    by presburger+
  show "w 8 = xor_col (w 0) (xor_col (sub_word (rot_word (w 7))) (round_constant (Suc j), 0, 0, 0))"
    "w 9 = xor_col (w 1) (w 8)" "w 10 = xor_col (w 2) (w 9)" "w 11 = xor_col (w 3) (w 10)"
    using schedule8_word [of "8 * j + 8" key] schedule8_word [of "8 * j + 9" key] schedule8_word [of "8 * j + 10" key]
      schedule8_word [of "8 * j + 11" key] assms(1) m
    by (simp_all add: w_def add.commute)
qed

lemma schedule8_top:
  fixes key :: words8
  assumes "8 * j + 15 < 60"
  defines "w \<equiv> \<lambda>i. schedule8 key ! (8 * j + i)"
  shows "w 12 = xor_col (w 4) (sub_word (w 11))"
    "w 13 = xor_col (w 5) (w 12)" "w 14 = xor_col (w 6) (w 13)" "w 15 = xor_col (w 7) (w 14)"
proof -
  have m: "(8 * j + 12) mod 8 = 4" "(8 * j + 13) mod 8 = 5" "(8 * j + 14) mod 8 = 6" "(8 * j + 15) mod 8 = 7"
    by presburger+
  show "w 12 = xor_col (w 4) (sub_word (w 11))"
    "w 13 = xor_col (w 5) (w 12)" "w 14 = xor_col (w 6) (w 13)" "w 15 = xor_col (w 7) (w 14)"
    using schedule8_word [of "8 * j + 12" key] schedule8_word [of "8 * j + 13" key] schedule8_word [of "8 * j + 14" key]
      schedule8_word [of "8 * j + 15" key] assms(1) m
    by (simp_all add: w_def add.commute)
qed

lemma round_key8:
  "round_key w (2 * j) = (w ! (8 * j), w ! (8 * j + 1), w ! (8 * j + 2), w ! (8 * j + 3))"
  "round_key w (Suc (2 * j)) = (w ! (8 * j + 4), w ! (8 * j + 5), w ! (8 * j + 6), w ! (8 * j + 7))"
  "round_key w (Suc (Suc (2 * j))) = (w ! (8 * j + 8), w ! (8 * j + 9), w ! (8 * j + 10), w ! (8 * j + 11))"
  "round_key w (Suc (Suc (Suc (2 * j)))) = (w ! (8 * j + 12), w ! (8 * j + 13), w ! (8 * j + 14), w ! (8 * j + 15))"
  by (simp_all add: round_key_def add.commute)

text \<open>The two halves of the key words are the last two round keys; which one is the older changes twice in an iteration.\<close>

lemma key_256_low_schedule:
  assumes "block_of (fst k) = round_key (schedule8 key) (2 * j)" and "block_of (snd k) = round_key (schedule8 key) (Suc (2 * j))"
    and "j < 7"
  shows "block_of (fst (key_256_low k (round_constant (Suc j)))) = round_key (schedule8 key) (Suc (Suc (2 * j)))"
    and "snd (key_256_low k (round_constant (Suc j))) = snd k"
proof -
  have "8 * j + 11 < 60"
    using assms(3) by simp
  note w = schedule8_low [OF this, of key]
  obtain k0 k1 k2 k3 k4 k5 k6 k7 where k: "k = ((k0, k1, k2, k3), (k4, k5, k6, k7))"
    by (metis prod_cases4 surj_pair)
  show "block_of (fst (key_256_low k (round_constant (Suc j)))) = round_key (schedule8 key) (Suc (Suc (2 * j)))"
    using assms(1,2) w by (simp add: k Let_def key_temp_bytes round_key8)
  show "snd (key_256_low k (round_constant (Suc j))) = snd k"
    by (simp add: k Let_def)
qed

lemma key_256_top_schedule:
  assumes "block_of (snd k) = round_key (schedule8 key) (Suc (2 * j))" and "block_of (fst k) = round_key (schedule8 key) (Suc (Suc (2 * j)))"
    and "j < 6"
  shows "block_of (snd (key_256_top k)) = round_key (schedule8 key) (Suc (Suc (Suc (2 * j))))"
    and "fst (key_256_top k) = fst k"
proof -
  have "8 * j + 15 < 60"
    using assms(3) by simp
  note w = schedule8_top [OF this, of key]
  obtain k0 k1 k2 k3 k4 k5 k6 k7 where k: "k = ((k0, k1, k2, k3), (k4, k5, k6, k7))"
    by (metis prod_cases4 surj_pair)
  show "block_of (snd (key_256_top k)) = round_key (schedule8 key) (Suc (Suc (Suc (2 * j))))"
    using assms(1,2) w by (simp add: k Let_def bytes_of_sub_byte round_key8)
  show "fst (key_256_top k) = fst k"
    by (simp add: k Let_def)
qed

fun at_label8 :: "words8 \<Rightarrow> block \<Rightarrow> nat \<Rightarrow> words8 \<times> u8 \<times> words4 \<Rightarrow> bool" where
  "at_label8 key b j (k, rcon, s) \<longleftrightarrow>
    block_of (fst k) = round_key (schedule8 key) (2 * j) \<and> block_of (snd k) = round_key (schedule8 key) (Suc (2 * j)) \<and>
    rcon = round_constant (Suc j) \<and> block_of s = cipher_rounds (2 * j) (schedule8 key) b"

fun behind8 :: "words8 \<Rightarrow> block \<Rightarrow> nat \<Rightarrow> words8 \<times> u8 \<times> words4 \<Rightarrow> bool" where
  "behind8 key b j (k, rcon, s) \<longleftrightarrow>
    block_of (snd k) = round_key (schedule8 key) (Suc (2 * j)) \<and>
    block_of (fst k) = round_key (schedule8 key) (Suc (Suc (2 * j))) \<and>
    rcon = round_constant (Suc (Suc j)) \<and> block_of s = cipher_rounds (Suc (Suc (2 * j))) (schedule8 key) b"

lemma key_256_top_label: "behind8 key b j (k, rcon, s) \<Longrightarrow> j < 6 \<Longrightarrow> at_label8 key b (Suc j) (key_256_top k, rcon, s)"
  using key_256_top_schedule [of k key j] by simp

definition iteration_256 :: "words8 \<Rightarrow> u8 \<Rightarrow> words4 \<Rightarrow> words8 \<times> u8 \<times> words4" where
  "iteration_256 k rcon s =
    (key_256_low k rcon, next_rcon rcon,
     lookup_round rot_tab (fst (key_256_low k rcon)) (lookup_round rot_tab (snd k) s))"

lemma loop_256_step:
  "loop_256 at_a (i # is) k rcon s =
    (case iteration_256 (if at_a then k else key_256_top k) rcon s of (k, rcon, s) \<Rightarrow> loop_256 False is k rcon s)"
  by (simp add: iteration_256_def Let_def)

lemma iteration_256_behind: "at_label8 key b j (k, rcon, s) \<Longrightarrow> j < 7 \<Longrightarrow> behind8 key b j (iteration_256 k rcon s)"
  using key_256_low_schedule [of k key j] by (simp add: iteration_256_def lookup_round_block)

lemma loop_256_behind:
  "behind8 key b j (k, rcon, s) \<Longrightarrow> j + length is \<le> 6 \<Longrightarrow> behind8 key b (j + length is) (loop_256 False is k rcon s)"
proof (induction "is" arbitrary: j k rcon s)
  case (Cons i "is")
  have "behind8 key b (Suc j) (iteration_256 (key_256_top k) rcon s)"
    using Cons.prems by (intro iteration_256_behind key_256_top_label) simp_all
  then show ?case
    using Cons.IH [of "Suc j"] Cons.prems(2)
    by (cases "iteration_256 (key_256_top k) rcon s") (simp add: loop_256_step del: loop_256.simps behind8.simps)
qed simp

lemma at_label8_start: "at_label8 key (block_of state) 0 (key, 1, xor_state (fst key) state)"
proof -
  obtain k0 k1 k2 k3 k4 k5 k6 k7 where "key = ((k0, k1, k2, k3), (k4, k5, k6, k7))"
    by (metis prod_cases4 surj_pair)
  then show ?thesis
    by (simp add: schedule8_def schedule_key xor_state_block round_key_def)
qed

section \<open>The routines are AES\<close>

text \<open>C12: both routines for 128 bit keys, the one that tests for the last round in its loop and the one without branch, compute
  the cipher of FIPS 197 for every block and every key.\<close>

theorem encrypt_128_is_aes:
  "block_of (encrypt_128_key_expand_inline_no_branch state key) = cipher (key_cols4 key) (block_of state) \<and>
   block_of (encrypt_128_key_expand_inline state key) = cipher (key_cols4 key) (block_of state)"
  by (simp add: encrypt_128_cipher)

text \<open>C13: the routine for 192 bit keys computes the cipher of FIPS 197; the loop makes three rounds from two steps of the key
  schedule, and is entered in its middle.\<close>

theorem encrypt_192_is_aes:
  "block_of (encrypt_192_key_expand_inline_no_branch state key) = cipher (key_cols6 key) (block_of state)"
proof -
  obtain k0 k1 k2 k3 k4 k5 where key: "key = (k0, k1, k2, k3, k4, k5)"
    by (metis prod_cases6)
  let ?b = "block_of state" and ?s = "xor_state (k0, k1, k2, k3) state"
  have upt: "[1..<4] = [1, 2, 3 :: nat]"
    by (simp add: upt_rec)
  obtain k rcon s where i: "iteration_192 key 1 ?s = (k, rcon, s)" "behind6 key ?b 0 (k, rcon, s)"
    using iteration_192_behind [OF at_label6_start [OF key, of state]] by (metis prod_cases3 zero_less_numeral)
  have "behind6 key ?b 2 (loop_192 True [1..<4] key 1 ?s)"
    using loop_192_behind [OF i(2), of "[2, 3]"] unfolding upt
    by (simp add: loop_192_step i(1) numeral_2_eq_2 del: loop_192.simps behind6.simps)
  then obtain k rcon s where l: "loop_192 True [1..<4] key 1 ?s = (k, rcon, s)" "behind6 key ?b 2 (k, rcon, s)"
    by (metis prod_cases3)
  have "two_rounds6 key ?b 3 (rounds_192 (key_192_top k) rcon s)"
    using rounds_192_schedule [OF key_192_top_label [OF l(2)]] by (simp add: numeral_3_eq_3)
  then obtain k' rcon' s' where r: "rounds_192 (key_192_top k) rcon s = (k', rcon', s')" "two_rounds6 key ?b 3 (k', rcon', s')"
    by (metis prod_cases3)
  obtain m0 m1 m2 m3 m4 m5 where m: "key_192_four k' rcon' = (m0, m1, m2, m3, m4, m5)"
    by (metis prod_cases6)
  have "block_of (m0, m1, m2, m3) = round_key (schedule6 key) 12"
    using key_192_four_schedule [of k' key 3] r(2) m by (simp add: round_key_def)
  moreover have "block_of s' = cipher_rounds 11 (schedule6 key) ?b"
    using r(2) by simp
  moreover have "encrypt_192_key_expand_inline_no_branch state key = final_round (m0, m1, m2, m3) s'"
    using l(1) r(1) m by (simp add: encrypt_192_key_expand_inline_no_branch_def key Let_def del: upt_rec_numeral)
  ultimately show ?thesis
    by (simp add: last_round_block cipher_def schedule6_def Let_def)
qed

text \<open>C14: the routine for 256 bit keys computes the cipher of FIPS 197.\<close>

theorem encrypt_256_is_aes:
  "block_of (encrypt_256_key_expand_inline_no_branch state key) = cipher (key_cols8 key) (block_of state)"
proof -
  let ?b = "block_of state" and ?s = "xor_state (fst key) state"
  have upt: "[1..<7] = [1, 2, 3, 4, 5, 6 :: nat]"
    by (simp add: upt_rec)
  obtain k rcon s where i: "iteration_256 key 1 ?s = (k, rcon, s)" "behind8 key ?b 0 (k, rcon, s)"
    using iteration_256_behind [OF at_label8_start [of key state]] by (metis prod_cases3 zero_less_numeral)
  have first: "loop_256 True [1..<7] key 1 ?s = loop_256 False [2, 3, 4, 5, 6] k rcon s"
    unfolding upt loop_256_step [of True] by (simp only: if_True i(1) prod.case)
  have n: "0 + length [2, 3, 4, 5, 6 :: nat] = 5" "(5 :: nat) \<le> 6"
    by simp_all
  have "behind8 key ?b 5 (loop_256 True [1..<7] key 1 ?s)"
    unfolding first by (rule loop_256_behind [OF i(2), of "[2, 3, 4, 5, 6]", unfolded n(1), OF n(2)])
  then obtain k rcon s where l: "loop_256 True [1..<7] key 1 ?s = (k, rcon, s)" "behind8 key ?b 5 (k, rcon, s)"
    by (metis prod_cases3)
  have t: "at_label8 key ?b 6 (key_256_top k, rcon, s)"
    using key_256_top_label [OF l(2)] by simp
  have "block_of (fst (key_256_low (key_256_top k) rcon)) = round_key (schedule8 key) 14"
    using key_256_low_schedule(1) [of "key_256_top k" key 6] t by simp
  moreover have "block_of (lookup_round rot_tab (snd (key_256_top k)) s) = cipher_rounds 13 (schedule8 key) ?b"
    using t cipher_rounds.simps(2) [of 12 "schedule8 key" ?b] by (simp add: lookup_round_block)
  moreover have "encrypt_256_key_expand_inline_no_branch state key =
      final_round (fst (key_256_low (key_256_top k) rcon)) (lookup_round rot_tab (snd (key_256_top k)) s)"
    unfolding encrypt_256_key_expand_inline_no_branch_def Let_def l(1) by (simp only: prod.case)
  ultimately show ?thesis
    by (simp add: last_round_block cipher_def schedule8_def Let_def)
qed

end
