(* ===== verification/Digest.thy ===== *)
theory Digest
  imports Bytes
begin

unbundle bit_operations_syntax

text \<open>
  The message digests of the iSCSI daemon, \<^verbatim>\<open>cg/iscsi-scst/usr/md5.c\<close> and \<^verbatim>\<open>cg/iscsi-scst/usr/sha1.c\<close>. The two files handle
  the block buffer in the same way; that part is written once, over the transformation of a block and the form of the
  counter. The buffer is the 64 bytes of the array \<^verbatim>\<open>block\<close> in memory.
\<close>

section \<open>The block buffer\<close>

record hash_ctx =
  ctx_digest :: "u32 list"
  ctx_block :: "u8 list"
  ctx_count :: u64

text \<open>\<^verbatim>\<open>memcpy\<close> and \<^verbatim>\<open>memset\<close> to an offset of the buffer; the callers keep to its bounds.\<close>

definition memcpy_block :: "u8 list \<Rightarrow> nat \<Rightarrow> u8 list \<Rightarrow> u8 list" where
  "memcpy_block blk off data = take off blk @ data @ drop (off + length data) blk"

text \<open>The loop over whole blocks; it leaves the digest, the buffer and the data not yet used.\<close>

function block_loop :: "(u32 list \<Rightarrow> u8 list \<Rightarrow> u32 list) \<Rightarrow> u32 list \<Rightarrow> u8 list \<Rightarrow> u8 list \<Rightarrow> u32 list \<times> u8 list \<times> u8 list" where
  "block_loop transform d blk data =
    (if 64 \<le> length data then
       let blk = memcpy_block blk 0 (take 64 data); d = transform d blk
       in block_loop transform d blk (drop 64 data)
     else (d, blk, data))"
  by pat_completeness auto

termination
  by (relation "measure (\<lambda>(transform, d, blk, data). length data)") auto

declare block_loop.simps [simp del]

definition block_update :: "(u32 list \<Rightarrow> u8 list \<Rightarrow> u32 list) \<Rightarrow> hash_ctx \<Rightarrow> u8 list \<Rightarrow> hash_ctx" where
  "block_update transform ctx data =
    (let len = length data;
         offset = unat (ctx_count ctx AND 0x3F);
         avail = 64 - offset;
         ctx = ctx\<lparr>ctx_count := ctx_count ctx + of_nat len\<rparr>
     in if avail > len then ctx\<lparr>ctx_block := memcpy_block (ctx_block ctx) offset data\<rparr>
        else
          let blk = memcpy_block (ctx_block ctx) offset (take avail data);
              d = transform (ctx_digest ctx) blk;
              (d, blk, rest) = block_loop transform d blk (drop avail data)
          in ctx\<lparr>ctx_digest := d, ctx_block := (if rest \<noteq> [] then memcpy_block blk 0 rest else blk)\<rparr>)"

text \<open>The digest after the padding; \<open>counter\<close> gives the eight bytes at the end of the last block.\<close>

definition block_final :: "(u32 list \<Rightarrow> u8 list \<Rightarrow> u32 list) \<Rightarrow> (u64 \<Rightarrow> u8 list) \<Rightarrow> hash_ctx \<Rightarrow> u32 list" where
  "block_final transform counter ctx =
    (let offset = unat (ctx_count ctx AND 0x3F);
         padding = (64 - 8) - (int offset + 1);
         blk = memcpy_block (ctx_block ctx) offset [0x80];
         p = offset + 1;
         (d, blk, p, padding) =
           (if padding < 0 then
              let blk = memcpy_block blk p (replicate (nat (padding + 8)) 0)
              in (transform (ctx_digest ctx) blk, blk, 0, 64 - 8)
            else (ctx_digest ctx, blk, p, padding));
         blk = memcpy_block blk p (replicate (nat padding) 0);
         blk = memcpy_block blk (4 * 14) (counter (ctx_count ctx))
     in transform d blk)"

section \<open>MD5\<close>

definition md5_F1 :: "u32 \<Rightarrow> u32 \<Rightarrow> u32 \<Rightarrow> u32" where
  "md5_F1 x y z = z XOR (x AND (y XOR z))"

definition md5_F2 :: "u32 \<Rightarrow> u32 \<Rightarrow> u32 \<Rightarrow> u32" where
  "md5_F2 x y z = md5_F1 z x y"

definition md5_F3 :: "u32 \<Rightarrow> u32 \<Rightarrow> u32 \<Rightarrow> u32" where
  "md5_F3 x y z = x XOR y XOR z"

definition md5_F4 :: "u32 \<Rightarrow> u32 \<Rightarrow> u32 \<Rightarrow> u32" where
  "md5_F4 x y z = y XOR (x OR NOT z)"

definition MD5STEP :: "(u32 \<Rightarrow> u32 \<Rightarrow> u32 \<Rightarrow> u32) \<Rightarrow> u32 \<Rightarrow> u32 \<Rightarrow> u32 \<Rightarrow> u32 \<Rightarrow> u32 \<Rightarrow> u32 \<Rightarrow> nat \<Rightarrow> u32" where
  "MD5STEP f w x y z i k s = (let w = w + (f x y z + i + k) in (push_bit s w OR drop_bit (32 - s) w) + x)"

text \<open>The step applied to each of the four variables.\<close>

fun step_a :: "(u32 \<Rightarrow> u32 \<Rightarrow> u32 \<Rightarrow> u32) \<Rightarrow> u32 \<Rightarrow> u32 \<Rightarrow> nat \<Rightarrow> words4 \<Rightarrow> words4" where
  "step_a f i k s (a, b, c, d) = (MD5STEP f a b c d i k s, b, c, d)"

fun step_d :: "(u32 \<Rightarrow> u32 \<Rightarrow> u32 \<Rightarrow> u32) \<Rightarrow> u32 \<Rightarrow> u32 \<Rightarrow> nat \<Rightarrow> words4 \<Rightarrow> words4" where
  "step_d f i k s (a, b, c, d) = (a, b, c, MD5STEP f d a b c i k s)"

fun step_c :: "(u32 \<Rightarrow> u32 \<Rightarrow> u32 \<Rightarrow> u32) \<Rightarrow> u32 \<Rightarrow> u32 \<Rightarrow> nat \<Rightarrow> words4 \<Rightarrow> words4" where
  "step_c f i k s (a, b, c, d) = (a, b, MD5STEP f c d a b i k s, d)"

fun step_b :: "(u32 \<Rightarrow> u32 \<Rightarrow> u32 \<Rightarrow> u32) \<Rightarrow> u32 \<Rightarrow> u32 \<Rightarrow> nat \<Rightarrow> words4 \<Rightarrow> words4" where
  "step_b f i k s (a, b, c, d) = (a, MD5STEP f b c d a i k s, c, d)"

text \<open>The 64 steps, in the order of the code.\<close>

definition md5_round1 :: "u32 list \<Rightarrow> (words4 \<Rightarrow> words4) list" where
  "md5_round1 inp = [
     step_a md5_F1 (inp ! 0) 0xD76AA478 7, step_d md5_F1 (inp ! 1) 0xE8C7B756 12,
     step_c md5_F1 (inp ! 2) 0x242070DB 17, step_b md5_F1 (inp ! 3) 0xC1BDCEEE 22,
     step_a md5_F1 (inp ! 4) 0xF57C0FAF 7, step_d md5_F1 (inp ! 5) 0x4787C62A 12,
     step_c md5_F1 (inp ! 6) 0xA8304613 17, step_b md5_F1 (inp ! 7) 0xFD469501 22,
     step_a md5_F1 (inp ! 8) 0x698098D8 7, step_d md5_F1 (inp ! 9) 0x8B44F7AF 12,
     step_c md5_F1 (inp ! 10) 0xFFFF5BB1 17, step_b md5_F1 (inp ! 11) 0x895CD7BE 22,
     step_a md5_F1 (inp ! 12) 0x6B901122 7, step_d md5_F1 (inp ! 13) 0xFD987193 12,
     step_c md5_F1 (inp ! 14) 0xA679438E 17, step_b md5_F1 (inp ! 15) 0x49B40821 22]"

definition md5_round2 :: "u32 list \<Rightarrow> (words4 \<Rightarrow> words4) list" where
  "md5_round2 inp = [
     step_a md5_F2 (inp ! 1) 0xF61E2562 5, step_d md5_F2 (inp ! 6) 0xC040B340 9,
     step_c md5_F2 (inp ! 11) 0x265E5A51 14, step_b md5_F2 (inp ! 0) 0xE9B6C7AA 20,
     step_a md5_F2 (inp ! 5) 0xD62F105D 5, step_d md5_F2 (inp ! 10) 0x02441453 9,
     step_c md5_F2 (inp ! 15) 0xD8A1E681 14, step_b md5_F2 (inp ! 4) 0xE7D3FBC8 20,
     step_a md5_F2 (inp ! 9) 0x21E1CDE6 5, step_d md5_F2 (inp ! 14) 0xC33707D6 9,
     step_c md5_F2 (inp ! 3) 0xF4D50D87 14, step_b md5_F2 (inp ! 8) 0x455A14ED 20,
     step_a md5_F2 (inp ! 13) 0xA9E3E905 5, step_d md5_F2 (inp ! 2) 0xFCEFA3F8 9,
     step_c md5_F2 (inp ! 7) 0x676F02D9 14, step_b md5_F2 (inp ! 12) 0x8D2A4C8A 20]"

definition md5_round3 :: "u32 list \<Rightarrow> (words4 \<Rightarrow> words4) list" where
  "md5_round3 inp = [
     step_a md5_F3 (inp ! 5) 0xFFFA3942 4, step_d md5_F3 (inp ! 8) 0x8771F681 11,
     step_c md5_F3 (inp ! 11) 0x6D9D6122 16, step_b md5_F3 (inp ! 14) 0xFDE5380C 23,
     step_a md5_F3 (inp ! 1) 0xA4BEEA44 4, step_d md5_F3 (inp ! 4) 0x4BDECFA9 11,
     step_c md5_F3 (inp ! 7) 0xF6BB4B60 16, step_b md5_F3 (inp ! 10) 0xBEBFBC70 23,
     step_a md5_F3 (inp ! 13) 0x289B7EC6 4, step_d md5_F3 (inp ! 0) 0xEAA127FA 11,
     step_c md5_F3 (inp ! 3) 0xD4EF3085 16, step_b md5_F3 (inp ! 6) 0x04881D05 23,
     step_a md5_F3 (inp ! 9) 0xD9D4D039 4, step_d md5_F3 (inp ! 12) 0xE6DB99E5 11,
     step_c md5_F3 (inp ! 15) 0x1FA27CF8 16, step_b md5_F3 (inp ! 2) 0xC4AC5665 23]"

definition md5_round4 :: "u32 list \<Rightarrow> (words4 \<Rightarrow> words4) list" where
  "md5_round4 inp = [
     step_a md5_F4 (inp ! 0) 0xF4292244 6, step_d md5_F4 (inp ! 7) 0x432AFF97 10,
     step_c md5_F4 (inp ! 14) 0xAB9423A7 15, step_b md5_F4 (inp ! 5) 0xFC93A039 21,
     step_a md5_F4 (inp ! 12) 0x655B59C3 6, step_d md5_F4 (inp ! 3) 0x8F0CCC92 10,
     step_c md5_F4 (inp ! 10) 0xFFEFF47D 15, step_b md5_F4 (inp ! 1) 0x85845DD1 21,
     step_a md5_F4 (inp ! 8) 0x6FA87E4F 6, step_d md5_F4 (inp ! 15) 0xFE2CE6E0 10,
     step_c md5_F4 (inp ! 6) 0xA3014314 15, step_b md5_F4 (inp ! 13) 0x4E0811A1 21,
     step_a md5_F4 (inp ! 4) 0xF7537E82 6, step_d md5_F4 (inp ! 11) 0xBD3AF235 10,
     step_c md5_F4 (inp ! 2) 0x2AD7D2BB 15, step_b md5_F4 (inp ! 9) 0xEB86D391 21]"

definition md5_transform_words :: "u32 list \<Rightarrow> u32 list \<Rightarrow> u32 list" where
  "md5_transform_words hash inp =
    (let (a, b, c, d) =
       fold (\<lambda>f. f) (md5_round1 inp @ md5_round2 inp @ md5_round3 inp @ md5_round4 inp)
         (hash ! 0, hash ! 1, hash ! 2, hash ! 3)
     in [hash ! 0 + a, hash ! 1 + b, hash ! 2 + c, hash ! 3 + d])"

definition md5_transform :: "u32 list \<Rightarrow> u8 list \<Rightarrow> u32 list" where
  "md5_transform digest blk = md5_transform_words digest (map cpu_to_le32 (words_of blk))"

definition md5_init :: "hash_ctx \<Rightarrow> hash_ctx" where
  "md5_init ctx = ctx\<lparr>ctx_digest := [0x67452301, 0xEFCDAB89, 0x98BADCFE, 0x10325476], ctx_count := 0\<rparr>"

definition md5_update :: "hash_ctx \<Rightarrow> u8 list \<Rightarrow> hash_ctx" where
  "md5_update = block_update md5_transform"

text \<open>The two counter words, low word first, and the digest copied to \<^verbatim>\<open>out\<close>; the context is cleared.\<close>

definition md5_counter :: "u64 \<Rightarrow> u8 list" where
  "md5_counter count = word_bytes (cpu_to_le32 (ucast (push_bit 3 count))) @ word_bytes (cpu_to_le32 (ucast (drop_bit 29 count)))"

definition md5_final :: "hash_ctx \<Rightarrow> u8 list \<times> hash_ctx" where
  "md5_final ctx =
    (let d = map le32_to_cpu (block_final md5_transform md5_counter ctx)
     in (concat (map word_bytes d), \<lparr>ctx_digest = replicate 4 0, ctx_block = replicate 64 0, ctx_count = 0\<rparr>))"

section \<open>SHA1\<close>

definition sha1_F1 :: "u32 \<Rightarrow> u32 \<Rightarrow> u32 \<Rightarrow> u32" where
  "sha1_F1 x y z = z XOR (x AND (y XOR z))"

definition sha1_F2 :: "u32 \<Rightarrow> u32 \<Rightarrow> u32 \<Rightarrow> u32" where
  "sha1_F2 x y z = x XOR y XOR z"

definition sha1_F3 :: "u32 \<Rightarrow> u32 \<Rightarrow> u32 \<Rightarrow> u32" where
  "sha1_F3 x y z = (x AND y) + (z AND (x XOR y))"

abbreviation (input) sha1_K1 :: u32 where "sha1_K1 \<equiv> 0x5A827999"
abbreviation (input) sha1_K2 :: u32 where "sha1_K2 \<equiv> 0x6ED9EBA1"
abbreviation (input) sha1_K3 :: u32 where "sha1_K3 \<equiv> 0x8F1BBCDC"
abbreviation (input) sha1_K4 :: u32 where "sha1_K4 \<equiv> 0xCA62C1D6"

definition rol32 :: "u32 \<Rightarrow> nat \<Rightarrow> u32" where
  "rol32 w shift = push_bit shift w OR drop_bit (32 - shift) w"

type_synonym words5 = "u32 \<times> u32 \<times> u32 \<times> u32 \<times> u32"

text \<open>The array \<^verbatim>\<open>W\<close>: sixteen words of the block, then sixty-four computed ones.\<close>

definition sha1_workspace :: "u32 list \<Rightarrow> u32 list" where
  "sha1_workspace inp =
    fold (\<lambda>i W. W @ [rol32 (W ! (i + 13) XOR W ! (i + 8) XOR W ! (i + 2) XOR W ! i) 1]) [0..<64] (map cpu_to_be32 inp)"

fun sha1_step :: "(u32 \<Rightarrow> u32 \<Rightarrow> u32 \<Rightarrow> u32) \<Rightarrow> u32 \<Rightarrow> u32 list \<Rightarrow> nat \<Rightarrow> words5 \<Rightarrow> words5" where
  "sha1_step f k W i (a, b, c, d, e) =
    (let t = f b c d + k + rol32 a 5 + e + W ! i in (t, a, rol32 b 30, c, d))"

definition sha1_transform_words :: "u32 list \<Rightarrow> u32 list \<Rightarrow> u32 list" where
  "sha1_transform_words hash inp =
    (let W = sha1_workspace inp;
         s = (hash ! 0, hash ! 1, hash ! 2, hash ! 3, hash ! 4);
         s = fold (sha1_step sha1_F1 sha1_K1 W) [0..<20] s;
         s = fold (sha1_step sha1_F2 sha1_K2 W) [20..<40] s;
         s = fold (sha1_step sha1_F3 sha1_K3 W) [40..<60] s;
         (a, b, c, d, e) = fold (sha1_step sha1_F2 sha1_K4 W) [60..<80] s
     in [hash ! 0 + a, hash ! 1 + b, hash ! 2 + c, hash ! 3 + d, hash ! 4 + e])"

definition sha1_transform :: "u32 list \<Rightarrow> u8 list \<Rightarrow> u32 list" where
  "sha1_transform digest blk = sha1_transform_words digest (words_of blk)"

definition sha1_init :: "hash_ctx \<Rightarrow> hash_ctx" where
  "sha1_init ctx = ctx\<lparr>ctx_digest := [0x67452301, 0xEFCDAB89, 0x98BADCFE, 0x10325476, 0xC3D2E1F0], ctx_count := 0\<rparr>"

definition sha1_update :: "hash_ctx \<Rightarrow> u8 list \<Rightarrow> hash_ctx" where
  "sha1_update = block_update sha1_transform"

definition sha1_counter :: "u64 \<Rightarrow> u8 list" where
  "sha1_counter count = word_bytes (cpu_to_be32 (ucast (drop_bit 29 count))) @ word_bytes (cpu_to_be32 (ucast (push_bit 3 count)))"

definition sha1_final :: "hash_ctx \<Rightarrow> u8 list \<times> hash_ctx" where
  "sha1_final ctx =
    (let d = map be32_to_cpu (block_final sha1_transform sha1_counter ctx)
     in (concat (map word_bytes d), \<lparr>ctx_digest = replicate 5 0, ctx_block = replicate 64 0, ctx_count = 0\<rparr>))"

end
