(* ===== verification/Digest_Ref.thy ===== *)
theory Digest_Ref
  imports Bytes
begin

unbundle bit_operations_syntax

text \<open>
  The message digests as the standards define them, on whole messages: RFC 1321 for MD5 and FIPS 180 for SHA1. Both
  pad the message to whole blocks and iterate a compression function over them.
\<close>

section \<open>Padding and blocks\<close>

function blocks :: "u8 list \<Rightarrow> u8 list list" where
  "blocks m = (if 64 \<le> length m then take 64 m # blocks (drop 64 m) else [])"
  by pat_completeness auto

termination
  by (relation "measure length") auto

declare blocks.simps [simp del]

text \<open>A one bit, zeros up to eight bytes short of a whole block, and the length in bits modulo \<open>2^64\<close>.\<close>

definition md_pad :: "(u64 \<Rightarrow> u8 list) \<Rightarrow> u8 list \<Rightarrow> u8 list" where
  "md_pad enc m = m @ [0x80] @ replicate ((119 - length m mod 64) mod 64) 0 @ enc (of_nat (8 * length m))"

definition enc_le :: "u64 \<Rightarrow> u8 list" where
  "enc_le n = map (\<lambda>i. ucast (drop_bit (8 * i) n)) [0, 1, 2, 3, 4, 5, 6, 7]"

definition enc_be :: "u64 \<Rightarrow> u8 list" where
  "enc_be n = rev (enc_le n)"

section \<open>MD5\<close>

definition md5_f :: "nat \<Rightarrow> u32 \<Rightarrow> u32 \<Rightarrow> u32 \<Rightarrow> u32" where
  "md5_f i x y z =
    (if i < 16 then (x AND y) OR (NOT x AND z)
     else if i < 32 then (x AND z) OR (y AND NOT z)
     else if i < 48 then x XOR y XOR z
     else y XOR (x OR NOT z))"

definition md5_index :: "nat \<Rightarrow> nat" where
  "md5_index i =
    (if i < 16 then i else if i < 32 then (5 * i + 1) mod 16 else if i < 48 then (3 * i + 5) mod 16 else (7 * i) mod 16)"

definition md5_shift :: "nat \<Rightarrow> nat" where
  "md5_shift i = [[7, 12, 17, 22], [5, 9, 14, 20], [4, 11, 16, 23], [6, 10, 15, 21]] ! (i div 16) ! (i mod 4)"

text \<open>The integer part of \<open>2^32 * abs (sin (i + 1))\<close>.\<close>

definition md5_T :: "u32 list" where
  "md5_T = [
     0xD76AA478, 0xE8C7B756, 0x242070DB, 0xC1BDCEEE, 0xF57C0FAF, 0x4787C62A, 0xA8304613, 0xFD469501,
     0x698098D8, 0x8B44F7AF, 0xFFFF5BB1, 0x895CD7BE, 0x6B901122, 0xFD987193, 0xA679438E, 0x49B40821,
     0xF61E2562, 0xC040B340, 0x265E5A51, 0xE9B6C7AA, 0xD62F105D, 0x02441453, 0xD8A1E681, 0xE7D3FBC8,
     0x21E1CDE6, 0xC33707D6, 0xF4D50D87, 0x455A14ED, 0xA9E3E905, 0xFCEFA3F8, 0x676F02D9, 0x8D2A4C8A,
     0xFFFA3942, 0x8771F681, 0x6D9D6122, 0xFDE5380C, 0xA4BEEA44, 0x4BDECFA9, 0xF6BB4B60, 0xBEBFBC70,
     0x289B7EC6, 0xEAA127FA, 0xD4EF3085, 0x04881D05, 0xD9D4D039, 0xE6DB99E5, 0x1FA27CF8, 0xC4AC5665,
     0xF4292244, 0x432AFF97, 0xAB9423A7, 0xFC93A039, 0x655B59C3, 0x8F0CCC92, 0xFFEFF47D, 0x85845DD1,
     0x6FA87E4F, 0xFE2CE6E0, 0xA3014314, 0x4E0811A1, 0xF7537E82, 0xBD3AF235, 0x2AD7D2BB, 0xEB86D391]"

fun md5_step :: "u32 list \<Rightarrow> nat \<Rightarrow> words4 \<Rightarrow> words4" where
  "md5_step X i (a, b, c, d) =
    (d, b + word_rotl (md5_shift i) (a + md5_f i b c d + X ! md5_index i + md5_T ! i), b, c)"

definition md5_compress :: "u32 list \<Rightarrow> u8 list \<Rightarrow> u32 list" where
  "md5_compress h m =
    (case fold (md5_step (words_of m)) [0..<64] (h ! 0, h ! 1, h ! 2, h ! 3) of
       (a, b, c, d) \<Rightarrow> [h ! 0 + a, h ! 1 + b, h ! 2 + c, h ! 3 + d])"

definition md5 :: "u8 list \<Rightarrow> u8 list" where
  "md5 m = concat (map word_bytes
     (foldl md5_compress [0x67452301, 0xEFCDAB89, 0x98BADCFE, 0x10325476] (blocks (md_pad enc_le m))))"

section \<open>SHA1\<close>

function sha1_w :: "u8 list \<Rightarrow> nat \<Rightarrow> u32" where
  "sha1_w m t =
    (if t < 16 then word_of (m ! (4 * t + 3), m ! (4 * t + 2), m ! (4 * t + 1), m ! (4 * t))
     else word_rotl 1 (sha1_w m (t - 3) XOR sha1_w m (t - 8) XOR sha1_w m (t - 14) XOR sha1_w m (t - 16)))"
  by pat_completeness auto

termination
  by (relation "measure snd") auto

declare sha1_w.simps [simp del]

definition sha1_f :: "nat \<Rightarrow> u32 \<Rightarrow> u32 \<Rightarrow> u32 \<Rightarrow> u32" where
  "sha1_f t x y z =
    (if t < 20 then (x AND y) XOR (NOT x AND z)
     else if 40 \<le> t \<and> t < 60 then (x AND y) XOR (x AND z) XOR (y AND z)
     else x XOR y XOR z)"

definition sha1_k :: "nat \<Rightarrow> u32" where
  "sha1_k t = (if t < 20 then 0x5A827999 else if t < 40 then 0x6ED9EBA1 else if t < 60 then 0x8F1BBCDC else 0xCA62C1D6)"

fun sha1_round :: "u8 list \<Rightarrow> nat \<Rightarrow> u32 \<times> u32 \<times> u32 \<times> u32 \<times> u32 \<Rightarrow> u32 \<times> u32 \<times> u32 \<times> u32 \<times> u32" where
  "sha1_round m t (a, b, c, d, e) =
    (word_rotl 5 a + sha1_f t b c d + e + sha1_k t + sha1_w m t, a, word_rotl 30 b, c, d)"

definition sha1_compress :: "u32 list \<Rightarrow> u8 list \<Rightarrow> u32 list" where
  "sha1_compress h m =
    (case fold (sha1_round m) [0..<80] (h ! 0, h ! 1, h ! 2, h ! 3, h ! 4) of
       (a, b, c, d, e) \<Rightarrow> [a + h ! 0, b + h ! 1, c + h ! 2, d + h ! 3, e + h ! 4])"

definition sha1 :: "u8 list \<Rightarrow> u8 list" where
  "sha1 m = concat (map (\<lambda>w. rev (word_bytes w))
     (foldl sha1_compress [0x67452301, 0xEFCDAB89, 0x98BADCFE, 0x10325476, 0xC3D2E1F0] (blocks (md_pad enc_be m))))"

section \<open>Facts about blocks\<close>

lemma blocks_short [simp]: "length m < 64 \<Longrightarrow> blocks m = []"
  by (subst blocks.simps) simp

lemma blocks_one: "length b = 64 \<Longrightarrow> blocks (b @ m) = b # blocks m"
  by (subst blocks.simps) simp

lemma blocks_append:
  assumes "64 dvd length a"
  shows "blocks (a @ m) = blocks a @ blocks m"
  using assms
proof (induction a rule: blocks.induct)
  case (1 a)
  show ?case
  proof (cases "64 \<le> length a")
    case True
    then have "blocks (a @ m) = take 64 a # blocks (drop 64 a @ m)"
      by (subst blocks.simps) simp
    also have "\<dots> = take 64 a # blocks (drop 64 a) @ blocks m"
      using 1 True by simp
    finally show ?thesis
      using True by (subst (2) blocks.simps) simp
  next
    case False
    then have "a = []"
      using 1(2) by (metis dvd_imp_le length_0_conv not_gr_zero)
    then show ?thesis
      by simp
  qed
qed

end
