(* ===== verification/Digest_Props.thy ===== *)
theory Digest_Props
  imports Digest Digest_Ref
begin

unbundle bit_operations_syntax

text \<open>
  The digests of the daemon are those of the standards, however the message is cut into updates. The part about the
  buffer is proved once, for any transformation of blocks and any form of the counter.
\<close>

section \<open>The buffer\<close>

lemma length_memcpy_block [simp]: "off + length data \<le> length blk \<Longrightarrow> length (memcpy_block blk off data) = length blk"
  by (simp add: memcpy_block_def)

lemma take_memcpy_block: "off \<le> length blk \<Longrightarrow> take (off + length data) (memcpy_block blk off data) = take off blk @ data"
  by (simp add: memcpy_block_def)

lemma memcpy_block_full: "off + length data = length blk \<Longrightarrow> memcpy_block blk off data = take off blk @ data"
  by (simp add: memcpy_block_def)

lemma count_offset: "unat ((of_nat n :: u64) AND 0x3F) = n mod 64"
proof -
  have "(of_nat n :: u64) AND 0x3F = take_bit 6 (of_nat n)"
    by (simp add: take_bit_eq_mask mask_numeral)
  then show ?thesis
    by (simp only: unsigned_take_bit_eq unsigned_of_nat take_bit_take_bit) (simp add: take_bit_eq_mod mod_mod_cancel)
qed

lemma pad_zeros:
  "n < 56 \<Longrightarrow> (119 - n) mod 64 = (55 - n :: nat)"
  "\<not> n < 56 \<Longrightarrow> n < 64 \<Longrightarrow> (119 - n) mod 64 = (63 - n) + (56 :: nat)"
proof -
  assume n: "n < 56"
  then have "119 - n = (55 - n) + 64"
    by simp
  then show "(119 - n) mod 64 = 55 - n"
    using n by (simp only: mod_add_self2) simp
next
  assume "\<not> n < 56" "n < 64"
  then show "(119 - n) mod 64 = (63 - n) + 56"
    by (subst mod_less) simp_all
qed

text \<open>A context that has been given the bytes \<open>m\<close>: whole blocks have gone into the digest, the rest is in the buffer.\<close>

definition buffered :: "(u32 list \<Rightarrow> u8 list \<Rightarrow> u32 list) \<Rightarrow> u32 list \<Rightarrow> hash_ctx \<Rightarrow> u8 list \<Rightarrow> bool" where
  "buffered compress iv ctx m \<longleftrightarrow> (\<exists>q r. m = q @ r \<and> 64 dvd length q \<and> length r < 64 \<and> length (ctx_block ctx) = 64 \<and>
     take (length r) (ctx_block ctx) = r \<and> ctx_digest ctx = foldl compress iv (blocks q) \<and> ctx_count ctx = of_nat (length m))"

locale block_hash =
  fixes transform :: "u32 list \<Rightarrow> u8 list \<Rightarrow> u32 list" and counter :: "u64 \<Rightarrow> u8 list" and iv :: "u32 list"
    and compress :: "u32 list \<Rightarrow> u8 list \<Rightarrow> u32 list" and enc :: "u64 \<Rightarrow> u8 list"
  assumes transform_compress: "length b = 64 \<Longrightarrow> transform d b = compress d b"
    and counter_enc: "counter (of_nat n) = enc (of_nat (8 * n))"
    and length_enc: "length (enc c) = 8"
begin

lemma loop_blocks:
  assumes "length blk = 64" and "block_loop transform d blk data = (d', blk', rest)"
  shows "\<exists>q. data = q @ rest \<and> 64 dvd length q \<and> length rest < 64 \<and> length blk' = 64 \<and> d' = foldl compress d (blocks q)"
  using assms
proof (induction "length data" arbitrary: d blk data rule: less_induct)
  case less
  show ?case
  proof (cases "64 \<le> length data")
    case True
    let ?b = "take 64 data"
    have b: "memcpy_block blk 0 ?b = ?b"
      using less.prems(1) True by (simp add: memcpy_block_def)
    have "length (drop 64 data) < length data"
      using True by auto
    then obtain q where q: "drop 64 data = q @ rest" "64 dvd length q" "length rest < 64" "length blk' = 64"
      "d' = foldl compress (transform d ?b) (blocks q)"
      using less.hyps [of "drop 64 data" ?b "transform d ?b"] less.prems True b by (auto simp: block_loop.simps [of _ d] Let_def)
    have "data = (?b @ q) @ rest"
      using q(1) by (metis append.assoc append_take_drop_id)
    moreover have "64 dvd length (?b @ q)"
      using q(2) True by simp
    ultimately show ?thesis
      using q True by (intro exI [of _ "?b @ q"]) (simp add: blocks_one transform_compress)
  next
    case False
    then show ?thesis
      using less.prems by (intro exI [of _ "[]"]) (auto simp: block_loop.simps [of _ d])
  qed
qed

lemma update_buffered:
  assumes "buffered compress iv ctx m"
  shows "buffered compress iv (block_update transform ctx data) (m @ data)"
proof -
  obtain q r where m: "m = q @ r" "64 dvd length q" "length r < 64" "length (ctx_block ctx) = 64"
    "take (length r) (ctx_block ctx) = r" "ctx_digest ctx = foldl compress iv (blocks q)" "ctx_count ctx = of_nat (length m)"
    using assms by (auto simp: buffered_def)
  have off: "unat ((of_nat (length m) :: u64) AND 0x3F) = length r"
    unfolding count_offset using m(1-3) by auto
  show ?thesis
  proof (cases "length r + length data < 64")
    case True
    then have "block_update transform ctx data = ctx\<lparr>ctx_count := of_nat (length (m @ data)),
        ctx_block := memcpy_block (ctx_block ctx) (length r) data\<rparr>"
      by (simp add: block_update_def Let_def off m(7))
    then show ?thesis
      unfolding buffered_def using m True
      by (intro exI [of _ q] exI [of _ "r @ data"]) (simp add: take_memcpy_block)
  next
    case False
    let ?avail = "64 - length r"
    let ?b = "r @ take ?avail data"
    have b: "memcpy_block (ctx_block ctx) (length r) (take ?avail data) = ?b" "length ?b = 64"
      using m(3,4,5) False by (simp_all add: memcpy_block_full)
    obtain d blk rest where l: "block_loop transform (compress (ctx_digest ctx) ?b) ?b (drop ?avail data) = (d, blk, rest)"
      by (metis prod_cases3)
    obtain p where p: "drop ?avail data = p @ rest" "64 dvd length p" "length rest < 64" "length blk = 64"
      "d = foldl compress (compress (ctx_digest ctx) ?b) (blocks p)"
      using loop_blocks [OF b(2) l] by blast
    have u: "block_update transform ctx data = ctx\<lparr>ctx_count := of_nat (length (m @ data)), ctx_digest := d,
        ctx_block := (if rest \<noteq> [] then memcpy_block blk 0 rest else blk)\<rparr>"
      using False l b by (simp add: block_update_def Let_def off m(7) transform_compress)
    have "m @ data = (q @ ?b @ p) @ rest"
      using m(1) p(1) by (metis append.assoc append_take_drop_id)
    moreover have "64 dvd length (q @ ?b @ p)"
      using m(2) p(2) b(2) by (simp only: length_append) (metis dvd_add dvd_refl)
    moreover have "d = foldl compress iv (blocks (q @ ?b @ p))"
      using m(2,6) p(5) b(2) by (simp only: blocks_append blocks_one foldl_append foldl_Cons)
    ultimately show ?thesis
      unfolding buffered_def u using p(3,4)
      by (intro exI [of _ "q @ ?b @ p"] exI [of _ rest]) (simp add: memcpy_block_def)
  qed
qed

lemma final_digest:
  assumes "buffered compress iv ctx m"
  shows "block_final transform counter ctx = foldl compress iv (blocks (md_pad enc m))"
proof -
  obtain q r where m: "m = q @ r" "64 dvd length q" "length r < 64" "length (ctx_block ctx) = 64"
    "take (length r) (ctx_block ctx) = r" "ctx_digest ctx = foldl compress iv (blocks q)" "ctx_count ctx = of_nat (length m)"
    using assms by (auto simp: buffered_def)
  let ?c = "enc (of_nat (8 * length m))"
  have mod: "length m mod 64 = length r"
    using m(1-3) by auto
  have off: "unat ((of_nat (length m) :: u64) AND 0x3F) = length r"
    by (simp add: count_offset mod)
  have first: "take (length r + 1) (memcpy_block (ctx_block ctx) (length r) [0x80]) = r @ [0x80]"
    using take_memcpy_block [of "length r" "ctx_block ctx" "[0x80]"] m(3-5) by simp
  let ?blk = "memcpy_block (ctx_block ctx) (length r) [0x80]"
  have len: "length ?blk = 64"
    using m(3,4) by simp
  show ?thesis
  proof (cases "length r < 56")
    case True
    let ?b = "r @ [0x80] @ replicate (55 - length r) 0 @ ?c"
    have b: "length ?b = 64"
      using True by (simp add: length_enc)
    have "memcpy_block (memcpy_block ?blk (length r + 1) (replicate (55 - length r) 0)) 56 ?c = ?b"
      using first len True by (simp add: memcpy_block_def length_enc take_Cons')
    then have "block_final transform counter ctx = compress (ctx_digest ctx) ?b"
      using True by (simp add: block_final_def Let_def m(7) off counter_enc nat_diff_distrib' transform_compress length_enc)
    moreover have "md_pad enc m = q @ ?b @ []"
      unfolding md_pad_def mod pad_zeros(1) [OF True] using m(1) by simp
    ultimately show ?thesis
      using m(2,6) b by (simp only: blocks_append blocks_one) simp
  next
    case False
    let ?b = "r @ [0x80] @ replicate (63 - length r) 0" and ?b' = "replicate 56 0 @ ?c"
    have b: "length ?b = 64" "length ?b' = 64"
      using False m(3) by (simp_all add: length_enc)
    have f: "memcpy_block ?blk (length r + 1) (replicate (63 - length r) 0) = ?b"
      using first len m(3) by (simp add: memcpy_block_def)
    have "memcpy_block (memcpy_block ?b 0 (replicate 56 0)) 56 ?c = ?b'"
      using b by (simp add: memcpy_block_def length_enc)
    then have "block_final transform counter ctx = compress (compress (ctx_digest ctx) ?b) ?b'"
      using False b f m(3)
      by (simp add: block_final_def Let_def m(7) off counter_enc nat_diff_distrib' transform_compress length_enc)
    moreover have "md_pad enc m = q @ ?b @ ?b' @ []"
      unfolding md_pad_def mod pad_zeros(2) [OF False m(3)] replicate_add using m(1) by simp
    ultimately show ?thesis
      using m(2,6) b by (simp only: blocks_append blocks_one) simp
  qed
qed

lemma stream_digest:
  assumes "length (ctx_block ctx) = 64" and "ctx_digest ctx = iv" and "ctx_count ctx = 0"
  shows "block_final transform counter (fold (\<lambda>data ctx. block_update transform ctx data) chunks ctx) =
    foldl compress iv (blocks (md_pad enc (concat chunks)))"
proof -
  have "buffered compress iv (fold (\<lambda>data ctx. block_update transform ctx data) chunks ctx) (m @ concat chunks)"
    if "buffered compress iv ctx m" for ctx m
    using that
  proof (induction chunks arbitrary: ctx m)
    case (Cons data chunks)
    then show ?case
      using Cons.IH [OF update_buffered [OF Cons.prems]] by simp
  qed simp
  moreover have "buffered compress iv ctx []"
    using assms by (simp add: buffered_def)
  ultimately show ?thesis
    using final_digest by fastforce
qed

end

section \<open>The transformations\<close>

lemma rol_rotl: "0 < s \<Longrightarrow> s < 32 \<Longrightarrow> push_bit s (w :: u32) OR drop_bit (32 - s) w = word_rotl s w"
proof (rule bit_word_eqI)
  fix n
  assume s: "0 < s" "s < 32" and "n < LENGTH(32)"
  then have n: "n < 32"
    by simp
  have "(n + 32 - s) mod 32 = (if s \<le> n then n - s else 32 + n - s)"
    using s n by (auto simp: mod_if)
  then show "bit (push_bit s w OR drop_bit (32 - s) w) n = bit (word_rotl s w) n"
    using s n bit_imp_le_length [of w "32 + n - s"] by (auto simp: bit_simps bit_word_rotl_iff)
qed

lemma rol32_rotl: "0 < s \<Longrightarrow> s < 32 \<Longrightarrow> rol32 w s = word_rotl s w"
  by (simp add: rol32_def rol_rotl)

lemma length_enc_le: "length (enc_le c) = 8" "length (enc_be c) = 8"
  by (simp_all add: enc_le_def enc_be_def)

lemma word_bytes_be: "word_bytes (bswap_32 w) = rev (word_bytes w)"
  by (simp add: word_bytes_def bswap_32_def split: prod.split)

lemma counters:
  "md5_counter (of_nat n) = enc_le (of_nat (8 * n))"
  "sha1_counter (of_nat n) = enc_be (of_nat (8 * n))"
proof -
  have p: "push_bit 3 (of_nat n :: u64) = of_nat (8 * n)"
    by (simp add: push_bit_eq_mult)
  show md5: "md5_counter (of_nat n) = enc_le (of_nat (8 * n))"
    unfolding p [symmetric]
    by (auto simp: md5_counter_def enc_le_def word_bytes_def bytes_of_def cpu_to_le32_def bit_simps intro!: bit_word_eqI)
  have "sha1_counter c = rev (md5_counter c)" for c
    by (simp add: sha1_counter_def md5_counter_def cpu_to_be32_def cpu_to_le32_def word_bytes_be)
  then show "sha1_counter (of_nat n) = enc_be (of_nat (8 * n))"
    by (simp only: md5 enc_be_def)
qed

subsection \<open>SHA1\<close>

lemma sha1_functions:
  "sha1_F1 x y z = (x AND y) XOR (NOT x AND z)"
  "sha1_F2 x y z = x XOR y XOR z"
  "sha1_F3 x y z = (x AND y) XOR (x AND z) XOR (y AND z)"
proof -
  have "(x AND y) AND (z AND (x XOR y)) = 0"
    by (rule bit_word_eqI) (auto simp: bit_simps)
  then have "sha1_F3 x y z = (x AND y) OR (z AND (x XOR y))"
    by (simp add: sha1_F3_def disjunctive_add_eq_or)
  then show "sha1_F3 x y z = (x AND y) XOR (x AND z) XOR (y AND z)"
    by (auto simp: bit_simps intro!: bit_word_eqI)
qed (auto simp: sha1_F1_def sha1_F2_def bit_simps intro!: bit_word_eqI)

lemma workspace_w:
  assumes "length m = 64" and "t < 80"
  shows "sha1_workspace (words_of m) ! t = sha1_w m t"
proof -
  let ?step = "\<lambda>i W. W @ [rol32 (W ! (i + 13) XOR W ! (i + 8) XOR W ! (i + 2) XOR W ! i) 1]"
  let ?W = "\<lambda>n. fold ?step [0..<n] (map cpu_to_be32 (words_of m))"
  have "length (?W n) = 16 + n \<and> (\<forall>t < 16 + n. ?W n ! t = sha1_w m t)" for n
  proof (induction n)
    case 0
    then show ?case
      using assms(1) by (auto simp: sha1_w.simps nth_words_of cpu_to_be32_def)
  next
    case (Suc n)
    then have "?W (Suc n) ! (16 + n) = sha1_w m (16 + n)"
      by (simp add: sha1_w.simps [of m "n + 16"] rol32_rotl nth_append add.commute)
    moreover have "?W (Suc n) ! t = sha1_w m t" if "t < 16 + n" for t
      using Suc that by (simp add: nth_append)
    moreover have "t < 16 + n \<or> t = 16 + n" if "t < 16 + Suc n" for t
      using that by linarith
    ultimately have "\<forall>t < 16 + Suc n. ?W (Suc n) ! t = sha1_w m t"
      by blast
    moreover have "length (?W (Suc n)) = 16 + Suc n"
      using Suc by simp
    ultimately show ?case
      by blast
  qed
  from this [of 64] show ?thesis
    using assms(2) by (simp add: sha1_workspace_def)
qed

lemma sha1_transform_compress:
  assumes "length m = 64"
  shows "sha1_transform d m = sha1_compress d m"
proof -
  let ?W = "sha1_workspace (words_of m)"
  have rounds: "[0..<80] = [0..<20] @ [20..<40] @ [40..<60] @ [60..<80 :: nat]"
    by code_simp
  have step: "sha1_step f k ?W t s = sha1_round m t s"
    if "t < 80" "sha1_f t = f" "sha1_k t = k" for t f k s
    using workspace_w [OF assms that(1)] that by (cases s) (simp add: rol32_rotl Let_def ac_simps)
  have f: "sha1_f t = (if t < 20 then sha1_F1 else if t < 40 then sha1_F2 else if t < 60 then sha1_F3 else sha1_F2)" for t
    by (auto simp: fun_eq_iff sha1_f_def sha1_functions)
  have "fold (sha1_step sha1_F1 sha1_K1 ?W) [0..<20] s = fold (sha1_round m) [0..<20] s"
    "fold (sha1_step sha1_F2 sha1_K2 ?W) [20..<40] s = fold (sha1_round m) [20..<40] s"
    "fold (sha1_step sha1_F3 sha1_K3 ?W) [40..<60] s = fold (sha1_round m) [40..<60] s"
    "fold (sha1_step sha1_F2 sha1_K4 ?W) [60..<80] s = fold (sha1_round m) [60..<80] s" for s
    by (auto intro!: fold_cong step simp: f sha1_k_def simp del: upt_rec_numeral)
  then show ?thesis
    by (simp only: sha1_transform_def sha1_transform_words_def sha1_compress_def Let_def rounds fold_append comp_apply
        add.commute)
qed

subsection \<open>MD5\<close>

lemma md5_functions:
  "i < 16 \<Longrightarrow> md5_f i = md5_F1" "16 \<le> i \<Longrightarrow> i < 32 \<Longrightarrow> md5_f i = md5_F2"
  "32 \<le> i \<Longrightarrow> i < 48 \<Longrightarrow> md5_f i = md5_F3" "48 \<le> i \<Longrightarrow> md5_f i = md5_F4"
  by (auto simp: fun_eq_iff md5_f_def md5_F1_def md5_F2_def md5_F3_def md5_F4_def bit_simps intro!: bit_word_eqI)

text \<open>Four steps of the code, on the variables \<open>a\<close>, \<open>d\<close>, \<open>c\<close> and \<open>b\<close> in turn, from the tables of the standard.\<close>

definition md5_quad :: "u32 list \<Rightarrow> nat \<Rightarrow> (words4 \<Rightarrow> words4) list" where
  "md5_quad X j =
    (let arg = \<lambda>g i. g (md5_f i) (X ! md5_index i) (md5_T ! i) (md5_shift i)
     in [arg step_a (4 * j), arg step_d (4 * j + 1), arg step_c (4 * j + 2), arg step_b (4 * j + 3)])"

lemma md5_shift_bounds: "i < 64 \<Longrightarrow> 0 < md5_shift i \<and> md5_shift i < 32"
proof -
  assume "i < 64"
  then have "i div 16 \<in> {0, 1, 2, 3}" "i mod 4 \<in> {0, 1, 2, 3}"
    by auto
  then show ?thesis
    by (auto simp: md5_shift_def)
qed

lemma MD5STEP_rotl:
  "i < 64 \<Longrightarrow> MD5STEP f w x y z n k (md5_shift i) = x + word_rotl (md5_shift i) (w + f x y z + n + k)"
  using md5_shift_bounds [of i] by (simp add: MD5STEP_def Let_def rol_rotl ac_simps)

lemma md5_quad_steps:
  assumes "j < 16"
  shows "fold (\<lambda>f. f) (md5_quad X j) s = fold (md5_step X) [4 * j, 4 * j + 1, 4 * j + 2, 4 * j + 3] s"
proof -
  have "4 * j < 64" "4 * j + 1 < 64" "4 * j + 2 < 64" "4 * j + 3 < 64"
    using assms by simp_all
  then show ?thesis
    by (cases s) (simp add: md5_quad_def Let_def MD5STEP_rotl)
qed

lemma md5_rounds_quads:
  "md5_round1 X @ md5_round2 X @ md5_round3 X @ md5_round4 X = concat (map (md5_quad X) [0..<16])"
  by (simp add: md5_round1_def md5_round2_def md5_round3_def md5_round4_def md5_quad_def Let_def upt_rec md5_functions
      md5_index_def md5_T_def md5_shift_def) (simp add: numeral_2_eq_2)

lemma fold_concat_fold: "fold f (concat xss) s = fold (\<lambda>xs. fold f xs) xss s"
  by (induction xss arbitrary: s) simp_all

lemma md5_transform_compress: "md5_transform d m = md5_compress d m"
proof -
  let ?X = "words_of m"
  have le: "map cpu_to_le32 ?X = ?X"
    by (simp add: cpu_to_le32_def map_idI)
  have "[0..<64] = concat (map (\<lambda>j. [4 * j, 4 * j + 1, 4 * j + 2, 4 * j + 3]) [0..<16])"
    by code_simp
  then have "fold (\<lambda>f. f) (md5_round1 ?X @ md5_round2 ?X @ md5_round3 ?X @ md5_round4 ?X) s = fold (md5_step ?X) [0..<64] s" for s
    unfolding md5_rounds_quads by (simp only: fold_concat_fold fold_map comp_def) (auto intro!: fold_cong simp: md5_quad_steps)
  then show ?thesis
    unfolding md5_transform_def md5_transform_words_def le md5_compress_def by (simp only: Let_def)
qed

section \<open>The digests\<close>

interpretation md5_hash: block_hash md5_transform md5_counter "[0x67452301, 0xEFCDAB89, 0x98BADCFE, 0x10325476]" md5_compress enc_le
  by unfold_locales (simp_all only: md5_transform_compress counters length_enc_le)

interpretation sha1_hash: block_hash sha1_transform sha1_counter
  "[0x67452301, 0xEFCDAB89, 0x98BADCFE, 0x10325476, 0xC3D2E1F0]" sha1_compress enc_be
  by unfold_locales (simp_all only: sha1_transform_compress counters length_enc_le)

text \<open>C15: \<^verbatim>\<open>md5_init\<close>, any number of calls of \<^verbatim>\<open>md5_update\<close> with data of any lengths and \<^verbatim>\<open>md5_final\<close> give the MD5 digest of
  RFC 1321 of the concatenated data, whatever the context held before.\<close>

theorem md5_streaming:
  assumes "length (ctx_block ctx) = 64"
  shows "fst (md5_final (fold (\<lambda>data ctx. md5_update ctx data) chunks (md5_init ctx))) = md5 (concat chunks)"
  using md5_hash.stream_digest [of "md5_init ctx" chunks] assms
  by (simp add: md5_init_def md5_update_def md5_final_def md5_def Let_def le32_to_cpu_def comp_def)

theorem md5_streaming_witness:
  "length (ctx_block \<lparr>ctx_digest = [], ctx_block = replicate 64 7, ctx_count = 9\<rparr>) = 64 \<and>
   fst (md5_final (md5_update (md5_update (md5_init \<lparr>ctx_digest = [], ctx_block = replicate 64 7, ctx_count = 9\<rparr>) [97])
     [98, 99])) = md5 [97, 98, 99]"
  using md5_streaming [of "\<lparr>ctx_digest = [], ctx_block = replicate 64 7, ctx_count = 9\<rparr>" "[[97], [98, 99]]"] by simp

text \<open>C16: \<^verbatim>\<open>sha1_init\<close>, any number of calls of \<^verbatim>\<open>sha1_update\<close> and \<^verbatim>\<open>sha1_final\<close> give the SHA1 digest of FIPS 180 of the
  concatenated data.\<close>

theorem sha1_streaming:
  assumes "length (ctx_block ctx) = 64"
  shows "fst (sha1_final (fold (\<lambda>data ctx. sha1_update ctx data) chunks (sha1_init ctx))) = sha1 (concat chunks)"
  using sha1_hash.stream_digest [of "sha1_init ctx" chunks] assms
  by (simp add: sha1_init_def sha1_update_def sha1_final_def sha1_def Let_def be32_to_cpu_def word_bytes_be comp_def)

theorem sha1_streaming_witness:
  "length (ctx_block \<lparr>ctx_digest = [], ctx_block = replicate 64 7, ctx_count = 9\<rparr>) = 64 \<and>
   fst (sha1_final (sha1_update (sha1_update (sha1_init \<lparr>ctx_digest = [], ctx_block = replicate 64 7, ctx_count = 9\<rparr>) [97])
     [98, 99])) = sha1 [97, 98, 99]"
  using sha1_streaming [of "\<lparr>ctx_digest = [], ctx_block = replicate 64 7, ctx_count = 9\<rparr>" "[[97], [98, 99]]"] by simp

end
