(* ===== verification/Spec2Isabelle.thy ===== *)
theory Spec2Isabelle
  imports Engine_Props Vpci_Props Aes_Props Eth_Props Cipher_Props Digest_Props
begin

text \<open>
  \<^bold>\<open>Verification of the ML605 PCIe driver stack.\<close>

  The program (\<^verbatim>\<open>src/linux-drv\<close>) drives an FPGA card over PCIe. The card exposes several functions
  behind one BAR: an AES engine and 10G Ethernet ports, each with an AXI DMA engine that works
  through rings of buffer descriptors in system memory, and one interrupt controller.

  \<^bold>\<open>Layers and theories\<close>, from the bottom up:

  \<^item> \<open>Prelude\<close>: machine types, word facts, cyclic index lists. \<open>Memory\<close>: byte memory with
    little-endian words, \<^verbatim>\<open>memset\<close>, \<^verbatim>\<open>memcpy\<close>; interface \<open>word_memory\<close>.
  \<^item> \<open>Xio\<close> (\<^verbatim>\<open>xio.c\<close>): register access and byte swapping. The device is a parameter, a \<open>bus\<close>; a
    \<open>world\<close> is memory and device state. \<open>Axidma_Hw\<close> (\<^verbatim>\<open>xaxidma_hw.h\<close>, \<^verbatim>\<open>xstatus.h\<close>): constants.
  \<^item> \<open>Bd\<close> (\<^verbatim>\<open>xaxidma_bd.h\<close>, \<^verbatim>\<open>xaxidma_bd.c\<close>): one descriptor.
  \<^item> \<open>Bdring\<close> and \<open>Bdring_Hw\<close> (\<^verbatim>\<open>xaxidma_bdring.h\<close>, \<^verbatim>\<open>xaxidma_bdring.c\<close>): the ring as a record with
    the fields of the C structure, one definition per function. \<open>Ring_Geometry\<close> reduces the
    pointer macros to index arithmetic (interface \<open>cyclic_pointers\<close>), \<open>Ring_Inv\<close> has the invariant
    and the view of a ring as four queues, \<open>Ring_ToHw\<close> and \<open>Ring_Create\<close> the memory effects,
    \<open>Ring_Refine\<close> the refinement of every operation on every branch, \<open>Ring_Machine\<close> the contract
    \<open>descriptor_ring\<close> and the state machine with hardware steps, \<open>Ring_Props\<close> the properties.
  \<^item> \<open>Axidma\<close> (\<^verbatim>\<open>xaxidma.h\<close>, \<^verbatim>\<open>xaxidma.c\<close>): the engine instance.
  \<^item> \<open>Ring_Client\<close> and \<open>Ring_Setup\<close>: what the two drivers share in their use of the rings: filling a
    set of descriptors (interface \<open>bd_filler\<close>), handing it over, taking completed sets back, and
    bringing up an engine with two rings.
  \<^item> \<open>Vpci\<close> (\<^verbatim>\<open>vpci.c\<close>): functions of the card, interrupt lines and dispatch.
  \<^item> \<open>Kernel\<close>, \<open>Dma_Buf\<close> and \<open>Aesdma\<close> (\<^verbatim>\<open>aesdma.c\<close>): the AES driver. \<open>Aes_Krefs\<close> treats the reference
    counts as a multiset, \<open>Aes_Submit\<close> the descriptors written for a request, \<open>Aes_Inv\<close> the
    invariant, \<open>Aes_Machine\<close> and \<open>Aes_Reach\<close> the interleavings, \<open>Aes_Probe\<close> the initial states.
  \<^item> \<open>Axitemac\<close> (\<^verbatim>\<open>axitemac.c\<close>) and \<open>Ethdma\<close> (\<^verbatim>\<open>ethdma.c\<close>): the Ethernet MAC and driver. \<open>Eth_Send\<close>
    has the descriptors it fills, \<open>Eth_Inv\<close> the ownership of socket buffers, \<open>Eth_Steps\<close> and
    \<open>Eth_Machine\<close> the operations and their interleavings, \<open>Eth_Probe\<close> the initial states.

  Two parts stand beside the driver:

  \<^item> \<open>Cipher\<close> (\<^verbatim>\<open>tb/dma/aes.c\<close>, \<^verbatim>\<open>tb/dma/sbox.h\<close>): the software cipher of the test bench.
    \<open>Gf256\<close> has the field of 256 elements and \<open>Cipher_Ref\<close> the cipher of FIPS 197.
  \<^item> \<open>Digest\<close> (\<^verbatim>\<open>cg/iscsi-scst/usr/md5.c\<close>, \<^verbatim>\<open>sha1.c\<close>): the message digests of the iSCSI daemon.
    \<open>Digest_Ref\<close> has the digests of RFC 1321 and FIPS 180 on whole messages. \<open>Bytes\<close> has the
    byte order that the two parts share.

  \<^bold>\<open>What is shown.\<close>

  \<^item> Ring (\<open>Ring_Props\<close>, \<open>Setup_Props\<close>, \<open>Start_Props\<close>): under any sequence of operations and hardware
    steps the four groups partition the descriptors and descriptors come back in order; every
    operation refines its queue specification on every branch; creation, checking, cloning and
    starting do what they promise.
  \<^item> Engine (\<open>Engine_Props\<close>): initialisation, simple transfers, round trips of descriptor fields.
  \<^item> Interrupts (\<open>Vpci_Props\<close>): enabled lines are those with a handler; each pending line is served once.
  \<^item> AES driver (\<open>Aes_Props\<close>): every accepted request is called back exactly once, and is called
    back when the hardware has finished; a request is described exactly by its descriptors.
  \<^item> Ethernet driver (\<open>Eth_Props\<close>): every socket buffer is freed exactly once or still held; a stopped
    queue restarts; reachable states are well formed; a frame is described exactly.
  \<^item> Cipher and digests (\<open>Cipher_Props\<close>, \<open>Digest_Props\<close>): the routines compute the standards, for
    every key and block, and for every way of cutting a message into updates (interface
    \<open>block_hash\<close>).
  \<^item> Properties of kind error state what goes wrong where the code has a defect.

  \<^bold>\<open>Bounds and termination.\<close> Waiting loops of the code count down and are recursions on their
  counter (\<^verbatim>\<open>XAXIDMA_RESET_TIMEOUT\<close>, the 10000 polls of \<^verbatim>\<open>mdio_wait\<close>). The draining loops of the bottom
  halves terminate because each round takes a descriptor out of the hardware group. The search
  for the current descriptor may not end; it is a partial function, shown to return on a
  well-formed ring and shown to diverge otherwise. There is no fuel elsewhere.

  \<^bold>\<open>Assumptions.\<close> The machine is 32-bit x86, little endian, with signed \<^verbatim>\<open>char\<close>. The device behind
  the registers is a parameter. Kernel services (locks, lists, timers, DMA mapping, the network
  stack) have their documented effect, and code under a lock is one step.

  \<^bold>\<open>Not modelled.\<close> Printing and register dumps, module registration, ethtool tables and stubs
  without effect; the DMA test program and SystemC glue of \<^verbatim>\<open>tb\<close> and \<^verbatim>\<open>eth_sim\<close>, whose accesses are
  calls of a simulator, and the copy of the DMA library there; \<^verbatim>\<open>xilinx_axienet*\<close>, which the Makefile
  does not build; the SCSI target \<^verbatim>\<open>cg/scst\<close> and the rest of \<^verbatim>\<open>cg/iscsi-scst\<close>, third party code that
  is not linked with the drivers; the hardware descriptions in \<^verbatim>\<open>pcores\<close>, \<^verbatim>\<open>k7aes_sim\<close> and \<^verbatim>\<open>tb\<close>.
\<close>

end
